(* ===== verification/Go_Prelude.thy ===== *)
theory Go_Prelude
  imports Main "HOL-Library.Word" "HOL-Library.Multiset"
begin

text \<open>
  The part of the Go language and its standard library that rec53 uses and that every
  component shares: fixed-width integers, strings as byte sequences, error values, run-time
  panics, and slices.  A Go function that may panic returns a value of type \<open>'a go\<close>.
  The collections \<open>go_simps\<close> (evaluation of the functions below), \<open>frame\<close> (which fields
  an operation leaves alone) and \<open>keeps\<close> (which invariants an operation preserves) carry
  the component proofs.
\<close>

named_theorems go_simps \<open>evaluation of the Go library functions\<close>
named_theorems frame \<open>what an operation leaves unchanged\<close>
named_theorems keeps \<open>invariants an operation preserves\<close>

section \<open>Machine integers\<close>

type_synonym u8 = "8 word"
type_synonym u16 = "16 word"
type_synonym u32 = "32 word"
type_synonym u64 = "64 word"

text \<open>Conversions to \<open>int32\<close> and \<open>int64\<close> wrap; the value is kept as the integer it denotes.\<close>

definition int32 :: "int \<Rightarrow> int" where
  "int32 x = sint (word_of_int x :: 32 word)"

definition int64 :: "int \<Rightarrow> int" where
  "int64 x = sint (word_of_int x :: 64 word)"

text \<open>Go's integer division truncates towards zero.\<close>

definition go_div :: "int \<Rightarrow> int \<Rightarrow> int" where
  "go_div a b = sgn a * sgn b * (\<bar>a\<bar> div \<bar>b\<bar>)"

section \<open>Panics and errors\<close>

text \<open>\<open>Panic\<close> stands for a run-time panic (index out of range, nil dereference, failed
  type assertion).\<close>

datatype 'a go = Val 'a | Panic

fun go_bind :: "'a go \<Rightarrow> ('a \<Rightarrow> 'b go) \<Rightarrow> 'b go" where
  "go_bind (Val x) f = f x"
| "go_bind Panic f = Panic"

definition go_index :: "'a list \<Rightarrow> nat \<Rightarrow> 'a go" where
  "go_index xs i = (if i < length xs then Val (xs ! i) else Panic)"

section \<open>Strings\<close>

fun index_from :: "nat \<Rightarrow> string \<Rightarrow> string \<Rightarrow> int" where
  "index_from i [] sub = (if sub = [] then int i else - 1)"
| "index_from i (c # s) sub =
     (if take (length sub) (c # s) = sub then int i else index_from (Suc i) s sub)"

definition strings_Index :: "string \<Rightarrow> string \<Rightarrow> int" where
  "strings_Index s sub = index_from 0 s sub"

definition digit_char :: "nat \<Rightarrow> char" where
  "digit_char d = char_of (48 + d)"

fun nat_digits :: "nat \<Rightarrow> string" where
  "nat_digits n = (if n < 10 then [digit_char n] else nat_digits (n div 10) @ [digit_char (n mod 10)])"

declare nat_digits.simps [simp del]

definition strconv_FormatUint :: "nat \<Rightarrow> string" where
  "strconv_FormatUint n = nat_digits n"

definition is_digit :: "char \<Rightarrow> bool" where
  "is_digit c = (48 \<le> (of_char c :: nat) \<and> (of_char c :: nat) \<le> 57)"

definition byte_upper :: "char \<Rightarrow> char" where
  "byte_upper c = (let n = (of_char c :: nat) in if 97 \<le> n \<and> n \<le> 122 then char_of (n - 32) else c)"

definition byte_lower :: "char \<Rightarrow> char" where
  "byte_lower c = (let n = (of_char c :: nat) in if 65 \<le> n \<and> n \<le> 90 then char_of (n + 32) else c)"

text \<open>\<open>strings.ToUpper\<close>, \<open>strings.ToLower\<close> and \<open>strings.TrimSpace\<close> on ASCII text, the
  only text the program compares their results with.\<close>

definition strings_ToUpper :: "string \<Rightarrow> string" where
  "strings_ToUpper s = map byte_upper s"

definition strings_ToLower :: "string \<Rightarrow> string" where
  "strings_ToLower s = map byte_lower s"

definition is_space :: "char \<Rightarrow> bool" where
  "is_space c = (let n = (of_char c :: nat) in n = 32 \<or> (9 \<le> n \<and> n \<le> 13))"

definition strings_TrimSpace :: "string \<Rightarrow> string" where
  "strings_TrimSpace s = rev (dropWhile is_space (rev (dropWhile is_space s)))"

fun strings_Join :: "string list \<Rightarrow> string \<Rightarrow> string" where
  "strings_Join [] sep = []"
| "strings_Join [x] sep = x"
| "strings_Join (x # y # xs) sep = x @ sep @ strings_Join (y # xs) sep"

text \<open>Go compares strings byte by byte.\<close>

fun str_less :: "string \<Rightarrow> string \<Rightarrow> bool" where
  "str_less s [] = False"
| "str_less [] (d # t) = True"
| "str_less (c # s) (d # t) =
     ((of_char c :: nat) < of_char d \<or> (c = d \<and> str_less s t))"

section \<open>Sorting\<close>

text \<open>
  \<open>sort.Slice\<close> promises a permutation in which no later element is less than an earlier
  one; it promises nothing on the order of equal elements.  A definition that calls it takes
  the sorting function as an argument, and the theorems hold for every function that keeps
  the promise.  \<open>go_insertion_sort\<close> is the stable instance used to evaluate examples.
\<close>

definition sort_slice_ok :: "('a \<Rightarrow> 'a \<Rightarrow> bool) \<Rightarrow> ('a list \<Rightarrow> 'a list) \<Rightarrow> bool" where
  "sort_slice_ok lt srt \<longleftrightarrow>
     (\<forall>xs. mset (srt xs) = mset xs \<and> sorted_wrt (\<lambda>a b. \<not> lt b a) (srt xs))"

fun go_insert :: "('a \<Rightarrow> 'a \<Rightarrow> bool) \<Rightarrow> 'a \<Rightarrow> 'a list \<Rightarrow> 'a list" where
  "go_insert lt x [] = [x]"
| "go_insert lt x (y # ys) = (if lt y x then y # go_insert lt x ys else x # y # ys)"

fun go_insertion_sort :: "('a \<Rightarrow> 'a \<Rightarrow> bool) \<Rightarrow> 'a list \<Rightarrow> 'a list" where
  "go_insertion_sort lt [] = []"
| "go_insertion_sort lt (x # xs) = go_insert lt x (go_insertion_sort lt xs)"

section \<open>Lemmas on the library functions\<close>

lemma go_bind_Val_iff [go_simps]: "go_bind m f = Val y \<longleftrightarrow> (\<exists>x. m = Val x \<and> f x = Val y)"
  by (cases m) auto

lemma go_bind_Panic_iff [go_simps]: "go_bind m f = Panic \<longleftrightarrow> m = Panic \<or> (\<exists>x. m = Val x \<and> f x = Panic)"
  by (cases m) auto

lemma go_index_Val [go_simps]: "i < length xs \<Longrightarrow> go_index xs i = Val (xs ! i)"
  by (simp add: go_index_def)

lemma nat_digits_not_Nil [simp]: "nat_digits n \<noteq> []"
  by (subst nat_digits.simps) simp

lemma Nil_not_nat_digits [simp]: "[] \<noteq> nat_digits n"
  using nat_digits_not_Nil [of n] by metis

lemma of_digit_char: "d < 10 \<Longrightarrow> (of_char (digit_char d) :: nat) = 48 + d"
  by (simp add: digit_char_def)

lemma is_digit_digit_char [simp]: "d < 10 \<Longrightarrow> is_digit (digit_char d)"
  by (simp add: is_digit_def of_digit_char)

lemma digit_char_inject: "d < 10 \<Longrightarrow> e < 10 \<Longrightarrow> digit_char d = digit_char e \<longleftrightarrow> d = e"
  by (metis of_digit_char add_left_cancel)

lemma nat_digits_digits: "c \<in> set (nat_digits n) \<Longrightarrow> is_digit c"
proof (induction n rule: nat_digits.induct)
  case (1 n)
  then show ?case by (cases "n < 10") (auto simp: nat_digits.simps [of n])
qed

lemma nat_digits_inject [simp]: "nat_digits m = nat_digits n \<longleftrightarrow> m = n"
proof (induction m arbitrary: n rule: nat_digits.induct)
  case (1 m)
  show ?case
  proof (cases "m < 10")
    case True
    then show ?thesis
      by (cases "n < 10") (auto simp: nat_digits.simps [of m] nat_digits.simps [of n] digit_char_inject)
  next
    case False
    show ?thesis
    proof (cases "n < 10")
      case True
      with False show ?thesis by (auto simp: nat_digits.simps [of m] nat_digits.simps [of n])
    next
      case n: False
      have "m = n \<longleftrightarrow> m div 10 = n div 10 \<and> m mod 10 = n mod 10"
        by (metis div_mult_mod_eq)
      with False n "1.IH" show ?thesis
        by (auto simp: nat_digits.simps [of m] nat_digits.simps [of n] digit_char_inject)
    qed
  qed
qed

lemma str_less_irrefl [simp]: "\<not> str_less s s"
  by (induction s) auto

lemma str_less_trans: "str_less s t \<Longrightarrow> str_less t u \<Longrightarrow> str_less s u"
proof (induction s t arbitrary: u rule: str_less.induct)
  case (2 d t)
  then show ?case by (cases u) auto
next
  case (3 c s d t)
  then show ?case by (cases u) auto
qed simp

lemma str_less_linear: "str_less s t \<or> s = t \<or> str_less t s"
proof (induction s t rule: str_less.induct)
  case (1 s)
  then show ?case by (cases s) auto
next
  case (3 c s d t)
  then show ?case by (metis linorder_less_linear of_char_eq_iff str_less.simps(3))
qed simp

lemma str_less_asym: "str_less s t \<Longrightarrow> \<not> str_less t s"
  using str_less_trans str_less_irrefl by blast

lemma set_go_insert [simp]: "mset (go_insert lt x ys) = {#x#} + mset ys"
  by (induction ys) auto

lemma mset_go_insertion_sort [simp]: "mset (go_insertion_sort lt xs) = mset xs"
  by (induction xs) auto

lemma mset_rotate: "mset (rotate n xs) = mset xs"
proof -
  have "mset (drop k xs @ take k xs) = mset (take k xs @ drop k xs)" for k
    by (simp only: mset_append union_commute)
  then show ?thesis by (simp add: rotate_drop_take del: mset_append)
qed

text \<open>The stable instance keeps the promise for every strict weak order.\<close>

lemma go_insertion_sort_ok:
  assumes "\<And>a b c. \<not> lt b a \<Longrightarrow> \<not> lt c b \<Longrightarrow> \<not> lt c a" "\<And>a b. lt a b \<Longrightarrow> \<not> lt b a"
  shows "sort_slice_ok lt (go_insertion_sort lt)"
proof -
  have set_ins: "set (go_insert lt x ys) = insert x (set ys)" for x ys
    by (induction ys) auto
  have ins: "sorted_wrt (\<lambda>a b. \<not> lt b a) ys \<Longrightarrow> sorted_wrt (\<lambda>a b. \<not> lt b a) (go_insert lt x ys)" for x ys
  proof (induction ys)
    case (Cons y ys)
    show ?case
    proof (cases "lt y x")
      case True
      with Cons assms(2) show ?thesis by (auto simp: set_ins)
    next
      case False
      with Cons.prems assms(1) [OF False] show ?thesis by auto
    qed
  qed simp
  have "sorted_wrt (\<lambda>a b. \<not> lt b a) (go_insertion_sort lt xs)" for xs
    by (induction xs) (auto intro: ins)
  then show ?thesis by (simp add: sort_slice_ok_def)
qed

lemma sort_slice_mset: "sort_slice_ok lt srt \<Longrightarrow> mset (srt xs) = mset xs"
  by (simp add: sort_slice_ok_def)

lemma sort_slice_set [simp]: "sort_slice_ok lt srt \<Longrightarrow> set (srt xs) = set xs"
  using sort_slice_mset by (metis set_mset_mset)

lemma sort_slice_length [simp]: "sort_slice_ok lt srt \<Longrightarrow> length (srt xs) = length xs"
  using sort_slice_mset by (metis size_mset)

end
