(* ===== verification/Dns_Message.thy ===== *)
theory Dns_Message
  imports Go_Prelude
begin

text \<open>
  DNS messages as rec53 handles them.  The structs are those of github.com/miekg/dns, with
  the fields the program reads or writes; the functions of that package are not part of the
  repository, so they are the fields of the record \<open>dnslib\<close>, an argument of every definition
  that calls them.  What the program relies on is stated by the predicates \<open>copy_laws\<close>,
  \<open>reply_laws\<close>, \<open>question_laws\<close> and \<open>subdomain_laws\<close>, each a documented property of
  the package.
\<close>

section \<open>Resource records and messages\<close>

record RR_Header =
  Name :: string
  Rrtype :: u16
  Class :: u16
  Ttl :: u32

text \<open>
  The address of an A record is an IPv4 address or nil: the unpacker, \<open>net.ParseIP\<close> on the
  text form of an IPv4 address and \<open>To4\<close> give nothing else.
\<close>

type_synonym ipv4 = "u8 \<times> u8 \<times> u8 \<times> u8"

record SOAData =
  SOA_Ns :: string
  SOA_Mbox :: string
  SOA_Serial :: u32
  SOA_Refresh :: u32
  SOA_Retry :: u32
  SOA_Expire :: u32
  Minttl :: u32

datatype RR =
    RR_A (Header: RR_Header) (A_addr: "ipv4 option")
  | RR_AAAA (Header: RR_Header) (AAAA_addr: "u8 list")
  | RR_CNAME (Header: RR_Header) (Target: string)
  | RR_NS (Header: RR_Header) (NS_Ns: string)
  | RR_SOA (Header: RR_Header) (SOA_data: SOAData)
  | RR_OPT (Header: RR_Header)
  | RR_Other (Header: RR_Header) (Rdata: "u8 list")

record DnsQuestion =
  qName :: string
  Qtype :: u16
  Qclass :: u16

record MsgHdr =
  MsgId :: u16
  Response :: bool
  Opcode :: int
  Authoritative :: bool
  Truncated :: bool
  RecursionDesired :: bool
  RecursionAvailable :: bool
  Zero :: bool
  AuthenticatedData :: bool
  CheckingDisabled :: bool
  Rcode :: int

record Msg = MsgHdr +
  Compress :: bool
  Question :: "DnsQuestion list"
  Answer :: "RR list"
  Ns :: "RR list"
  Extra :: "RR list"

text \<open>\<open>new(dns.Msg)\<close>: every field is its zero value.\<close>

definition newMsg :: Msg where
  "newMsg = \<lparr>MsgId = 0, Response = False, Opcode = 0, Authoritative = False, Truncated = False,
     RecursionDesired = False, RecursionAvailable = False, Zero = False,
     AuthenticatedData = False, CheckingDisabled = False, Rcode = 0,
     Compress = False, Question = [], Answer = [], Ns = [], Extra = []\<rparr>"

text \<open>The assignment \<open>m.MsgHdr = h.MsgHdr\<close>.\<close>

definition setMsgHdr :: "Msg \<Rightarrow> Msg \<Rightarrow> Msg" where
  "setMsgHdr m h = h\<lparr>Compress := Compress m, Question := Question m,
     Answer := Answer m, Ns := Ns m, Extra := Extra m\<rparr>"

abbreviation (input) "OpcodeQuery \<equiv> (0 :: int)"
abbreviation (input) "RcodeSuccess \<equiv> (0 :: int)"
abbreviation (input) "RcodeFormatError \<equiv> (1 :: int)"
abbreviation (input) "RcodeServerFailure \<equiv> (2 :: int)"
abbreviation (input) "RcodeNameError \<equiv> (3 :: int)"
abbreviation (input) "RcodeNotImplemented \<equiv> (4 :: int)"
abbreviation (input) "RcodeRefused \<equiv> (5 :: int)"
abbreviation (input) "TypeA \<equiv> (1 :: u16)"
abbreviation (input) "TypeNS \<equiv> (2 :: u16)"
abbreviation (input) "TypeCNAME \<equiv> (5 :: u16)"
abbreviation (input) "TypeAAAA \<equiv> (28 :: u16)"
abbreviation (input) "ClassINET \<equiv> (1 :: u16)"

text \<open>\<open>net.IP.String\<close> for the address of an A record.\<close>

fun IP_String :: "ipv4 option \<Rightarrow> string" where
  "IP_String None = ''<nil>''"
| "IP_String (Some (a, b, c, d)) =
     nat_digits (unat a) @ ''.'' @ nat_digits (unat b) @ ''.'' @
     nat_digits (unat c) @ ''.'' @ nat_digits (unat d)"

section \<open>The functions of the dns package\<close>

record dnslib =
  IsSubDomain :: "string \<Rightarrow> string \<Rightarrow> bool"      \<comment> \<open>parent, child\<close>
  Fqdn :: "string \<Rightarrow> string"
  SplitDomainName :: "string \<Rightarrow> string list"
  CanonicalName :: "string \<Rightarrow> string"
  PackDomainName :: "string \<Rightarrow> u8 list option"
  SetReply :: "Msg \<Rightarrow> Msg \<Rightarrow> Msg"
  SetRcode :: "Msg \<Rightarrow> Msg \<Rightarrow> int \<Rightarrow> Msg"
  SetQuestion :: "u16 \<Rightarrow> Msg \<Rightarrow> string \<Rightarrow> u16 \<Rightarrow> Msg"  \<comment> \<open>the drawn id first\<close>
  SetUpdate :: "Msg \<Rightarrow> string \<Rightarrow> Msg"
  SetEdns0 :: "Msg \<Rightarrow> u16 \<Rightarrow> bool \<Rightarrow> Msg"
  MsgCopy :: "Msg \<Rightarrow> Msg"
  RRCopy :: "RR \<Rightarrow> RR"
  MsgLen :: "Msg \<Rightarrow> int"
  IsEdns0 :: "Msg \<Rightarrow> RR option"
  UDPSize :: "RR \<Rightarrow> u16"
  MsgPack :: "Msg \<Rightarrow> u8 list option"
  MsgUnpack :: "u8 list \<Rightarrow> Msg option"
  TypeToString :: "u16 \<Rightarrow> string"
  RcodeToString :: "int \<Rightarrow> string"
  StringToType :: "string \<Rightarrow> u16 option"

text \<open>\<open>Copy\<close> gives a deep copy: an equal value.\<close>

definition copy_laws :: "dnslib \<Rightarrow> bool" where
  "copy_laws L \<longleftrightarrow> (\<forall>m. MsgCopy L m = m) \<and> (\<forall>r. RRCopy L r = r)"

text \<open>\<open>SetReply\<close> makes a message the reply to a request: the id, the response bit, the
  first question of the request and a success code; the sections stay.  \<open>SetRcode\<close> does the
  same with another code.\<close>

definition reply_laws :: "dnslib \<Rightarrow> bool" where
  "reply_laws L \<longleftrightarrow>
     (\<forall>m r. Question (SetReply L m r) = (if Question r = [] then Question m else [hd (Question r)])
        \<and> MsgId (SetReply L m r) = MsgId r \<and> Response (SetReply L m r)
        \<and> Rcode (SetReply L m r) = RcodeSuccess
        \<and> Answer (SetReply L m r) = Answer m \<and> Ns (SetReply L m r) = Ns m
        \<and> Extra (SetReply L m r) = Extra m)
     \<and> (\<forall>m r c. SetRcode L m r c = (SetReply L m r)\<lparr>Rcode := c\<rparr>)"

text \<open>\<open>SetQuestion\<close> makes the message a query for one name and type in class IN.
  The sections stay.  \<open>SetEdns0\<close> only appends an OPT record to the additional section.\<close>

definition question_laws :: "dnslib \<Rightarrow> bool" where
  "question_laws L \<longleftrightarrow>
     (\<forall>i m n t. Question (SetQuestion L i m n t) = [\<lparr>qName = n, Qtype = t, Qclass = ClassINET\<rparr>]
        \<and> MsgId (SetQuestion L i m n t) = i
        \<and> Response (SetQuestion L i m n t) = Response m
        \<and> Opcode (SetQuestion L i m n t) = Opcode m
        \<and> Answer (SetQuestion L i m n t) = Answer m \<and> Ns (SetQuestion L i m n t) = Ns m
        \<and> Extra (SetQuestion L i m n t) = Extra m)
     \<and> (\<forall>m u d. Question (SetEdns0 L m u d) = Question m)"

text \<open>\<open>IsSubDomain parent child\<close> holds of a domain and itself.\<close>

definition subdomain_laws :: "dnslib \<Rightarrow> bool" where
  "subdomain_laws L \<longleftrightarrow> (\<forall>d. IsSubDomain L d d)"

text \<open>The unpacker creates each record from its type code, so a record with the code of an
  A record is one.\<close>

definition rr_typed :: "RR \<Rightarrow> bool" where
  "rr_typed r \<longleftrightarrow> (Rrtype (Header r) = TypeA \<longrightarrow> is_RR_A r)"

definition msg_typed :: "Msg \<Rightarrow> bool" where
  "msg_typed m \<longleftrightarrow> list_all rr_typed (Answer m) \<and> list_all rr_typed (Ns m) \<and> list_all rr_typed (Extra m)"

section \<open>Lemmas\<close>

lemma newMsg_simps [simp]:
  "Question newMsg = []" "Answer newMsg = []" "Ns newMsg = []" "Extra newMsg = []"
  "Rcode newMsg = RcodeSuccess" "Response newMsg = False" "Opcode newMsg = OpcodeQuery"
  by (simp_all add: newMsg_def)

lemma setMsgHdr_simps [simp]:
  "Question (setMsgHdr m h) = Question m"
  "Answer (setMsgHdr m h) = Answer m"
  "Ns (setMsgHdr m h) = Ns m"
  "Extra (setMsgHdr m h) = Extra m"
  "Rcode (setMsgHdr m h) = Rcode h"
  by (simp_all add: setMsgHdr_def)

lemma copy_lawsD [simp]:
  "copy_laws L \<Longrightarrow> MsgCopy L m = m"
  "copy_laws L \<Longrightarrow> RRCopy L r = r"
  by (simp_all add: copy_laws_def)

lemma reply_lawsD [simp]:
  assumes "reply_laws L"
  shows "Question (SetReply L m r) = (if Question r = [] then Question m else [hd (Question r)])"
    "MsgId (SetReply L m r) = MsgId r" "Response (SetReply L m r)"
    "Rcode (SetReply L m r) = RcodeSuccess"
    "Answer (SetReply L m r) = Answer m" "Ns (SetReply L m r) = Ns m"
    "Extra (SetReply L m r) = Extra m"
    "SetRcode L m r c = (SetReply L m r)\<lparr>Rcode := c\<rparr>"
  using assms by (auto simp: reply_laws_def)

lemma question_lawsD [simp]:
  assumes "question_laws L"
  shows "Question (SetQuestion L i m n t) = [\<lparr>qName = n, Qtype = t, Qclass = ClassINET\<rparr>]"
    "MsgId (SetQuestion L i m n t) = i"
    "Response (SetQuestion L i m n t) = Response m"
    "Opcode (SetQuestion L i m n t) = Opcode m"
    "Answer (SetQuestion L i m n t) = Answer m"
    "Question (SetEdns0 L m u d) = Question m"
  using assms by (auto simp: question_laws_def)

lemma rr_typed_iff [simp]:
  "rr_typed (RR_A h a)"
  "rr_typed (RR_CNAME h t) \<longleftrightarrow> Rrtype h \<noteq> TypeA"
  "rr_typed (RR_NS h n) \<longleftrightarrow> Rrtype h \<noteq> TypeA"
  by (auto simp: rr_typed_def)

end
