(* ===== verification/Go_Net.thy ===== *)
theory Go_Net
  imports Dns_Message
begin

text \<open>
  Addresses as package \<open>net\<close> reads and prints them.  \<open>ParseIPv4\<close> is \<open>net.ParseIP\<close> on text
  without a colon: four decimal fields below 256 without leading zeros.
\<close>

fun split_on :: "char \<Rightarrow> string \<Rightarrow> string list" where
  "split_on c [] = [[]]"
| "split_on c (x # xs) =
     (if x = c then [] # split_on c xs
      else (case split_on c xs of [] \<Rightarrow> [[x]] | y # ys \<Rightarrow> (x # y) # ys))"

definition digit_val :: "char \<Rightarrow> nat" where
  "digit_val c = of_char c - 48"

definition digits_val :: "string \<Rightarrow> nat" where
  "digits_val s = fold (\<lambda>c v. v * 10 + digit_val c) s 0"

definition parse_octet :: "string \<Rightarrow> u8 option" where
  "parse_octet s =
     (if s = [] \<or> \<not> list_all is_digit s \<or> (1 < length s \<and> hd s = CHR ''0'') \<or> 255 < digits_val s
      then None else Some (of_nat (digits_val s)))"

definition ParseIPv4 :: "string \<Rightarrow> ipv4 option" where
  "ParseIPv4 s =
     (case map parse_octet (split_on CHR ''.'' s) of
        [Some a, Some b, Some c, Some d] \<Rightarrow> Some (a, b, c, d)
      | _ \<Rightarrow> None)"

section \<open>Printing and parsing\<close>

lemma split_on_no_sep: "c \<notin> set s \<Longrightarrow> split_on c s = [s]"
  by (induction s) auto

lemma split_on_sep: "c \<notin> set s \<Longrightarrow> split_on c (s @ c # t) = s # split_on c t"
  by (induction s) auto

lemma dot_not_digits: "CHR ''.'' \<notin> set (nat_digits n)"
  using nat_digits_digits [of "CHR ''.''" n] by (auto simp: is_digit_def)

lemma digits_val_append: "digits_val (s @ [c]) = digits_val s * 10 + digit_val c"
  by (simp add: digits_val_def)

lemma digits_val_nat_digits [simp]: "digits_val (nat_digits n) = n"
proof (induction n rule: nat_digits.induct)
  case (1 n)
  show ?case
  proof (cases "n < 10")
    case True
    then show ?thesis
      by (simp add: nat_digits.simps [of n] digits_val_def digit_val_def of_digit_char)
  next
    case False
    then show ?thesis using "1.IH"
      by (simp add: nat_digits.simps [of n] digits_val_append digit_val_def of_digit_char)
  qed
qed

lemma hd_nat_digits: "0 < n \<Longrightarrow> hd (nat_digits n) \<noteq> CHR ''0''"
proof (induction n rule: nat_digits.induct)
  case (1 n)
  have z: "CHR ''0'' = digit_char 0" by code_simp
  show ?case
  proof (cases "n < 10")
    case True
    with "1.prems" show ?thesis
      by (simp add: nat_digits.simps [of n] z digit_char_inject)
  next
    case False
    with "1.IH" show ?thesis by (simp add: nat_digits.simps [of n])
  qed
qed

lemma nat_digits_single: "n < 10 \<Longrightarrow> length (nat_digits n) = 1"
  by (simp add: nat_digits.simps)

lemma parse_octet_nat_digits: "parse_octet (nat_digits (unat (w :: u8))) = Some w"
proof -
  have "unat w < 256" using unsigned_less [of w, where ?'a = nat] by simp
  moreover have "list_all is_digit (nat_digits (unat w))"
    using nat_digits_digits by (auto simp: list_all_iff)
  moreover have "1 < length (nat_digits (unat w)) \<Longrightarrow> hd (nat_digits (unat w)) \<noteq> CHR ''0''"
    using hd_nat_digits [of "unat w"] nat_digits_single [of 0] by (cases "unat w = 0") auto
  ultimately show ?thesis by (auto simp: parse_octet_def)
qed

lemma ParseIPv4_String: "ParseIPv4 (IP_String (Some a)) = Some a"
proof (cases a)
  case (fields a1 a2 a3 a4)
  then show ?thesis
    by (simp add: ParseIPv4_def split_on_sep split_on_no_sep dot_not_digits parse_octet_nat_digits)
qed

lemma ParseIPv4_nil: "ParseIPv4 (IP_String None) = None"
  by (simp add: ParseIPv4_def parse_octet_def is_digit_def)

lemma IP_String_inject: "IP_String x = IP_String y \<longleftrightarrow> x = y"
  by (metis ParseIPv4_String ParseIPv4_nil option.exhaust option.distinct(1) option.inject)

end
