(* ===== verification/Zone_Util.thy ===== *)
theory Zone_Util
  imports Go_Net
begin

text \<open>
  Package \<open>utils\<close>: the list of zones a name belongs to (src/utils/zone.go) and the built-in
  root delegation (src/utils/root.go).  A test override of the root delegation is the
  argument \<open>ovr\<close>.
\<close>

section \<open>Zones of a name\<close>

text \<open>The loop of \<open>GetZoneList\<close>: \<open>zl\<close> is the list built so far.\<close>

function zone_loop :: "string \<Rightarrow> string list \<Rightarrow> string list" where
  "zone_loop domain zl =
     (if length domain = 0 then zl
      else let idx = strings_Index domain ''.'' in
        if idx = - 1 then zl
        else let domain' = drop (nat (idx + 1)) domain in zone_loop domain' (zl @ [domain']))"
  by pat_completeness auto

lemma index_from_cases:
  "index_from i s [c] = - 1 \<and> c \<notin> set s
   \<or> (\<exists>p t. s = p @ c # t \<and> c \<notin> set p \<and> index_from i s [c] = int (i + length p))"
proof (induction s arbitrary: i)
  case Nil
  then show ?case by simp
next
  case (Cons x s)
  show ?case
  proof (cases "x = c")
    case True
    then show ?thesis by (intro disjI2 exI [of _ "[]"] exI [of _ s]) simp
  next
    case False
    from Cons.IH [of "Suc i"] show ?thesis
    proof (elim disjE exE conjE)
      assume "index_from (Suc i) s [c] = - 1" "c \<notin> set s"
      with False show ?thesis by simp
    next
      fix p t assume "s = p @ c # t" "c \<notin> set p" "index_from (Suc i) s [c] = int (Suc i + length p)"
      with False show ?thesis by (intro disjI2 exI [of _ "x # p"] exI [of _ t]) simp
    qed
  qed
qed

lemma Index_char_cases:
  obtains (none) "strings_Index s [c] = - 1" "c \<notin> set s"
  | (some) p t where "s = p @ c # t" "c \<notin> set p" "strings_Index s [c] = int (length p)"
  using index_from_cases [of 0 s c] by (auto simp: strings_Index_def)

termination zone_loop
proof (relation "measure (length \<circ> fst)", simp, goal_cases)
  case (1 domain zl idx domain')
  then show ?case by (cases domain) (cases rule: Index_char_cases [of domain "CHR ''.''"]; auto)+
qed

declare zone_loop.simps [simp del]

definition GetZoneList :: "string \<Rightarrow> string list" where
  "GetZoneList domain = zone_loop domain [domain]"

section \<open>The root delegation\<close>

definition rootGlueHeader :: RR_Header where
  "rootGlueHeader = \<lparr>Name = ''.'', Rrtype = TypeNS, Class = ClassINET, Ttl = 0\<rparr>"

definition rootServers :: "(string \<times> string) list" where
  "rootServers =
    [(''a.root-servers.net.'', ''198.41.0.4''),
     (''b.root-servers.net.'', ''199.9.14.201''),
     (''c.root-servers.net.'', ''192.33.4.12''),
     (''d.root-servers.net.'', ''199.7.91.13''),
     (''e.root-servers.net.'', ''192.203.230.10''),
     (''f.root-servers.net.'', ''192.5.5.241''),
     (''g.root-servers.net.'', ''192.112.36.4''),
     (''h.root-servers.net.'', ''198.97.190.53''),
     (''i.root-servers.net.'', ''192.36.148.17''),
     (''j.root-servers.net.'', ''192.58.128.30''),
     (''k.root-servers.net.'', ''193.0.14.129''),
     (''l.root-servers.net.'', ''199.7.83.42''),
     (''m.root-servers.net.'', ''202.12.27.33'')]"

definition rootNs :: "RR list" where
  "rootNs = map (\<lambda>(n, _). RR_NS rootGlueHeader n) rootServers"

definition rootExtra :: "RR list" where
  "rootExtra = map (\<lambda>(n, ip). RR_A \<lparr>Name = n, Rrtype = TypeA, Class = ClassINET, Ttl = 0\<rparr> (ParseIPv4 ip)) rootServers"

definition GetRootGlue :: "dnslib \<Rightarrow> Msg option \<Rightarrow> Msg" where
  "GetRootGlue L ovr =
     (case ovr of
        Some m \<Rightarrow> MsgCopy L m
      | None \<Rightarrow> (SetUpdate L newMsg ''.'')\<lparr>Ns := rootNs, Extra := rootExtra\<rparr>)"

definition ExtractRootIPs :: "dnslib \<Rightarrow> Msg option \<Rightarrow> string set" where
  "ExtractRootIPs L ovr =
     set (map (\<lambda>rr. IP_String (A_addr rr))
       (filter (\<lambda>rr. is_RR_A rr \<and> A_addr rr \<noteq> None) (Extra (GetRootGlue L ovr))))"

section \<open>Properties of the zone list\<close>

text \<open>The reference: the name itself, then what follows each of its dots.\<close>

fun after_dots :: "string \<Rightarrow> string list" where
  "after_dots [] = []"
| "after_dots (c # s) = (if c = CHR ''.'' then s # after_dots s else after_dots s)"

lemma after_dots_skip: "CHR ''.'' \<notin> set p \<Longrightarrow> after_dots (p @ s) = after_dots s"
  by (induction p) auto

lemma zone_loop_after_dots: "zone_loop d zl = zl @ after_dots d"
proof (induction d zl rule: zone_loop.induct)
  case (1 d zl)
  show ?case
  proof (cases d rule: Index_char_cases [of _ "CHR ''.''"])
    case none
    then show ?thesis using after_dots_skip [of d "[]"] by (subst zone_loop.simps) simp
  next
    case (some p t)
    have "nat (int (length p) + 1) = Suc (length p)" by simp
    with some have "zone_loop t (zl @ [t]) = (zl @ [t]) @ after_dots t"
      using "1.IH" [OF _ refl _ refl] by simp
    with some show ?thesis by (subst zone_loop.simps) (simp add: after_dots_skip nat_add_distrib)
  qed
qed

lemma set_after_dots: "z \<in> set (after_dots d) \<longleftrightarrow> (\<exists>p. d = p @ CHR ''.'' # z)"
proof (induction d)
  case Nil
  then show ?case by simp
next
  case (Cons c s)
  show ?case
  proof
    assume "z \<in> set (after_dots (c # s))"
    then show "\<exists>p. c # s = p @ CHR ''.'' # z"
      using Cons.IH by (auto split: if_splits intro: exI [of _ "[]"] exI [of _ "c # p" for p])
  next
    assume "\<exists>p. c # s = p @ CHR ''.'' # z"
    then obtain p where "c # s = p @ CHR ''.'' # z" ..
    then show "z \<in> set (after_dots (c # s))" using Cons.IH by (cases p) auto
  qed
qed

lemma after_dots_shorter: "z \<in> set (after_dots d) \<Longrightarrow> length z < length d"
  by (auto simp: set_after_dots)

lemma sorted_after_dots: "sorted_wrt (\<lambda>a b. length b < length a) (after_dots d)"
  by (induction d) (auto simp: after_dots_shorter)

text \<open>
  The zone list is complete and ordered: it holds exactly the name itself and every suffix
  that starts right after one of its dots, from the longest to the shortest without repetition.
\<close>

lemma zone_list_exact:
  "set (GetZoneList d) = insert d {z. \<exists>p. d = p @ CHR ''.'' # z}
   \<and> sorted_wrt (\<lambda>a b. length b < length a) (GetZoneList d) \<and> hd (GetZoneList d) = d"
  using sorted_after_dots [of d] after_dots_shorter
  by (auto simp: GetZoneList_def zone_loop_after_dots set_after_dots)

lemma root_ips: "map (\<lambda>x. IP_String (ParseIPv4 (snd x))) rootServers = map snd rootServers"
  "list_all (\<lambda>x. ParseIPv4 (snd x) \<noteq> None) rootServers"
  "distinct (map snd rootServers)" "distinct (map fst rootServers)" "length rootServers = 13"
  by code_simp+

text \<open>
  The built-in root delegation is complete: thirteen distinct name servers, each with exactly
  one glue address in the same position, and \<open>ExtractRootIPs\<close> returns thirteen addresses, the
  ones written in the source.
\<close>

lemma root_glue_complete:
  "map NS_Ns (Ns (GetRootGlue L None)) = map (\<lambda>rr. Name (Header rr)) (Extra (GetRootGlue L None))
   \<and> distinct (map NS_Ns (Ns (GetRootGlue L None)))
   \<and> ExtractRootIPs L None = set (map snd rootServers) \<and> card (ExtractRootIPs L None) = 13"
proof -
  have f: "filter (\<lambda>rr. is_RR_A rr \<and> A_addr rr \<noteq> None) rootExtra = rootExtra"
    using root_ips(2) by (auto simp: rootExtra_def filter_id_conv list_all_iff)
  have "map (\<lambda>rr. IP_String (A_addr rr)) rootExtra = map snd rootServers"
    using root_ips(1) by (simp add: rootExtra_def comp_def case_prod_beta)
  moreover have "Extra (GetRootGlue L None) = rootExtra" by (simp add: GetRootGlue_def)
  ultimately have e: "ExtractRootIPs L None = set (map snd rootServers)"
    unfolding ExtractRootIPs_def by (simp only: f)
  have n: "map NS_Ns rootNs = map fst rootServers" "map (\<lambda>rr. Name (Header rr)) rootExtra = map fst rootServers"
    by (simp_all add: rootNs_def rootExtra_def comp_def case_prod_beta)
  show ?thesis
    using e n root_ips(3-5) distinct_card [of "map snd rootServers"] by (simp add: GetRootGlue_def)
qed

end
