(* ===== verification/Go_Float.thy ===== *)
theory Go_Float
  imports Go_Prelude "HOL-Library.Log_Nat"
begin

text \<open>
  The \<open>float64\<close> arithmetic of the program: a value is the rational it denotes, and every
  operation rounds its exact result to 53 significant bits, ties to even.  All values of the
  program lie far inside the exponent range (latencies, percentages, durations below
  \<open>2 ^ 63\<close> and their quotients), so overflow and subnormal numbers are left out.
\<close>

section \<open>Rounding\<close>

definition floor_log2 :: "rat \<Rightarrow> int" where
  "floor_log2 x = (if 1 \<le> x then bitlen \<lfloor>x\<rfloor> - 1 else - bitlen (\<lceil>1 / x\<rceil> - 1))"

definition round_half_even :: "rat \<Rightarrow> int" where
  "round_half_even y =
     (let f = \<lfloor>y\<rfloor>; d = y - of_int f
      in if d < 1 / 2 then f else if d > 1 / 2 then f + 1 else if even f then f else f + 1)"

definition fl_pos :: "rat \<Rightarrow> rat" where
  "fl_pos x = (let q = floor_log2 x - 52 in of_int (round_half_even (x / power_int 2 q)) * power_int 2 q)"

definition fl :: "rat \<Rightarrow> rat" where
  "fl x = (if x = 0 then 0 else if 0 < x then fl_pos x else - fl_pos (- x))"

definition f_mul :: "rat \<Rightarrow> rat \<Rightarrow> rat" where "f_mul a b = fl (a * b)"
definition f_add :: "rat \<Rightarrow> rat \<Rightarrow> rat" where "f_add a b = fl (a + b)"
definition f_div :: "rat \<Rightarrow> rat \<Rightarrow> rat" where "f_div a b = fl (a / b)"

text \<open>\<open>float64(n)\<close> and the conversion back, which truncates.\<close>

definition f_of_int :: "int \<Rightarrow> rat" where "f_of_int n = fl (of_int n)"
definition int_of_f :: "rat \<Rightarrow> int" where "int_of_f x = (if 0 \<le> x then \<lfloor>x\<rfloor> else \<lceil>x\<rceil>)"

section \<open>Properties of the rounding\<close>

lemma floor_log2_bounds:
  assumes "0 < x"
  shows "power_int 2 (floor_log2 x) \<le> x" and "x < power_int 2 (floor_log2 x + 1)"
proof -
  have "power_int 2 (floor_log2 x) \<le> x \<and> x < power_int 2 (floor_log2 x + 1)"
  proof (cases "1 \<le> x")
    case True
    then have n: "1 \<le> \<lfloor>x\<rfloor>" by simp
    define k where "k = nat (bitlen \<lfloor>x\<rfloor> - 1)"
    have b: "bitlen \<lfloor>x\<rfloor> = int k + 1" using n bitlen_ge_iff_power [of 1 "\<lfloor>x\<rfloor>"] by (simp add: k_def)
    have "2 ^ k \<le> \<lfloor>x\<rfloor>" "\<lfloor>x\<rfloor> < 2 ^ (k + 1)"
      using bitlen_bounds [of "\<lfloor>x\<rfloor>"] n b by (simp_all add: nat_add_distrib)
    then have "(2::rat) ^ k \<le> x" "x < 2 ^ (k + 1)"
      by (metis le_floor_iff of_int_numeral of_int_power, metis floor_less_iff of_int_numeral of_int_power)
    moreover have "floor_log2 x = int k" using True b by (simp add: floor_log2_def)
    ultimately show ?thesis
      by (simp add: power_int_add)
  next
    case False
    define n where "n = \<lceil>1 / x\<rceil> - 1"
    from False assms have "1 < 1 / x" by simp
    then have n: "1 \<le> n" by (simp add: n_def)
    define k where "k = nat (bitlen n - 1)"
    have b: "bitlen n = int k + 1" using n bitlen_ge_iff_power [of 1 n] by (simp add: k_def)
    have "2 ^ k \<le> n" "n < 2 ^ (k + 1)"
      using bitlen_bounds [of n] n b by (simp_all add: nat_add_distrib)
    then have "2 ^ k < \<lceil>1 / x\<rceil>" "\<lceil>1 / x\<rceil> \<le> 2 ^ (k + 1)" by (simp_all add: n_def)
    then have "(2::rat) ^ k < 1 / x" "1 / x \<le> 2 ^ (k + 1)"
      by (metis less_ceiling_iff of_int_numeral of_int_power, metis ceiling_le_iff of_int_numeral of_int_power)
    then have x: "x < 1 / 2 ^ k" "1 / 2 ^ (k + 1) \<le> x" using assms by (simp_all add: field_simps)
    have e: "floor_log2 x = - int (k + 1)" using False b by (simp add: floor_log2_def n_def)
    then have e1: "floor_log2 x + 1 = - int k" by simp
    show ?thesis unfolding e1 using x
      unfolding e by (simp only: power_int_minus power_int_of_nat inverse_eq_divide)
  qed
  then show "power_int 2 (floor_log2 x) \<le> x" and "x < power_int 2 (floor_log2 x + 1)" by auto
qed

lemma floor_log2_mono: "0 < x \<Longrightarrow> x \<le> y \<Longrightarrow> floor_log2 x \<le> floor_log2 y"
proof (rule ccontr)
  assume a: "0 < x" "x \<le> y" and "\<not> floor_log2 x \<le> floor_log2 y"
  then have "(power_int 2 (floor_log2 y + 1) :: rat) \<le> power_int 2 (floor_log2 x)"
    by (intro power_int_increasing) auto
  with floor_log2_bounds(1) [of x] floor_log2_bounds(2) [of y] a show False by linarith
qed

lemma round_half_even_of_int [simp]: "round_half_even (of_int n) = n"
  by (simp add: round_half_even_def)

lemma round_half_even_mono:
  assumes "x \<le> y"
  shows "round_half_even x \<le> round_half_even y"
proof (cases "\<lfloor>x\<rfloor> = \<lfloor>y\<rfloor>")
  case True
  with assms show ?thesis by (auto simp: round_half_even_def Let_def)
next
  case False
  then have "\<lfloor>x\<rfloor> + 1 \<le> \<lfloor>y\<rfloor>" using floor_mono [OF assms] by linarith
  moreover have "round_half_even x \<le> \<lfloor>x\<rfloor> + 1" and "\<lfloor>y\<rfloor> \<le> round_half_even y"
    by (simp_all add: round_half_even_def Let_def)
  ultimately show ?thesis by linarith
qed

lemma fl_pos_scaled:
  assumes "0 < x"
  defines "q \<equiv> floor_log2 x - 52"
  shows "2 ^ 52 \<le> x / power_int 2 q" and "x / power_int 2 q < 2 ^ 53"
proof -
  have 1: "power_int 2 (floor_log2 x) = 2 ^ 52 * (power_int 2 q :: rat)"
    and 2: "power_int 2 (floor_log2 x + 1) = 2 ^ 53 * (power_int 2 q :: rat)"
    by (simp_all add: q_def power_int_diff power_int_add)
  show "2 ^ 52 \<le> x / power_int 2 q" "x / power_int 2 q < 2 ^ 53"
    using floor_log2_bounds [OF assms(1)] unfolding 1 2
    by (simp_all add: field_simps)
qed

lemma fl_pos_bounds:
  assumes "0 < x"
  defines "q \<equiv> floor_log2 x - 52"
  shows "2 ^ 52 * power_int 2 q \<le> fl_pos x" and "fl_pos x \<le> 2 ^ 53 * power_int 2 q"
proof -
  note s = fl_pos_scaled [OF assms(1), folded q_def]
  have "round_half_even (of_int (2 ^ 52)) \<le> round_half_even (x / power_int 2 q)"
    using s(1) by (intro round_half_even_mono) simp
  then have l: "(2::int) ^ 52 \<le> round_half_even (x / power_int 2 q)"
    by (simp only: round_half_even_of_int)
  have "round_half_even (x / power_int 2 q) \<le> round_half_even (of_int (2 ^ 53))"
    using s(2) by (intro round_half_even_mono) simp
  then have u: "round_half_even (x / power_int 2 q) \<le> (2::int) ^ 53"
    by (simp only: round_half_even_of_int)
  have f: "fl_pos x = of_int (round_half_even (x / power_int 2 q)) * power_int 2 q"
    by (simp add: fl_pos_def q_def Let_def)
  have "(of_int (2 ^ 52) :: rat) \<le> of_int (round_half_even (x / power_int 2 q))"
    using l by (simp only: of_int_le_iff)
  then show "2 ^ 52 * power_int 2 q \<le> fl_pos x" unfolding f by (intro mult_right_mono) auto
  have "(of_int (round_half_even (x / power_int 2 q)) :: rat) \<le> of_int (2 ^ 53)"
    using u by (simp only: of_int_le_iff)
  then show "fl_pos x \<le> 2 ^ 53 * power_int 2 q" unfolding f by (intro mult_right_mono) auto
qed

lemma fl_pos_gt_0: "0 < x \<Longrightarrow> 0 < fl_pos x"
  by (rule less_le_trans [OF _ fl_pos_bounds(1)]) auto

lemma fl_pos_mono:
  assumes "0 < x" "x \<le> y"
  shows "fl_pos x \<le> fl_pos y"
proof (cases "floor_log2 x = floor_log2 y")
  case True
  have "round_half_even (x / power_int 2 (floor_log2 y - 52)) \<le> round_half_even (y / power_int 2 (floor_log2 y - 52))"
    using assms by (intro round_half_even_mono divide_right_mono) auto
  then show ?thesis unfolding fl_pos_def Let_def True by (intro mult_right_mono) auto
next
  case False
  with floor_log2_mono [OF assms] have "floor_log2 x - 52 + 1 \<le> floor_log2 y - 52" by simp
  then have "(power_int 2 (floor_log2 x - 52 + 1) :: rat) \<le> power_int 2 (floor_log2 y - 52)"
    by (intro power_int_increasing) auto
  then have "2 ^ 53 * power_int 2 (floor_log2 x - 52) \<le> 2 ^ 52 * (power_int 2 (floor_log2 y - 52) :: rat)"
    by (simp add: power_int_add power_int_diff)
  with fl_pos_bounds(2) [of x] fl_pos_bounds(1) [of y] assms show ?thesis by linarith
qed

lemma fl_0 [simp]: "fl 0 = 0" by (simp add: fl_def)

lemma fl_mono: "x \<le> y \<Longrightarrow> fl x \<le> fl y"
  using fl_pos_gt_0 [of "- x"] fl_pos_gt_0 [of y]
  by (auto simp: fl_def not_less intro: fl_pos_mono less_imp_le)

lemma fl_nonneg: "0 \<le> x \<Longrightarrow> 0 \<le> fl x"
  using fl_mono [of 0 x] by simp

lemma fl_pos_int:
  assumes "0 < n" "n < 2 ^ 53"
  shows "fl_pos (of_int n) = of_int n"
proof -
  define q where "q = floor_log2 (of_int n) - 52"
  have "power_int 2 (floor_log2 (of_int n)) \<le> (of_int n :: rat)"
    using assms by (intro floor_log2_bounds(1)) simp
  also have "\<dots> < of_int (2 ^ 53)" using assms(2) by (simp only: of_int_less_iff)
  finally have "(power_int 2 (floor_log2 (of_int n)) :: rat) < power_int 2 53" by simp
  then have "floor_log2 (of_int n) < 53"
    by (metis linorder_not_less one_le_numeral power_int_increasing)
  then have q: "q = - int (nat (- q))" by (simp add: q_def)
  define k where "k = nat (- q)"
  have q: "q = - int k" using q by (simp add: k_def)
  have "of_int n / power_int 2 q = (of_int (n * 2 ^ k) :: rat)"
    by (simp add: q power_int_minus divide_inverse)
  then have "round_half_even (of_int n / power_int 2 q) = n * 2 ^ k"
    by (simp only: round_half_even_of_int)
  then show ?thesis
    by (simp add: fl_pos_def Let_def q_def [symmetric] q power_int_minus)
qed

lemma fl_of_int: "\<bar>n\<bar> < 2 ^ 53 \<Longrightarrow> fl (of_int n) = of_int n"
  using fl_pos_int [of n] fl_pos_int [of "- n"] by (auto simp: fl_def)

lemma f_of_int_small [simp]: "\<bar>n\<bar> < 2 ^ 53 \<Longrightarrow> f_of_int n = of_int n"
  by (simp add: f_of_int_def fl_of_int)

lemma int_of_f_mono: "x \<le> y \<Longrightarrow> int_of_f x \<le> int_of_f y"
  unfolding int_of_f_def by (auto simp: floor_mono ceiling_mono order_trans [OF _ iffD2 [OF zero_le_floor]])

lemma int_le_fl: "\<bar>n\<bar> < 2 ^ 53 \<Longrightarrow> of_int n \<le> x \<Longrightarrow> of_int n \<le> fl x"
  using fl_mono [of "of_int n" x] by (simp add: fl_of_int)

lemma fl_le_int: "\<bar>n\<bar> < 2 ^ 53 \<Longrightarrow> x \<le> of_int n \<Longrightarrow> fl x \<le> of_int n"
  using fl_mono [of x "of_int n"] by (simp add: fl_of_int)

lemma f_mul_mono: "0 \<le> a \<Longrightarrow> a \<le> a' \<Longrightarrow> 0 \<le> b \<Longrightarrow> b \<le> b' \<Longrightarrow> f_mul a b \<le> f_mul a' b'"
  unfolding f_mul_def by (intro fl_mono mult_mono) auto

lemma f_mul_nonneg: "0 \<le> a \<Longrightarrow> 0 \<le> b \<Longrightarrow> 0 \<le> f_mul a b"
  unfolding f_mul_def by (intro fl_nonneg) simp

end
