(* ===== verification/Metrics.thy ===== *)
theory Metrics
  imports Go_Float
begin

text \<open>
  Package \<open>monitor\<close> as the resolver sees it (src/monitor/metric.go and
  src/monitor/state_machine_transition.go).  A call of a method of \<open>Metric\<close> is an event; an
  operation that reports metrics returns the events it reports, in order.  The counters
  themselves belong to the Prometheus client.  \<open>when_on on es\<close> are the events behind a check
  that \<open>Rec53Metric\<close> is not nil.
\<close>

datatype metric_event =
    InCounterAdd string string
  | OutCounterAdd string string string
  | LatencyHistogramObserve string string string
  | CacheLookupAdd string
  | CacheEntriesSet int
  | CacheLifecycleAdd string int
  | IPQualityV2GaugeSet string int int int
  | SnapshotOperationAdd string string
  | SnapshotEntriesAdd string string int
  | SnapshotDurationObserve string string
  | UpstreamFailureAdd string string
  | UpstreamFallbackAdd string
  | UpstreamWinnerAdd string
  | UpstreamGateEventAdd string string
  | UpstreamGateInFlightSet int
  | UpstreamGateLimitSet int
  | XDPSyncErrorAdd string
  | XDPCleanupDeletedAdd int
  | XDPEntriesSet int
  | StateMachineStageAdd string
  | StateMachineFailureAdd string
  | StateMachineTransitionAdd string string
  | ExpensiveRequestLimitAdd string string
  | HotZoneEventAdd string
  | HotZoneObserveModeSet bool
  | HotZoneProtectedSet bool
  | HotZoneAvgExpensiveConcurrencySet rat
  | HotZoneBaselineConcurrencySet rat
  | HotZoneCandidateStreakSet int

definition when_on :: "bool \<Rightarrow> metric_event list \<Rightarrow> metric_event list" where
  "when_on on es = (if on then es else [])"

definition StateMachineCanonicalStates :: "string list" where
  "StateMachineCanonicalStates =
     [''state_init'', ''hosts_lookup'', ''forward_lookup'', ''cache_lookup'', ''classify_resp'',
      ''extract_glue'', ''lookup_ns_cache'', ''query_upstream'', ''return_resp'', ''unknown'']"

definition StateMachineCanonicalTerminals :: "string list" where
  "StateMachineCanonicalTerminals =
     [''success_exit'', ''formerr_exit'', ''servfail_exit'', ''refused_exit'', ''error_exit'',
      ''max_iterations_exit'']"

lemma when_on_simps [simp]: "when_on True es = es" "when_on False es = []"
  by (simp_all add: when_on_def)

end
