(* ===== verification/Contracts.thy ===== *)
theory Contracts
  imports Go_Prelude
begin

text \<open>
  The contracts that several components of rec53 promise, as locales: a gate that counts the
  slots it has given out, and a log that is silent for an interval after each line and counts
  what it kept back.  The components interpret them on their own operations.
\<close>

section \<open>A gate with a fixed number of slots\<close>

datatype ('x, 'y) gate_op = Acquire 'x | Free 'y

locale slot_gate =
  fixes acquire :: "'x \<Rightarrow> 's \<Rightarrow> bool \<times> 's"
    and free :: "'y \<Rightarrow> 's \<Rightarrow> 's"
    and used :: "'s \<Rightarrow> int"
    and cap :: "'s \<Rightarrow> int"
    and ok :: "'s \<Rightarrow> bool"
  assumes acquire_granted: "ok s \<Longrightarrow> fst (acquire x s) \<longleftrightarrow> used s < cap s"
    and acquire_used: "ok s \<Longrightarrow> used (snd (acquire x s)) = used s + (if used s < cap s then 1 else 0)"
    and acquire_cap: "ok s \<Longrightarrow> cap (snd (acquire x s)) = cap s"
    and acquire_ok: "ok s \<Longrightarrow> ok (snd (acquire x s))"
    and free_used: "ok s \<Longrightarrow> used (free y s) = max 0 (used s - 1)"
    and free_cap: "ok s \<Longrightarrow> cap (free y s) = cap s"
    and free_ok: "ok s \<Longrightarrow> ok (free y s)"
    and used_nonneg: "ok s \<Longrightarrow> 0 \<le> used s"
begin

primrec step :: "('x, 'y) gate_op \<Rightarrow> 's \<Rightarrow> 's" where
  "step (Acquire x) s = snd (acquire x s)"
| "step (Free y) s = free y s"

lemma step_ok: "ok s \<Longrightarrow> ok (step oper s)"
  by (cases oper) (simp_all add: acquire_ok free_ok)

lemma step_bound:
  assumes "ok s" "used s \<le> cap s"
  shows "used (step oper s) \<le> cap (step oper s)"
  using assms used_nonneg [of s]
  by (cases oper) (auto simp: acquire_used acquire_cap free_used free_cap)

lemma run_ok: "ok s \<Longrightarrow> ok (fold step ops s)"
  by (induction ops arbitrary: s) (auto intro: step_ok)

lemma run_bound:
  "ok s \<Longrightarrow> used s \<le> cap s \<Longrightarrow> used (fold step ops s) \<le> cap (fold step ops s)"
  by (induction ops arbitrary: s) (auto intro: step_ok step_bound)

lemma run_cap: "ok s \<Longrightarrow> cap (fold step ops s) = cap s"
proof (induction ops arbitrary: s)
  case (Cons oper ops)
  have "cap (step oper s) = cap s"
    using Cons.prems by (cases oper) (simp_all add: acquire_cap free_cap)
  with Cons show ?case by (simp add: step_ok)
qed simp

lemma acquire_free:
  assumes "ok s" "fst (acquire x s)"
  shows "used (free y (snd (acquire x s))) = used s"
  using assms used_nonneg [OF assms(1)]
  by (simp add: free_used acquire_ok acquire_used acquire_granted)

end

section \<open>A rate-limited log\<close>

text \<open>A run of events at the given times: what each one printed, and the final state.\<close>

fun log_run :: "(int \<Rightarrow> 's \<Rightarrow> int option \<times> 's) \<Rightarrow> int list \<Rightarrow> 's \<Rightarrow> int option list \<times> 's" where
  "log_run emit [] s = ([], s)"
| "log_run emit (now # ts) s = (let (o1, s1) = emit now s; (os, s2) = log_run emit ts s1 in (o1 # os, s2))"

text \<open>What a run accounts for: each printed line stands for itself and the lines it reports.\<close>

definition log_reported :: "int option list \<Rightarrow> int" where
  "log_reported os = sum_list (map (\<lambda>r. case r of None \<Rightarrow> 0 | Some n \<Rightarrow> n + 1) os)"

locale rate_log =
  fixes emit :: "int \<Rightarrow> 's \<Rightarrow> int option \<times> 's"  \<comment> \<open>the suppressed count it prints, if it prints\<close>
    and last :: "'s \<Rightarrow> int option"
    and pending :: "'s \<Rightarrow> int"
    and interval :: int
  assumes emit_due: "last s = None \<or> interval \<le> now - the (last s) \<Longrightarrow>
      fst (emit now s) = Some (pending s) \<and> last (snd (emit now s)) = Some now \<and> pending (snd (emit now s)) = 0"
    and emit_quiet: "last s = Some t \<Longrightarrow> now - t < interval \<Longrightarrow>
      fst (emit now s) = None \<and> last (snd (emit now s)) = Some t \<and> pending (snd (emit now s)) = pending s + 1"
begin

lemma emit_cases:
  obtains (due) s' where "emit now s = (Some (pending s), s')" "last s' = Some now" "pending s' = 0"
      "last s = None \<or> interval \<le> now - the (last s)"
  | (quiet) s' t where "emit now s = (None, s')" "last s = Some t" "now - t < interval"
      "last s' = Some t" "pending s' = pending s + 1"
proof (cases "last s = None \<or> interval \<le> now - the (last s)")
  case True
  from emit_due [OF this] show thesis
    using due [of "snd (emit now s)"] True by (metis prod.collapse)
next
  case False
  then obtain t where "last s = Some t" "now - t < interval" by auto
  from emit_quiet [OF this] this show thesis
    using quiet [of "snd (emit now s)" t] by (metis prod.collapse)
qed

lemma run_accounts: "log_run emit ts s = (os, s') \<Longrightarrow> log_reported os + pending s' = pending s + int (length ts)"
proof (induction ts arbitrary: s os s')
  case Nil
  then show ?case by (simp add: log_reported_def)
next
  case (Cons now ts)
  obtain o1 s1 where e: "emit now s = (o1, s1)" by fastforce
  obtain os2 s2 where r: "log_run emit ts s1 = (os2, s2)" by fastforce
  from Cons.prems e r have os: "os = o1 # os2" "s' = s2" by auto
  from Cons.IH [OF r] have IH: "log_reported os2 + pending s2 = pending s1 + int (length ts)" .
  show ?case using e
  proof (cases rule: emit_cases [of now s])
    case (due s'')
    with e os IH show ?thesis by (auto simp: log_reported_def)
  next
    case (quiet s'' t)
    with e os IH show ?thesis by (auto simp: log_reported_def)
  qed
qed

lemma emit_spacing:
  assumes "emit t1 s = (Some n1, s1)" "emit t2 s1 = (Some n2, s2)"
  shows "interval \<le> t2 - t1"
proof -
  have "last s1 = Some t1" using assms(1) by (cases rule: emit_cases [of t1 s]) auto
  then show ?thesis using assms(2) by (cases rule: emit_cases [of t2 s1]) auto
qed

end

end
