(* ===== verification/Upstream_Gate.thy ===== *)
theory Upstream_Gate
  imports Metrics Contracts
begin

text \<open>
  The global limit on concurrent upstream exchanges (src/server/upstream_concurrency_gate.go).
  The gate is the package variable \<open>globalUpstreamGate\<close>, which is never nil, so the nil-receiver
  guards have no branch here.  A method holds the mutex from its first read to its last write,
  so it is one step; the arguments \<open>on\<close> (\<open>Rec53Metric\<close> is not nil), \<open>now\<close> (the clock) and
  \<open>numCPU\<close> (\<open>runtime.NumCPU()\<close>) are what it reads from outside.
\<close>

section \<open>Data\<close>

datatype upstreamGatePath =
    upstreamGatePathForward | upstreamGatePathIterative | upstreamGatePathHappyEyeballs
  | upstreamGatePathNSResolution | upstreamGatePathIterativeRetry

text \<open>The zero \<open>time.Time\<close> is None.\<close>

record upstreamGateLogState =
  gateLastLogAt :: "int option"
  gateSuppressedCount :: int

record upstreamGateEvent =
  ev_action :: string
  ev_path :: upstreamGatePath
  ev_qname :: string
  ev_inflight :: int
  ev_limit :: int
  ev_shouldLog :: bool
  ev_suppressedCount :: int

record upstreamConcurrencyGate =
  gateLimit :: int
  gateInflight :: int
  gateLogStates :: "string \<rightharpoonup> upstreamGateLogState"

abbreviation (input) "second \<equiv> (1000000000 :: int)"

definition upstreamGateLogInterval :: int where
  "upstreamGateLogInterval = 30 * second"

section \<open>Operations\<close>

fun gate_metricLabel :: "upstreamGatePath \<Rightarrow> string" where
  "gate_metricLabel upstreamGatePathForward = ''forward''"
| "gate_metricLabel upstreamGatePathIterative = ''iterative''"
| "gate_metricLabel upstreamGatePathHappyEyeballs = ''happy_eyeballs''"
| "gate_metricLabel upstreamGatePathNSResolution = ''ns_resolution''"
| "gate_metricLabel upstreamGatePathIterativeRetry = ''iterative_retry''"

definition normalizeUpstreamConcurrencyLimit :: "int \<Rightarrow> int \<Rightarrow> int" where
  "normalizeUpstreamConcurrencyLimit numCPU lmt =
     (let lmt = (if lmt \<le> 0 then numCPU else lmt) in if lmt < 1 then 1 else lmt)"

definition gate_setLimit :: "bool \<Rightarrow> int \<Rightarrow> int \<Rightarrow> upstreamConcurrencyGate \<Rightarrow> upstreamConcurrencyGate \<times> metric_event list" where
  "gate_setLimit on numCPU lmt g =
     (let lmt = normalizeUpstreamConcurrencyLimit numCPU lmt
      in (g\<lparr>gateLimit := lmt\<rparr>, when_on on [UpstreamGateLimitSet lmt]))"

definition newUpstreamConcurrencyGate :: "bool \<Rightarrow> int \<Rightarrow> int \<Rightarrow> upstreamConcurrencyGate \<times> metric_event list" where
  "newUpstreamConcurrencyGate on numCPU lmt =
     gate_setLimit on numCPU lmt \<lparr>gateLimit = 0, gateInflight = 0, gateLogStates = Map.empty\<rparr>"

definition gate_reset :: "bool \<Rightarrow> int \<Rightarrow> int \<Rightarrow> upstreamConcurrencyGate \<Rightarrow> upstreamConcurrencyGate \<times> metric_event list" where
  "gate_reset on numCPU lmt g =
     (let lmt = normalizeUpstreamConcurrencyLimit numCPU lmt
      in (g\<lparr>gateLimit := lmt, gateInflight := 0, gateLogStates := Map.empty\<rparr>,
          when_on on [UpstreamGateInFlightSet 0, UpstreamGateLimitSet lmt]))"

definition gate_log_key :: "string \<Rightarrow> upstreamGatePath \<Rightarrow> string" where
  "gate_log_key action path = action @ ''|'' @ gate_metricLabel path"

definition buildEventLocked ::
  "int \<Rightarrow> string \<Rightarrow> upstreamGatePath \<Rightarrow> string \<Rightarrow> upstreamConcurrencyGate \<Rightarrow> upstreamGateEvent \<times> upstreamConcurrencyGate"
where
  "buildEventLocked now action path qname g =
     (let key = gate_log_key action path;
          state = (case gateLogStates g key of
              None \<Rightarrow> \<lparr>gateLastLogAt = None, gateSuppressedCount = 0\<rparr> | Some st \<Rightarrow> st);
          event = \<lparr>ev_action = action, ev_path = path, ev_qname = qname, ev_inflight = gateInflight g,
              ev_limit = gateLimit g, ev_shouldLog = False, ev_suppressedCount = 0\<rparr>
      in if gateLastLogAt state = None \<or> upstreamGateLogInterval \<le> now - the (gateLastLogAt state)
         then (event\<lparr>ev_shouldLog := True, ev_suppressedCount := gateSuppressedCount state\<rparr>,
               g\<lparr>gateLogStates := (gateLogStates g)(key \<mapsto> \<lparr>gateLastLogAt = Some now, gateSuppressedCount = 0\<rparr>)\<rparr>)
         else (event,
               g\<lparr>gateLogStates := (gateLogStates g)(key \<mapsto>
                   state\<lparr>gateSuppressedCount := gateSuppressedCount state + 1\<rparr>)\<rparr>))"

definition recordUpstreamGateEvent :: "bool \<Rightarrow> upstreamGateEvent \<Rightarrow> metric_event list" where
  "recordUpstreamGateEvent on event =
     (if ev_action event = [] then []
      else when_on on [UpstreamGateEventAdd (ev_action event) (gate_metricLabel (ev_path event))])"

definition gate_tryAcquire ::
  "bool \<Rightarrow> int \<Rightarrow> upstreamGatePath \<Rightarrow> string \<Rightarrow> upstreamConcurrencyGate \<Rightarrow> bool \<times> upstreamConcurrencyGate \<times> metric_event list"
where
  "gate_tryAcquire on now path qname g =
     (if gateLimit g \<le> gateInflight g
      then let (event, g') = buildEventLocked now ''saturated'' path qname g
           in (False, g', recordUpstreamGateEvent on event)
      else let g' = g\<lparr>gateInflight := gateInflight g + 1\<rparr>
           in (True, g', when_on on [UpstreamGateInFlightSet (gateInflight g'), UpstreamGateLimitSet (gateLimit g')]))"

definition gate_release :: "bool \<Rightarrow> upstreamConcurrencyGate \<Rightarrow> upstreamConcurrencyGate \<times> metric_event list" where
  "gate_release on g =
     (let g' = (if 0 < gateInflight g then g\<lparr>gateInflight := gateInflight g - 1\<rparr> else g)
      in (g', when_on on [UpstreamGateInFlightSet (gateInflight g'), UpstreamGateLimitSet (gateLimit g')]))"

definition shouldDegradeFanout :: "upstreamConcurrencyGate \<Rightarrow> bool" where
  "shouldDegradeFanout g = (if gateLimit g \<le> 1 then True else gateLimit g - 1 \<le> gateInflight g)"

definition recordDegraded ::
  "bool \<Rightarrow> int \<Rightarrow> upstreamGatePath \<Rightarrow> string \<Rightarrow> string \<Rightarrow> upstreamConcurrencyGate \<Rightarrow> upstreamConcurrencyGate \<times> metric_event list"
where
  "recordDegraded on now path action qname g =
     (let (event, g') = buildEventLocked now action path qname g
      in (g', recordUpstreamGateEvent on event))"

definition gate_wf :: "upstreamConcurrencyGate \<Rightarrow> bool" where
  "gate_wf g \<longleftrightarrow> 1 \<le> gateLimit g \<and> 0 \<le> gateInflight g"

section \<open>Lemmas\<close>

lemma buildEventLocked_frame [frame, simp]:
  "gateLimit (snd (buildEventLocked now a p q g)) = gateLimit g"
  "gateInflight (snd (buildEventLocked now a p q g)) = gateInflight g"
  by (simp_all add: buildEventLocked_def Let_def)

lemma gate_tryAcquire_frame [frame, simp]:
  "fst (gate_tryAcquire on now p q g) \<longleftrightarrow> gateInflight g < gateLimit g"
  "gateLimit (fst (snd (gate_tryAcquire on now p q g))) = gateLimit g"
  "gateInflight (fst (snd (gate_tryAcquire on now p q g))) =
     gateInflight g + (if gateInflight g < gateLimit g then 1 else 0)"
  by (simp_all add: gate_tryAcquire_def case_prod_beta Let_def)

lemma gate_release_frame [frame, simp]:
  "gateLimit (fst (gate_release on g)) = gateLimit g"
  "gateInflight (fst (gate_release on g)) = (if 0 < gateInflight g then gateInflight g - 1 else gateInflight g)"
  by (simp_all add: gate_release_def)

lemma recordDegraded_frame [frame, simp]:
  "gateLimit (fst (recordDegraded on now p a q g)) = gateLimit g"
  "gateInflight (fst (recordDegraded on now p a q g)) = gateInflight g"
  by (simp_all add: recordDegraded_def case_prod_beta)

lemma gate_setLimit_wf [keeps]: "0 \<le> gateInflight g \<Longrightarrow> gate_wf (fst (gate_setLimit on n lmt g))"
  by (simp add: gate_setLimit_def gate_wf_def normalizeUpstreamConcurrencyLimit_def Let_def)

definition gate_acquire :: "bool \<times> int \<times> upstreamGatePath \<times> string \<Rightarrow> upstreamConcurrencyGate \<Rightarrow> bool \<times> upstreamConcurrencyGate" where
  "gate_acquire x g = (case x of (on, now, p, q) \<Rightarrow> case gate_tryAcquire on now p q g of (r, g', _) \<Rightarrow> (r, g'))"

lemma gate_acquire_simps:
  "fst (gate_acquire x g) \<longleftrightarrow> gateInflight g < gateLimit g"
  "gateInflight (snd (gate_acquire x g)) = gateInflight g + (if gateInflight g < gateLimit g then 1 else 0)"
  "gateLimit (snd (gate_acquire x g)) = gateLimit g"
  by (cases x; simp add: gate_acquire_def case_prod_beta)+

interpretation upgate: slot_gate gate_acquire "\<lambda>on g. fst (gate_release on g)" gateInflight gateLimit gate_wf
  by unfold_locales (simp_all add: gate_acquire_simps gate_wf_def)

text \<open>The log state of one key of the gate, and one emission for that key.\<close>

definition gate_log_last :: "string \<Rightarrow> upstreamConcurrencyGate \<Rightarrow> int option" where
  "gate_log_last key g = (case gateLogStates g key of None \<Rightarrow> None | Some st \<Rightarrow> gateLastLogAt st)"

definition gate_log_pending :: "string \<Rightarrow> upstreamConcurrencyGate \<Rightarrow> int" where
  "gate_log_pending key g = (case gateLogStates g key of None \<Rightarrow> 0 | Some st \<Rightarrow> gateSuppressedCount st)"

definition gate_emit :: "string \<Rightarrow> upstreamGatePath \<Rightarrow> string \<Rightarrow> int \<Rightarrow> upstreamConcurrencyGate \<Rightarrow> int option \<times> upstreamConcurrencyGate" where
  "gate_emit action path qname now g =
     (let (e, g') = buildEventLocked now action path qname g
      in (if ev_shouldLog e then Some (ev_suppressedCount e) else None, g'))"

interpretation gatelog: rate_log "gate_emit a p q" "gate_log_last (gate_log_key a p)"
    "gate_log_pending (gate_log_key a p)" upstreamGateLogInterval for a p q
  by unfold_locales
    (simp_all add: gate_emit_def buildEventLocked_def gate_log_last_def gate_log_pending_def Let_def
      split: option.splits)

section \<open>Interleavings\<close>

text \<open>
  The protocol of every caller: a query holds a slot after \<open>tryAcquire\<close> said yes and gives it back
  with exactly one \<open>release\<close>.  \<open>gate_reach on n lmt g H\<close>: the gate of limit \<open>lmt\<close> can be in state
  \<open>g\<close> while the queries in \<open>H\<close> hold a slot, after any interleaving of the calls.
\<close>

inductive gate_reach :: "bool \<Rightarrow> int \<Rightarrow> int \<Rightarrow> upstreamConcurrencyGate \<Rightarrow> nat set \<Rightarrow> bool" for on n lmt where
  start: "gate_reach on n lmt (fst (newUpstreamConcurrencyGate on n lmt)) {}"
| grant: "gate_reach on n lmt g H \<Longrightarrow> c \<notin> H \<Longrightarrow> gate_tryAcquire on now p q g = (True, g', es) \<Longrightarrow>
    gate_reach on n lmt g' (insert c H)"
| refuse: "gate_reach on n lmt g H \<Longrightarrow> gate_tryAcquire on now p q g = (False, g', es) \<Longrightarrow> gate_reach on n lmt g' H"
| finish: "gate_reach on n lmt g H \<Longrightarrow> c \<in> H \<Longrightarrow> gate_release on g = (g', es) \<Longrightarrow> gate_reach on n lmt g' (H - {c})"
| degrade: "gate_reach on n lmt g H \<Longrightarrow> recordDegraded on now p a q g = (g', es) \<Longrightarrow> gate_reach on n lmt g' H"

lemma gate_reach_inv:
  "gate_reach on n lmt g H \<Longrightarrow> finite H \<and> gateInflight g = int (card H)
     \<and> gateInflight g \<le> gateLimit g \<and> gateLimit g = normalizeUpstreamConcurrencyLimit n lmt"
proof (induction rule: gate_reach.induct)
  case start
  show ?case by (simp add: newUpstreamConcurrencyGate_def gate_setLimit_def normalizeUpstreamConcurrencyLimit_def Let_def)
next
  case (grant g H c now p q g' es)
  then show ?case using gate_tryAcquire_frame [of on now p q g] by (auto split: if_splits)
next
  case (refuse g H now p q g' es)
  then show ?case using gate_tryAcquire_frame [of on now p q g] by (auto split: if_splits)
next
  case (finish g H c g' es)
  then have "0 < card H" by (auto simp: card_gt_0_iff)
  with finish show ?case using gate_release_frame [of on g] by (auto simp: of_nat_diff)
next
  case (degrade g H now p a q g' es)
  then show ?case using recordDegraded_frame [of on now p a q g] by auto
qed

section \<open>Properties\<close>

text \<open>
  C6. The upstream gate counts exactly and never over-admits: after any interleaving of queries
  that acquire, are refused, degrade and release, the in-flight counter equals the number of
  queries that hold a slot, and it never exceeds the limit, which is at least one.
\<close>

theorem gate_counts_holders:
  assumes "gate_reach on n lmt g H"
  shows "gateInflight g = int (card H) \<and> int (card H) \<le> gateLimit g \<and> 1 \<le> gateLimit g
    \<and> (fst (gate_tryAcquire on now p q g) \<longleftrightarrow> int (card H) < gateLimit g)"
  using gate_reach_inv [OF assms] by (simp add: normalizeUpstreamConcurrencyLimit_def Let_def)

theorem gate_counts_holders_witness:
  "\<exists>g. gate_reach True 4 1 g {7} \<and> gateInflight g = 1 \<and> \<not> fst (gate_tryAcquire True 0 upstreamGatePathForward [] g)"
proof -
  obtain g es where a: "gate_tryAcquire True 0 upstreamGatePathForward [] (fst (newUpstreamConcurrencyGate True 4 1)) = (True, g, es)"
    by (simp add: gate_tryAcquire_def newUpstreamConcurrencyGate_def gate_setLimit_def normalizeUpstreamConcurrencyLimit_def)
  then have r: "gate_reach True 4 1 g {7}" using gate_reach.grant [OF gate_reach.start _ a, of 7] by simp
  moreover have "gateLimit g = 1" using gate_reach_inv [OF r] by (simp add: normalizeUpstreamConcurrencyLimit_def)
  ultimately show ?thesis using gate_counts_holders [OF r, of 0 upstreamGatePathForward "[]"] by auto
qed

text \<open>
  The gate's rate-limited log loses nothing: over any run of events of one key, the printed
  lines together with the suppressed counts they report and the count still pending add up to the
  number of events.
\<close>

lemma gate_log_accounts:
  "log_reported (fst (log_run (gate_emit a p q) ts g)) + gate_log_pending (gate_log_key a p) (snd (log_run (gate_emit a p q) ts g))
     = gate_log_pending (gate_log_key a p) g + int (length ts)"
  by (rule gatelog.run_accounts) simp

end
