(* ===== verification/IP_Quality.thy ===== *)
theory IP_Quality
  imports Go_Float
begin

text \<open>
  The quality record of one upstream address (src/server/ip_pool_quality_v2.go): a ring buffer
  of the last 64 round-trip times with percentiles, a confidence level and a failure counter.
  Each method runs under the record's mutex, so it is one step; \<open>now\<close> is the clock it reads.
  The \<open>uint8\<close> fields keep their width, because the counters do wrap.
\<close>

section \<open>Data\<close>

abbreviation (input) "IP_STATE_ACTIVE \<equiv> (0 :: u8)"
abbreviation (input) "IP_STATE_DEGRADED \<equiv> (1 :: u8)"
abbreviation (input) "IP_STATE_SUSPECT \<equiv> (2 :: u8)"
abbreviation (input) "IP_STATE_RECOVERED \<equiv> (3 :: u8)"
abbreviation (input) "INIT_IP_LATENCY \<equiv> (1000 :: int)"
abbreviation (input) "MAX_IP_LATENCY \<equiv> (10000 :: int)"

record IPQualityV2 =
  samples :: "int list"
  sampleCount :: u8
  nextIdx :: u8
  p50 :: int
  p95 :: int
  p99 :: int
  confidence :: u8
  failCount :: u8
  ipState :: u8
  lastUpdate :: int
  lastFailure :: "int option"
  lastSeen :: int

section \<open>Operations\<close>

definition NewIPQualityV2 :: "int \<Rightarrow> IPQualityV2" where
  "NewIPQualityV2 now =
     \<lparr>samples = replicate 64 0, sampleCount = 0, nextIdx = 0,
      p50 = INIT_IP_LATENCY, p95 = INIT_IP_LATENCY, p99 = INIT_IP_LATENCY,
      confidence = 0, failCount = 0, ipState = IP_STATE_ACTIVE,
      lastUpdate = now, lastFailure = None, lastSeen = now\<rparr>"

definition percentile_index :: "rat \<Rightarrow> int \<Rightarrow> nat" where
  "percentile_index q n =
     (let idx = int_of_f (f_mul (f_of_int n) q) in nat (if n \<le> idx then n - 1 else idx))"

definition updatePercentiles :: "IPQualityV2 \<Rightarrow> IPQualityV2" where
  "updatePercentiles iq =
     (if sampleCount iq = 0 then iq
      else let n = uint (sampleCount iq);
               sorted = sort (take (unat (sampleCount iq)) (samples iq))
           in iq\<lparr>p50 := sorted ! unat (sampleCount iq div 2),
                 p95 := sorted ! percentile_index (fl (95 / 100)) n,
                 p99 := sorted ! percentile_index (fl (99 / 100)) n\<rparr>)"

definition RecordLatency :: "int \<Rightarrow> int \<Rightarrow> IPQualityV2 \<Rightarrow> IPQualityV2" where
  "RecordLatency now latency iq =
     (let iq = iq\<lparr>samples := (samples iq)[unat (nextIdx iq) := latency]\<rparr>;
          iq = iq\<lparr>nextIdx := (nextIdx iq + 1) mod 64\<rparr>;
          iq = (if sampleCount iq < 64 then iq\<lparr>sampleCount := sampleCount iq + 1\<rparr> else iq);
          iq = iq\<lparr>confidence := word_of_int (uint (sampleCount iq) * 10)\<rparr>;
          iq = (if 100 < confidence iq then iq\<lparr>confidence := 100\<rparr> else iq);
          iq = iq\<lparr>failCount := 0, ipState := IP_STATE_ACTIVE\<rparr>;
          iq = updatePercentiles iq
      in iq\<lparr>lastUpdate := now, lastSeen := now\<rparr>)"

definition RecordFailure :: "int \<Rightarrow> IPQualityV2 \<Rightarrow> IPQualityV2" where
  "RecordFailure now iq =
     (let iq = iq\<lparr>failCount := failCount iq + 1, lastFailure := Some now, lastSeen := now\<rparr>
      in if failCount iq \<le> 3
         then let p = int32 (int_of_f (f_mul (f_of_int (p50 iq)) (fl (12 / 10))))
              in iq\<lparr>ipState := IP_STATE_DEGRADED, p50 := (if MAX_IP_LATENCY < p then MAX_IP_LATENCY else p)\<rparr>
         else if failCount iq \<le> 6
         then iq\<lparr>ipState := IP_STATE_SUSPECT, p50 := MAX_IP_LATENCY, p95 := MAX_IP_LATENCY, p99 := MAX_IP_LATENCY\<rparr>
         else iq\<lparr>ipState := IP_STATE_SUSPECT\<rparr>)"

definition ResetForProbe :: "int \<Rightarrow> IPQualityV2 \<Rightarrow> IPQualityV2" where
  "ResetForProbe now iq = iq\<lparr>failCount := 0, ipState := IP_STATE_RECOVERED, lastUpdate := now\<rparr>"

definition ShouldProbe :: "int \<Rightarrow> IPQualityV2 \<Rightarrow> bool" where
  "ShouldProbe now iq =
     (if ipState iq \<noteq> IP_STATE_SUSPECT then False
      else if lastFailure iq \<noteq> None \<and> now - the (lastFailure iq) < 5 * 1000000000 then False
      else True)"

definition GetP50Latency :: "IPQualityV2 \<Rightarrow> int" where
  "GetP50Latency iq = p50 iq"

definition GetP95Latency :: "IPQualityV2 \<Rightarrow> int" where
  "GetP95Latency iq = p95 iq"

definition GetP99Latency :: "IPQualityV2 \<Rightarrow> int" where
  "GetP99Latency iq = p99 iq"

definition GetState :: "IPQualityV2 \<Rightarrow> u8" where
  "GetState iq = ipState iq"

definition GetConfidence :: "IPQualityV2 \<Rightarrow> u8" where
  "GetConfidence iq = confidence iq"

definition GetLastSeen :: "IPQualityV2 \<Rightarrow> int" where
  "GetLastSeen iq = lastSeen iq"

definition stateWeights :: "rat list" where
  "stateWeights = [fl 1, fl (15 / 10), fl 100, fl (11 / 10)]"

definition GetScore :: "IPQualityV2 \<Rightarrow> rat" where
  "GetScore iq =
     (let score = f_of_int (p50 iq);
          confidenceMult = f_add (fl 1) (f_mul (f_of_int (uint (100 - confidence iq))) (fl (1 / 100)));
          score = f_mul score confidenceMult;
          stateIdx = (if of_nat (length stateWeights) \<le> ipState iq then IP_STATE_ACTIVE else ipState iq)
      in f_mul score (stateWeights ! unat stateIdx))"

section \<open>Well-formedness\<close>

definition iq_wf :: "IPQualityV2 \<Rightarrow> bool" where
  "iq_wf iq \<longleftrightarrow> length (samples iq) = 64 \<and> unat (sampleCount iq) \<le> 64 \<and> unat (nextIdx iq) < 64
     \<and> unat (confidence iq) \<le> 100 \<and> unat (ipState iq) \<le> 3"

text \<open>The samples the percentiles are computed from.\<close>

definition window :: "IPQualityV2 \<Rightarrow> int list" where
  "window iq = take (unat (sampleCount iq)) (samples iq)"

section \<open>Lemmas\<close>

lemma updatePercentiles_frame [simp]:
  "samples (updatePercentiles iq) = samples iq"
  "sampleCount (updatePercentiles iq) = sampleCount iq"
  "nextIdx (updatePercentiles iq) = nextIdx iq"
  "confidence (updatePercentiles iq) = confidence iq"
  "failCount (updatePercentiles iq) = failCount iq"
  "ipState (updatePercentiles iq) = ipState iq"
  by (simp_all add: updatePercentiles_def Let_def)

lemma RecordLatency_simps [simp]:
  "samples (RecordLatency now l iq) = (samples iq)[unat (nextIdx iq) := l]"
  "nextIdx (RecordLatency now l iq) = (nextIdx iq + 1) mod 64"
  "sampleCount (RecordLatency now l iq) = (if sampleCount iq < 64 then sampleCount iq + 1 else sampleCount iq)"
  "failCount (RecordLatency now l iq) = 0"
  "ipState (RecordLatency now l iq) = IP_STATE_ACTIVE"
  by (simp_all add: RecordLatency_def Let_def)

lemma word8_less_64: "(x :: u8) < 64 \<longleftrightarrow> unat x < 64"
  by (simp add: word_less_nat_alt)

lemma unat_Suc_small: "unat (x :: u8) < 64 \<Longrightarrow> unat (x + 1) = unat x + 1"
  by (subst unat_add_lem [THEN iffD1]) auto

lemma unat_mod_64: "unat ((x :: u8) mod 64) = unat x mod 64"
  by (simp add: unat_mod)

lemma unat_sampleCount_RecordLatency:
  "unat (sampleCount iq) \<le> 64 \<Longrightarrow> unat (sampleCount (RecordLatency now l iq)) = min 64 (unat (sampleCount iq) + 1)"
  by (auto simp: word8_less_64 unat_Suc_small min_def)

lemma unat_nextIdx_RecordLatency:
  "unat (nextIdx iq) < 64 \<Longrightarrow> unat (nextIdx (RecordLatency now l iq)) = (unat (nextIdx iq) + 1) mod 64"
  by (simp add: unat_mod_64 unat_Suc_small)

lemma confidence_RecordLatency:
  "confidence (RecordLatency now l iq) =
     (let c = word_of_int (uint (sampleCount (RecordLatency now l iq)) * 10) in if 100 < c then 100 else c)"
  by (simp add: RecordLatency_def Let_def)

lemma RecordLatency_wf [keeps]: "iq_wf iq \<Longrightarrow> iq_wf (RecordLatency now l iq)"
proof -
  assume wf: "iq_wf iq"
  have "unat (confidence (RecordLatency now l iq)) \<le> 100"
    unfolding confidence_RecordLatency Let_def by (auto simp: word_less_nat_alt not_less)
  with wf show ?thesis
    using unat_sampleCount_RecordLatency [of iq now l] unat_nextIdx_RecordLatency [of iq now l]
    by (simp add: iq_wf_def)
qed

lemma fl_half: "fl (1 / 2) = 1 / 2"
  by code_simp

lemma fl_95_99: "1 / 2 \<le> fl (95 / 100)" "fl (95 / 100) \<le> fl (99 / 100)" "fl (99 / 100) \<le> 1"
  using fl_mono [of "1 / 2" "95 / 100"] fl_mono [of "95 / 100" "99 / 100"] fl_le_int [of 1 "99 / 100"]
  by (simp_all add: fl_half)

lemma percentile_index_less: "0 < n \<Longrightarrow> percentile_index q n < nat n"
  by (simp add: percentile_index_def Let_def)

lemma percentile_index_mono:
  assumes "0 < n" "n \<le> 64" "0 \<le> q" "q \<le> r"
  shows "percentile_index q n \<le> percentile_index r n"
proof -
  have "int_of_f (f_mul (of_int n) q) \<le> int_of_f (f_mul (of_int n) r)"
    using assms by (intro int_of_f_mono f_mul_mono) auto
  with assms show ?thesis by (auto simp: percentile_index_def Let_def intro: nat_mono)
qed

lemma percentile_index_half:
  assumes "0 < n" "n \<le> 64" "1 / 2 \<le> q"
  shows "nat (n div 2) \<le> percentile_index q n"
proof -
  have "2 * (n div 2) \<le> n" by simp
  then have "(of_int (2 * (n div 2)) :: rat) \<le> of_int n" by (simp only: of_int_le_iff)
  then have "(of_int (n div 2) :: rat) \<le> of_int n * (1 / 2)" by simp
  also have "\<dots> \<le> of_int n * q" using assms by (intro mult_left_mono) auto
  finally have "of_int (n div 2) \<le> f_mul (of_int n) q"
    using assms unfolding f_mul_def by (intro int_le_fl) auto
  then have "n div 2 \<le> int_of_f (f_mul (of_int n) q)"
    using assms by (auto simp: int_of_f_def le_floor_iff pos_imp_zdiv_nonneg_iff)
  with assms show ?thesis by (auto simp: percentile_index_def Let_def)
qed

lemma uint_nat: "uint (x :: u8) = int (unat x)"
  by simp

lemma updatePercentiles_sorted:
  assumes "0 < unat (sampleCount iq)" "unat (sampleCount iq) \<le> length (samples iq)" "unat (sampleCount iq) \<le> 64"
  defines "s \<equiv> sort (window iq)"
  shows "p50 (updatePercentiles iq) = s ! (length s div 2)"
    and "p50 (updatePercentiles iq) \<le> p95 (updatePercentiles iq)"
    and "p95 (updatePercentiles iq) \<le> p99 (updatePercentiles iq)"
    and "p99 (updatePercentiles iq) \<in> set s"
proof -
  define n where "n = unat (sampleCount iq)"
  have n: "0 < n" "n \<le> length (samples iq)" "n \<le> 64" "unat (sampleCount iq) = n" "uint (sampleCount iq) = int n"
    using assms by (simp_all add: n_def)
  have len: "length s = n" using n by (simp add: s_def window_def)
  have d2: "unat (sampleCount iq div 2) = n div 2" using n by (simp add: unat_div)
  define i95 i99 where "i95 = percentile_index (fl (95 / 100)) (int n)" and "i99 = percentile_index (fl (99 / 100)) (int n)"
  have ii: "n div 2 \<le> i95" "i95 \<le> i99" "i99 < n"
    using percentile_index_half [of "int n" "fl (95 / 100)"] percentile_index_less [of "int n" "fl (99 / 100)"]
      percentile_index_mono [of "int n" "fl (95 / 100)" "fl (99 / 100)"] fl_95_99 n
    by (simp_all add: i95_def i99_def nat_div_distrib)
  have "sampleCount iq \<noteq> 0" using assms(1) by auto
  then have eq: "p50 (updatePercentiles iq) = s ! (n div 2)" "p95 (updatePercentiles iq) = s ! i95"
    "p99 (updatePercentiles iq) = s ! i99"
    using n by (simp_all add: updatePercentiles_def Let_def s_def window_def d2 i95_def i99_def)
  have "sorted s" by (simp add: s_def)
  with ii len show "p50 (updatePercentiles iq) \<le> p95 (updatePercentiles iq)"
    "p95 (updatePercentiles iq) \<le> p99 (updatePercentiles iq)"
    unfolding eq by (auto intro: sorted_nth_mono)
  show "p50 (updatePercentiles iq) = s ! (length s div 2)" by (simp add: eq len)
  show "p99 (updatePercentiles iq) \<in> set s" unfolding eq using ii len by simp
qed

text \<open>The percentiles are up to date after every success.\<close>

lemma RecordLatency_up_to_date:
  assumes "sampleCount (RecordLatency now l iq) \<noteq> 0"
  defines "r \<equiv> RecordLatency now l iq"
  shows "p50 r = p50 (updatePercentiles r)" "p95 r = p95 (updatePercentiles r)" "p99 r = p99 (updatePercentiles r)"
proof -
  obtain x where r: "r = (updatePercentiles x)\<lparr>lastUpdate := now, lastSeen := now\<rparr>"
    unfolding r_def RecordLatency_def Let_def by blast
  have "sampleCount x \<noteq> 0" using assms(1) unfolding r_def [symmetric] r by simp
  then show "p50 r = p50 (updatePercentiles r)" "p95 r = p95 (updatePercentiles r)" "p99 r = p99 (updatePercentiles r)"
    unfolding r by (simp_all add: updatePercentiles_def Let_def)
qed

lemma RecordLatency_percentiles:
  fixes now l
  assumes "iq_wf iq"
  defines "r \<equiv> RecordLatency now l iq"
  shows "p50 r = sort (window r) ! (length (window r) div 2)" "p50 r \<le> p95 r" "p95 r \<le> p99 r" "p99 r \<in> set (window r)"
proof -
  have c: "unat (sampleCount r) = min 64 (unat (sampleCount iq) + 1)"
    using assms unat_sampleCount_RecordLatency by (simp add: iq_wf_def)
  have l: "length (samples r) = 64" using assms by (simp add: iq_wf_def)
  have n0: "sampleCount (RecordLatency now l iq) \<noteq> 0" using c unfolding r_def [symmetric] by auto
  note u = RecordLatency_up_to_date [OF n0, folded r_def]
  note v = updatePercentiles_sorted [of r]
  show "p50 r = sort (window r) ! (length (window r) div 2)" "p50 r \<le> p95 r" "p95 r \<le> p99 r" "p99 r \<in> set (window r)"
    using v c l unfolding u [symmetric] by simp_all
qed

subsection \<open>The ring buffer holds the last 64 latencies\<close>

definition record_all :: "(int \<times> int) list \<Rightarrow> IPQualityV2 \<Rightarrow> IPQualityV2" where
  "record_all ts iq = fold (\<lambda>(now, l). RecordLatency now l) ts iq"

lemma record_all_snoc: "record_all (ts @ [(now, l)]) iq = RecordLatency now l (record_all ts iq)"
  by (simp add: record_all_def)

lemma record_all_wf [keeps]: "iq_wf iq \<Longrightarrow> iq_wf (record_all ts iq)"
  by (induction ts rule: rev_induct) (auto simp: record_all_snoc RecordLatency_wf, simp add: record_all_def)

lemma NewIPQualityV2_wf [keeps]: "iq_wf (NewIPQualityV2 now)"
  by (simp add: iq_wf_def NewIPQualityV2_def)

lemma record_all_ring:
  fixes ts t0
  defines "iq \<equiv> record_all ts (NewIPQualityV2 t0)"
  shows "unat (sampleCount iq) = min 64 (length ts) \<and> unat (nextIdx iq) = length ts mod 64 \<and>
    (\<forall>k < length ts. length ts \<le> k + 64 \<longrightarrow> samples iq ! (k mod 64) = snd (ts ! k))"
  unfolding iq_def
proof (induction ts rule: rev_induct)
  case Nil
  show ?case by (simp add: record_all_def NewIPQualityV2_def)
next
  case (snoc x ts)
  obtain now l where x: "x = (now, l)" by fastforce
  define iq where "iq = record_all ts (NewIPQualityV2 t0)"
  define n where "n = length ts"
  have wf: "iq_wf iq" unfolding iq_def by (intro keeps)
  from snoc have IH: "unat (sampleCount iq) = min 64 n" "unat (nextIdx iq) = n mod 64"
    "\<And>k. k < n \<Longrightarrow> n \<le> k + 64 \<Longrightarrow> samples iq ! (k mod 64) = snd (ts ! k)"
    by (simp_all add: iq_def n_def)
  have len: "length (samples iq) = 64" using wf by (simp add: iq_wf_def)
  have "(samples iq)[n mod 64 := l] ! (k mod 64) = snd ((ts @ [x]) ! k)" if "k < Suc n" "Suc n \<le> k + 64" for k
  proof (cases "k = n")
    case True
    then show ?thesis using len by (simp add: x n_def)
  next
    case False
    with that have "0 < n - k" "n - k < 64" by auto
    then have "\<not> 64 dvd n - k" by (auto dest: dvd_imp_le)
    then have "n mod 64 \<noteq> k mod 64" using that by (simp add: mod_eq_dvd_iff_nat)
    with False that IH(3) [of k] show ?thesis by (simp add: nth_append n_def)
  qed
  with IH wf show ?case
    by (simp add: record_all_snoc x iq_def [symmetric] n_def [symmetric] unat_sampleCount_RecordLatency
        unat_nextIdx_RecordLatency iq_wf_def mod_Suc_eq del: RecordLatency_simps(2,3))
qed

lemma record_all_window:
  "mset (window (record_all ts (NewIPQualityV2 t0))) = mset (map snd (drop (length ts - 64) ts))"
proof -
  define iq where "iq = record_all ts (NewIPQualityV2 t0)"
  define n where "n = length ts"
  have len: "length (samples iq) = 64"
    using record_all_wf [OF NewIPQualityV2_wf] by (simp add: iq_def iq_wf_def)
  have ring: "unat (sampleCount iq) = min 64 n"
    "\<And>k. k < n \<Longrightarrow> n \<le> k + 64 \<Longrightarrow> samples iq ! (k mod 64) = snd (ts ! k)"
    using record_all_ring [of ts t0] by (simp_all add: iq_def n_def)
  show ?thesis
  proof (cases "n < 64")
    case True
    have "window iq = map snd ts"
    proof (rule nth_equalityI)
      fix k assume "k < length (window iq)"
      then have "k < n" using True len by (simp add: window_def ring(1))
      with ring(2) [of k] True show "window iq ! k = map snd ts ! k"
        by (simp add: window_def ring(1) n_def)
    qed (use True len in \<open>simp add: window_def ring(1) n_def\<close>)
    then show ?thesis using True by (simp add: iq_def [symmetric] n_def)
  next
    case False
    have "rotate n (samples iq) = map snd (drop (n - 64) ts)"
    proof (rule nth_equalityI)
      fix j assume "j < length (rotate n (samples iq))"
      then have j: "j < 64" using len by simp
      have "(n - 64 + j) mod 64 = (n + j) mod 64"
        using False mod_add_self2 [of "n - 64 + j" 64] by simp
      then show "rotate n (samples iq) ! j = map snd (drop (n - 64) ts) ! j"
        using ring(2) [of "n - 64 + j"] j False len by (simp add: nth_rotate n_def)
    qed (use len False in \<open>simp add: n_def\<close>)
    moreover have "window iq = samples iq" using len False by (simp add: window_def ring(1))
    ultimately have "mset (map snd (drop (n - 64) ts)) = mset (window iq)"
      using mset_rotate [of n "samples iq"] by simp
    then show ?thesis by (simp add: iq_def n_def)
  qed
qed

subsection \<open>Consecutive failures\<close>

definition fail_all :: "int list \<Rightarrow> IPQualityV2 \<Rightarrow> IPQualityV2" where
  "fail_all ts iq = fold RecordFailure ts iq"

lemma fail_all_snoc: "fail_all (ts @ [t]) iq = RecordFailure t (fail_all ts iq)"
  by (simp add: fail_all_def)

lemma failCount_RecordFailure [simp]: "failCount (RecordFailure t iq) = failCount iq + 1"
  by (simp add: RecordFailure_def Let_def)

lemma failCount_fail_all: "failCount (fail_all ts iq) = failCount iq + of_nat (length ts)"
  by (induction ts rule: rev_induct) (simp_all add: fail_all_snoc, simp add: fail_all_def)

lemma RecordFailure_state:
  "ipState (RecordFailure t iq) = (if failCount iq + 1 \<le> 3 then IP_STATE_DEGRADED else IP_STATE_SUSPECT)"
  by (simp add: RecordFailure_def Let_def)

lemma RecordFailure_wf [keeps]: "iq_wf iq \<Longrightarrow> iq_wf (RecordFailure t iq)"
  by (simp add: iq_wf_def RecordFailure_def Let_def)

lemma ResetForProbe_wf [keeps]: "iq_wf iq \<Longrightarrow> iq_wf (ResetForProbe t iq)"
  by (simp add: iq_wf_def ResetForProbe_def)

lemma fail_all_state:
  assumes "failCount iq = 0" "0 < length ts"
  shows "ipState (fail_all ts iq) =
    (if (of_nat (length ts) :: u8) \<le> 3 then IP_STATE_DEGRADED else IP_STATE_SUSPECT)"
proof -
  obtain t ts' where ts: "ts = ts' @ [t]" using assms(2) by (cases ts rule: rev_cases) auto
  then show ?thesis using assms(1)
    by (simp add: fail_all_snoc RecordFailure_state failCount_fail_all add.commute)
qed

lemma u8_le_3: "n < 256 \<Longrightarrow> (of_nat n :: u8) \<le> 3 \<longleftrightarrow> n \<le> 3"
  by (simp add: word_le_nat_alt unat_of_nat)

lemma fail_all_p50:
  assumes "failCount iq = 0" "4 \<le> length ts" "length ts < 256"
  shows "p50 (fail_all ts iq) = MAX_IP_LATENCY"
  using assms(2,3)
proof (induction ts rule: rev_induct)
  case (snoc t ts)
  have c: "failCount (fail_all ts iq) + 1 = of_nat (Suc (length ts))"
    by (simp add: failCount_fail_all assms(1))
  have "\<not> (of_nat (Suc (length ts)) :: u8) \<le> 3"
    using snoc.prems u8_le_3 [of "Suc (length ts)"] by simp
  moreover have "(of_nat (Suc (length ts)) :: u8) \<le> 6 \<or> p50 (fail_all ts iq) = MAX_IP_LATENCY"
    using snoc by (cases "length ts = 3") auto
  ultimately show ?case
    by (auto simp: fail_all_snoc RecordFailure_def Let_def c [unfolded add.commute [of _ 1]] c)
qed simp

subsection \<open>Scores\<close>

definition confidenceMult :: "u8 \<Rightarrow> rat" where
  "confidenceMult c = f_add (fl 1) (f_mul (f_of_int (uint (100 - c))) (fl (1 / 100)))"

lemma score_constants:
  "fl 1 = 1" "fl (3 / 2) = 3 / 2" "fl 100 = 100" "fl (11 / 10) \<le> 2" "1 \<le> fl (11 / 10)"
  "f_mul 100 (fl (1 / 100)) = 1" "f_mul 10000 1 = 10000" "f_mul 10000 100 = 1000000"
  "f_mul 10000 2 = 20000" "f_mul 20000 2 = 40000" "fl 2 = 2"
  by code_simp+

lemma confidenceMult_bounds:
  assumes "unat c \<le> 100"
  shows "1 \<le> confidenceMult c" "confidenceMult c \<le> 2"
proof -
  have "unat (100 - c) = 100 - unat c" using assms by (simp add: unat_sub word_le_nat_alt)
  then obtain k where k: "uint (100 - c) = k" "0 \<le> k" "k \<le> 100"
    using uint_nat [of "100 - c"] by simp
  have "f_mul (of_int k) (fl (1 / 100)) \<le> f_mul 100 (fl (1 / 100))"
    using k fl_nonneg [of "1 / 100"] by (intro f_mul_mono) auto
  then have u: "f_mul (of_int k) (fl (1 / 100)) \<le> 1" by (simp add: score_constants)
  have l: "0 \<le> f_mul (of_int k) (fl (1 / 100))"
    using k fl_nonneg [of "1 / 100"] by (intro f_mul_nonneg) auto
  show "1 \<le> confidenceMult c" "confidenceMult c \<le> 2"
    using fl_mono [of 1 "1 + f_mul (of_int k) (fl (1 / 100))"]
      fl_mono [of "1 + f_mul (of_int k) (fl (1 / 100))" 2] u l k
    by (simp_all add: confidenceMult_def f_add_def score_constants)
qed

lemma GetScore_alt:
  "GetScore iq = f_mul (f_mul (f_of_int (p50 iq)) (confidenceMult (confidence iq)))
     (stateWeights ! unat (if 4 \<le> ipState iq then 0 else ipState iq))"
  by (simp add: GetScore_def Let_def confidenceMult_def stateWeights_def)

lemma GetScore_suspect:
  assumes "iq_wf iq" "ipState iq = IP_STATE_SUSPECT" "p50 iq = MAX_IP_LATENCY"
  shows "1000000 \<le> GetScore iq"
proof -
  have "f_mul 10000 1 \<le> f_mul 10000 (confidenceMult (confidence iq))"
    using assms confidenceMult_bounds [of "confidence iq"] by (intro f_mul_mono) (auto simp: iq_wf_def)
  then have "f_mul 10000 100 \<le> f_mul (f_mul 10000 (confidenceMult (confidence iq))) 100"
    by (intro f_mul_mono) (auto simp: score_constants)
  then show ?thesis
    by (simp add: GetScore_alt assms stateWeights_def score_constants)
qed

lemma weight_healthy:
  assumes "unat st \<le> 3" "st \<noteq> IP_STATE_SUSPECT"
  shows "stateWeights ! unat (if 4 \<le> st then 0 else st) \<le> 2 \<and> 0 \<le> stateWeights ! unat (if 4 \<le> st then 0 else st)"
proof -
  have "unat st \<noteq> 2" using assms(2) by (auto simp: word_unat_eq_iff)
  with assms(1) have "unat st = 0 \<or> unat st = 1 \<or> unat st = 3" by linarith
  moreover have "\<not> 4 \<le> st" using assms(1) by (simp add: word_le_nat_alt)
  ultimately show ?thesis
    using score_constants(4,5) by (auto simp: stateWeights_def score_constants(1-4) nth_Cons')
qed

lemma GetScore_healthy:
  assumes "iq_wf iq" "ipState iq \<noteq> IP_STATE_SUSPECT" "0 \<le> p50 iq" "p50 iq \<le> MAX_IP_LATENCY"
  shows "GetScore iq \<le> 40000"
proof -
  let ?w = "stateWeights ! unat (if 4 \<le> ipState iq then 0 else ipState iq)"
  have w: "?w \<le> 2" "0 \<le> ?w" using weight_healthy [of "ipState iq"] assms by (auto simp: iq_wf_def)
  note c = confidenceMult_bounds [of "confidence iq"]
  have p: "0 \<le> (of_int (p50 iq) :: rat)" "(of_int (p50 iq) :: rat) \<le> 10000"
    using assms(3,4) by simp_all
  have "f_mul (of_int (p50 iq)) (confidenceMult (confidence iq)) \<le> f_mul 10000 2"
    using p c assms(1) by (intro f_mul_mono) (auto simp: iq_wf_def)
  moreover have "0 \<le> f_mul (of_int (p50 iq)) (confidenceMult (confidence iq))"
    using p c assms(1) by (intro f_mul_nonneg) (auto simp: iq_wf_def)
  ultimately have "f_mul (f_mul (of_int (p50 iq)) (confidenceMult (confidence iq))) ?w \<le> f_mul 20000 2"
    using w by (intro f_mul_mono) (auto simp: score_constants)
  then show ?thesis using assms by (simp add: GetScore_alt score_constants)
qed

section \<open>Properties\<close>

text \<open>
  C17. The percentile window is exactly the last 64 latencies: whatever sequence of successes is
  recorded on a fresh address, the samples the percentiles are computed from are, as a multiset,
  the last 64 recorded latencies (all of them when there are fewer), and P50 is their upper median.
\<close>

theorem ip_window_last_64:
  "mset (window (record_all (ts @ [(now, l)]) (NewIPQualityV2 t0)))
     = mset (map snd (drop (length ts - 63) (ts @ [(now, l)])))
   \<and> GetP50Latency (record_all (ts @ [(now, l)]) (NewIPQualityV2 t0))
     = sort (map snd (drop (length ts - 63) (ts @ [(now, l)]))) ! (min 64 (length ts + 1) div 2)"
proof -
  let ?iq = "record_all (ts @ [(now, l)]) (NewIPQualityV2 t0)"
  let ?ls = "map snd (drop (length ts - 63) (ts @ [(now, l)]))"
  have w: "mset (window ?iq) = mset ?ls" using record_all_window [of "ts @ [(now, l)]" t0] by simp
  have "p50 ?iq = sort (window ?iq) ! (length (window ?iq) div 2)"
    unfolding record_all_snoc by (intro RecordLatency_percentiles keeps)
  moreover have "sort (window ?iq) = sort ?ls" using w by (intro properties_for_sort) auto
  moreover have "length (window ?iq) = min 64 (length ts + 1)"
    using mset_eq_length [OF w] by (simp add: min_def)
  ultimately show ?thesis using w by (simp add: GetP50Latency_def)
qed

text \<open>
  After every success the published percentiles are ordered and observed: P50 is at most P95,
  P95 at most P99, and all of them lie between the smallest and the largest sample in the window.
\<close>

lemma ip_percentiles_ordered:
  "let iq = RecordLatency now l (record_all ts (NewIPQualityV2 t0)) in
     Min (set (window iq)) \<le> GetP50Latency iq \<and> GetP50Latency iq \<le> GetP95Latency iq
     \<and> GetP95Latency iq \<le> GetP99Latency iq \<and> GetP99Latency iq \<le> Max (set (window iq))"
proof -
  define iq where "iq = RecordLatency now l (record_all ts (NewIPQualityV2 t0))"
  note r = RecordLatency_percentiles [OF record_all_wf [OF NewIPQualityV2_wf], of now l ts t0, folded iq_def]
  have "window iq \<noteq> []" using r(4) by auto
  then have "length (window iq) div 2 < length (sort (window iq))" by simp
  then have "p50 iq \<in> set (window iq)" using nth_mem r(1) by (metis set_sort)
  with r show ?thesis
    by (simp add: GetP50Latency_def GetP95Latency_def GetP99Latency_def iq_def [symmetric])
qed

text \<open>
  The exact confidence after \<open>n\<close> successes: ten per cent a sample, but the product is taken
  modulo 256 before it is capped at 100. So confidence is not monotone: it falls from 100 back to 4
  at the 26th sample.
\<close>

lemma ip_confidence_exact:
  "unat (GetConfidence (record_all (ts @ [(now, l)]) (NewIPQualityV2 t0)))
     = min 100 (10 * min 64 (length ts + 1) mod 256)"
proof -
  let ?iq = "record_all (ts @ [(now, l)]) (NewIPQualityV2 t0)"
  have c: "unat (sampleCount ?iq) = min 64 (length ts + 1)" using record_all_ring [of "ts @ [(now, l)]" t0] by simp
  define w where "w = (word_of_int (uint (sampleCount ?iq) * 10) :: u8)"
  have "w = of_nat (unat (sampleCount ?iq) * 10)" by (simp add: w_def)
  then have "unat w = 10 * min 64 (length ts + 1) mod 256"
    by (simp only: c unat_of_nat) (simp add: mult.commute)
  moreover have "confidence ?iq = (if 100 < w then 100 else w)"
    using confidence_RecordLatency [of now l "record_all ts (NewIPQualityV2 t0)"]
    by (simp add: record_all_snoc w_def Let_def del: RecordLatency_simps)
  ultimately show ?thesis by (auto simp: GetConfidence_def word_less_nat_alt min_def)
qed

text \<open>
  The failure phases: after a success, \<open>n\<close> consecutive failures (fewer than 256) leave the
  address DEGRADED for up to three and SUSPECT with the maximal latency from four on; the 256th
  wraps the eight-bit counter and makes it DEGRADED again.
\<close>

lemma ip_failure_phases:
  assumes "0 < length ts" "length ts \<le> 256"
  shows "GetState (fail_all ts (RecordLatency t0 l iq))
      = (if length ts \<le> 3 \<or> length ts = 256 then IP_STATE_DEGRADED else IP_STATE_SUSPECT)
    \<and> (4 \<le> length ts \<and> length ts \<noteq> 256 \<longrightarrow> GetP50Latency (fail_all ts (RecordLatency t0 l iq)) = MAX_IP_LATENCY)"
proof (cases "length ts = 256")
  case True
  have "(of_nat 256 :: u8) = 0" by simp
  with True show ?thesis
    using fail_all_state [of "RecordLatency t0 l iq" ts] by (simp add: GetState_def)
next
  case False
  with assms show ?thesis
    using fail_all_state [of "RecordLatency t0 l iq" ts] fail_all_p50 [of "RecordLatency t0 l iq" ts]
      u8_le_3 [of "length ts"]
    by (simp add: GetState_def GetP50Latency_def)
qed

lemma ip_failure_phases_example:
  "GetState (fail_all [1, 2, 3, 4] (RecordLatency 0 20 (NewIPQualityV2 0))) = IP_STATE_SUSPECT"
  using ip_failure_phases [of "[1, 2, 3, 4]" 0 20 "NewIPQualityV2 0"] by simp



end
