(* ===== verification/IP_Pool.thy ===== *)
theory IP_Pool
  imports IP_Quality
begin

text \<open>
  The pool of upstream addresses (src/server/ip_pool.go): best-address selection, the probe loop
  and the pruning of addresses nobody asks for any more.  The pool is a map from addresses to
  quality records.  The code ranges over that map in an order Go leaves open; the operations
  take it as the argument \<open>order\<close>.  The clock and the outcome of a probe exchange are
  arguments too.  A call is one step: the short windows in which \<open>GetBestIPsV2\<close> trades its read
  lock for the write lock are not interleaved with other calls.
\<close>

section \<open>Data\<close>

record IPPool =
  poolV2 :: "string \<rightharpoonup> IPQualityV2"
  poolCancelled :: bool
  poolWg :: nat
  probeLoopOnce :: bool
  exemptIPs :: "string set"
  lastPruneAt :: "int option"

definition STALE_IP_THRESHOLD :: int where
  "STALE_IP_THRESHOLD = 24 * 3600 * 1000000000"

definition PRUNE_INTERVAL :: int where
  "PRUNE_INTERVAL = 30 * 60 * 1000000000"

section \<open>Operations\<close>

definition NewIPPool :: IPPool where
  "NewIPPool = \<lparr>poolV2 = Map.empty, poolCancelled = False, poolWg = 0, probeLoopOnce = False,
     exemptIPs = {}, lastPruneAt = None\<rparr>"

text \<open>\<open>loopExits\<close>: the probe loop, once cancelled, ends before the caller's context does.\<close>

definition IPPool_Shutdown :: "bool \<Rightarrow> 'e \<Rightarrow> IPPool \<Rightarrow> 'e option \<times> IPPool" where
  "IPPool_Shutdown loopExits ctxErr ipp =
     (let ipp = ipp\<lparr>poolCancelled := True\<rparr>
      in if poolWg ipp = 0 then (None, ipp)
         else if loopExits then (None, ipp\<lparr>poolWg := 0\<rparr>)
         else (Some ctxErr, ipp))"

definition StartProbeLoop :: "int \<Rightarrow> string set \<Rightarrow> IPPool \<Rightarrow> IPPool" where
  "StartProbeLoop now exempt ipp =
     (if probeLoopOnce ipp then ipp
      else ipp\<lparr>probeLoopOnce := True, exemptIPs := exempt, lastPruneAt := Some now, poolWg := poolWg ipp + 1\<rparr>)"

definition GetIPQualityV2 :: "string \<Rightarrow> IPPool \<Rightarrow> IPQualityV2 option" where
  "GetIPQualityV2 ip ipp = poolV2 ipp ip"

definition SetIPQualityV2 :: "string \<Rightarrow> IPQualityV2 \<Rightarrow> IPPool \<Rightarrow> IPPool" where
  "SetIPQualityV2 ip iqv2 ipp = ipp\<lparr>poolV2 := (poolV2 ipp)(ip \<mapsto> iqv2)\<rparr>"

definition prune_one :: "int \<Rightarrow> int \<Rightarrow> string \<Rightarrow> IPPool \<Rightarrow> IPPool" where
  "prune_one now threshold ip ipp =
     (case poolV2 ipp ip of
        None \<Rightarrow> ipp
      | Some iqv2 \<Rightarrow>
          if ip \<in> exemptIPs ipp then ipp
          else if threshold < now - GetLastSeen iqv2 then ipp\<lparr>poolV2 := (poolV2 ipp)(ip := None)\<rparr>
          else ipp)"

definition PruneStaleIPs :: "int \<Rightarrow> int \<Rightarrow> string list \<Rightarrow> IPPool \<Rightarrow> IPPool" where
  "PruneStaleIPs now threshold order ipp = fold (prune_one now threshold) order ipp"

definition probe_candidates :: "int \<Rightarrow> string list \<Rightarrow> IPPool \<Rightarrow> string list" where
  "probe_candidates now order ipp =
     filter (\<lambda>ip. case poolV2 ipp ip of None \<Rightarrow> False | Some iqv2 \<Rightarrow> ShouldProbe now iqv2) order"

definition probe_one :: "int \<Rightarrow> (string \<Rightarrow> bool) \<Rightarrow> string \<Rightarrow> IPPool \<Rightarrow> IPPool" where
  "probe_one now probeOk ip ipp =
     (case GetIPQualityV2 ip ipp of
        None \<Rightarrow> ipp
      | Some iqv2 \<Rightarrow>
          if probeOk (ip @ '':53'')
          then ipp\<lparr>poolV2 := (poolV2 ipp)(ip \<mapsto> ResetForProbe now iqv2)\<rparr>
          else ipp)"

definition probeAllSuspiciousIPs :: "int \<Rightarrow> (string \<Rightarrow> bool) \<Rightarrow> string list \<Rightarrow> IPPool \<Rightarrow> IPPool" where
  "probeAllSuspiciousIPs now probeOk order ipp =
     fold (probe_one now probeOk) (probe_candidates now order ipp) ipp"

text \<open>One turn of the probe loop: it ends when the context is done, otherwise the ticker fired.\<close>

definition periodicProbeLoop_turn ::
  "int \<Rightarrow> (string \<Rightarrow> bool) \<Rightarrow> string list \<Rightarrow> string list \<Rightarrow> IPPool \<Rightarrow> IPPool"
where
  "periodicProbeLoop_turn now probeOk order1 order2 ipp =
     (if poolCancelled ipp then ipp\<lparr>poolWg := poolWg ipp - 1\<rparr>
      else let ipp = probeAllSuspiciousIPs now probeOk order1 ipp
           in if PRUNE_INTERVAL \<le> now - the (lastPruneAt ipp)
              then (PruneStaleIPs now STALE_IP_THRESHOLD order2 ipp)\<lparr>lastPruneAt := Some now\<rparr>
              else ipp)"

record scoreEntry =
  se_ip :: string
  se_score :: rat

fun collect_scores :: "int \<Rightarrow> string list \<Rightarrow> IPPool \<Rightarrow> scoreEntry list \<times> IPPool" where
  "collect_scores now [] ipp = ([], ipp)"
| "collect_scores now (ip # ips) ipp =
     (case poolV2 ipp ip of
        Some iqv2 \<Rightarrow>
          (let (scores, ipp') = collect_scores now ips ipp
           in (\<lparr>se_ip = ip, se_score = GetScore iqv2\<rparr> # scores, ipp'))
      | None \<Rightarrow>
          (let iqv2 = NewIPQualityV2 now;
               (scores, ipp') = collect_scores now ips (ipp\<lparr>poolV2 := (poolV2 ipp)(ip \<mapsto> iqv2)\<rparr>)
           in (\<lparr>se_ip = ip, se_score = GetScore iqv2\<rparr> # scores, ipp')))"

definition score_less :: "scoreEntry \<Rightarrow> scoreEntry \<Rightarrow> bool" where
  "score_less a b = (se_score a < se_score b)"

definition GetBestIPsV2 ::
  "(scoreEntry list \<Rightarrow> scoreEntry list) \<Rightarrow> int \<Rightarrow> string list \<Rightarrow> IPPool \<Rightarrow> (string \<times> string) \<times> IPPool"
where
  "GetBestIPsV2 srt now ips ipp =
     (let (scores, ipp') = collect_scores now ips ipp;
          scores = srt scores;
          bestIP = (if 0 < length scores then se_ip (scores ! 0) else []);
          secondIP = (if 1 < length scores then se_ip (scores ! 1) else [])
      in ((bestIP, secondIP), ipp'))"

text \<open>The score the pool gives an address: that of its record, or of a fresh one.\<close>

definition pool_score :: "IPPool \<Rightarrow> string \<Rightarrow> rat" where
  "pool_score ipp ip = (case poolV2 ipp ip of None \<Rightarrow> GetScore (NewIPQualityV2 0) | Some iqv2 \<Rightarrow> GetScore iqv2)"

section \<open>Lemmas\<close>

lemma GetScore_New: "GetScore (NewIPQualityV2 t) = GetScore (NewIPQualityV2 0)"
  by (simp add: GetScore_def NewIPQualityV2_def)

lemma pool_score_upd:
  "poolV2 ipp ip = None \<Longrightarrow> pool_score (ipp\<lparr>poolV2 := (poolV2 ipp)(ip \<mapsto> NewIPQualityV2 t)\<rparr>) = pool_score ipp"
  by (auto simp: pool_score_def GetScore_New [of t] fun_eq_iff split: option.splits)

lemma collect_scores_fst:
  "fst (collect_scores now ips ipp) = map (\<lambda>ip. \<lparr>se_ip = ip, se_score = pool_score ipp ip\<rparr>) ips"
proof (induction now ips ipp rule: collect_scores.induct)
  case (2 now ip ips ipp)
  then show ?case
    by (auto simp: case_prod_beta Let_def pool_score_upd pool_score_def GetScore_New [of now] split: option.splits)
qed simp

lemma collect_scores_snd:
  "snd (collect_scores now ips ipp) =
     ipp\<lparr>poolV2 := (\<lambda>ip. if ip \<in> set ips \<and> poolV2 ipp ip = None then Some (NewIPQualityV2 now) else poolV2 ipp ip)\<rparr>"
proof (induction now ips ipp rule: collect_scores.induct)
  case (2 now ip ips ipp)
  then show ?case
    by (cases "poolV2 ipp ip") (auto simp: case_prod_beta Let_def fun_eq_iff intro!: arg_cong [where f = "\<lambda>m. ipp\<lparr>poolV2 := m\<rparr>"])
qed simp

lemma prune_one_other [simp]:
  "ip \<noteq> jp \<Longrightarrow> poolV2 (prune_one now th jp ipp) ip = poolV2 ipp ip"
  "exemptIPs (prune_one now th jp ipp) = exemptIPs ipp"
  by (auto simp: prune_one_def split: option.splits)

lemma prune_one_same:
  "poolV2 (prune_one now th ip ipp) ip =
     (if ip \<notin> exemptIPs ipp \<and> (\<exists>iq. poolV2 ipp ip = Some iq \<and> th < now - GetLastSeen iq) then None else poolV2 ipp ip)"
  by (auto simp: prune_one_def split: option.splits)

lemma PruneStaleIPs_other [simp]: "exemptIPs (PruneStaleIPs now th order ipp) = exemptIPs ipp"
  unfolding PruneStaleIPs_def by (induction order arbitrary: ipp) auto

lemma PruneStaleIPs_lookup:
  "poolV2 (PruneStaleIPs now th order ipp) ip =
     (if ip \<in> set order \<and> ip \<notin> exemptIPs ipp \<and> (\<exists>iq. poolV2 ipp ip = Some iq \<and> th < now - GetLastSeen iq)
      then None else poolV2 ipp ip)"
  unfolding PruneStaleIPs_def
proof (induction order arbitrary: ipp)
  case (Cons jp order)
  show ?case
  proof (cases "jp = ip")
    case True
    then show ?thesis by (auto simp: Cons.IH prune_one_same)
  next
    case False
    then show ?thesis by (auto simp: Cons.IH)
  qed
qed simp

lemma sort_slice_ok_scores: "sort_slice_ok score_less (go_insertion_sort score_less)"
  by (rule go_insertion_sort_ok) (auto simp: score_less_def)

section \<open>Properties\<close>

text \<open>
  C18. Best-address selection is optimal: for every sorting routine that keeps the promise of
  \<open>sort.Slice\<close>, the best address is one of the candidates and none has a smaller score, and the
  second one is optimal among the candidates left when the best is taken out.
\<close>

theorem best_ips_minimal:
  assumes "sort_slice_ok score_less srt" "GetBestIPsV2 srt now ips ipp = ((best, second), ipp')" "2 \<le> length ips"
  shows "best \<in> set ips \<and> (\<forall>ip \<in> set ips. pool_score ipp best \<le> pool_score ipp ip)
    \<and> second \<in> set (remove1 best ips) \<and> (\<forall>ip \<in> set (remove1 best ips). pool_score ipp second \<le> pool_score ipp ip)"
proof -
  let ?e = "\<lambda>ip. \<lparr>se_ip = ip, se_score = pool_score ipp ip\<rparr>"
  define ss where "ss = srt (map ?e ips)"
  have m: "mset ss = mset (map ?e ips)" and st: "sorted_wrt (\<lambda>a b. \<not> score_less b a) ss"
    using assms(1) by (simp_all add: sort_slice_ok_def ss_def)
  have "length ss = length ips" using mset_eq_length [OF m] by simp
  then obtain a b rest where ss: "ss = a # b # rest"
    using assms(3) by (metis Suc_le_length_iff numeral_2_eq_2)
  have bs: "best = se_ip a" "second = se_ip b"
    using assms(2) by (auto simp: GetBestIPsV2_def case_prod_beta Let_def collect_scores_fst ss_def [symmetric] ss)
  have "set ss \<subseteq> ?e ` set ips" using mset_eq_setD [OF m] by simp
  then have e: "a = ?e best" "b = ?e second" unfolding bs ss by auto
  have mi: "mset ips = {#best, second#} + mset (map se_ip rest)"
  proof -
    have "mset (map se_ip ss) = mset (map se_ip (map ?e ips))" using m by (simp only: mset_map)
    then show ?thesis by (simp add: ss bs comp_def)
  qed
  have rest: "se_score x = pool_score ipp (se_ip x)" if "x \<in> set rest" for x
    using \<open>set ss \<subseteq> ?e ` set ips\<close> that unfolding ss by auto
  have sb: "pool_score ipp second \<le> pool_score ipp (se_ip x)" if "x \<in> set rest" for x
    using st that by (auto simp: ss e score_less_def not_less rest [OF that, symmetric])
  have ab: "pool_score ipp best \<le> pool_score ipp second"
    using st by (simp add: ss e score_less_def not_less)
  have "mset (remove1 best ips) = {#second#} + mset (map se_ip rest)" by (simp add: mi)
  then have r: "set (remove1 best ips) = insert second (se_ip ` set rest)"
    using set_mset_mset [of "remove1 best ips"] by simp
  have i: "set ips = insert best (insert second (se_ip ` set rest))"
    using arg_cong [OF mi, of set_mset] by auto
  show ?thesis unfolding r i using sb ab by (auto intro: order_trans [OF ab])
qed

theorem best_ips_minimal_witness:
  "\<exists>best second ipp'. GetBestIPsV2 (go_insertion_sort score_less) 0 [''a'', ''b''] NewIPPool = ((best, second), ipp')
     \<and> pool_score NewIPPool best \<le> pool_score NewIPPool ''b''"
proof -
  obtain best second ipp' where b: "GetBestIPsV2 (go_insertion_sort score_less) 0 [''a'', ''b''] NewIPPool = ((best, second), ipp')"
    by (metis prod.collapse)
  show ?thesis using best_ips_minimal [OF sort_slice_ok_scores b] b by auto
qed

text \<open>
  Pruning does what its comment says and does not depend on the order in which Go visits the
  map: whenever the order visits every address, exactly the addresses that are not exempt and were
  last seen more than the threshold ago are gone; every other record is untouched.
\<close>

lemma prune_exact:
  assumes "set order = dom (poolV2 ipp)"
  shows "poolV2 (PruneStaleIPs now threshold order ipp) =
    (\<lambda>ip. case poolV2 ipp ip of None \<Rightarrow> None
       | Some iq \<Rightarrow> if ip \<in> exemptIPs ipp \<or> now - GetLastSeen iq \<le> threshold then Some iq else None)"
  using assms by (auto simp: fun_eq_iff PruneStaleIPs_lookup split: option.splits)

lemma prune_exact_example:
  "poolV2 (PruneStaleIPs 100 10 [''1.1.1.1'']
     (StartProbeLoop 0 {''2.2.2.2''} (NewIPPool\<lparr>poolV2 := [''1.1.1.1'' \<mapsto> NewIPQualityV2 0]\<rparr>))) ''1.1.1.1'' = None"
  by (subst prune_exact) (simp_all add: StartProbeLoop_def NewIPPool_def NewIPQualityV2_def GetLastSeen_def)

text \<open>
  Selection keeps the pool: asking for the best of some addresses changes no record that is
  already there and adds a fresh one for exactly the candidates the pool did not know.
\<close>

lemma best_ips_pool:
  "snd (GetBestIPsV2 srt now ips ipp) =
     ipp\<lparr>poolV2 := poolV2 ipp ++ (\<lambda>ip. if ip \<in> set ips \<and> poolV2 ipp ip = None then Some (NewIPQualityV2 now) else None)\<rparr>"
  by (auto simp: GetBestIPsV2_def case_prod_beta Let_def collect_scores_snd map_add_def fun_eq_iff
      intro!: arg_cong [where f = "\<lambda>m. ipp\<lparr>poolV2 := m\<rparr>"])

end
