(* ===== verification/Dns_Reference.thy ===== *)
theory Dns_Reference
  imports Dns_Message Go_Net
begin

text \<open>
  A concrete instance of the dns package for names without escapes, following the package's
  documentation.  The theorems hold for every instance that keeps the named laws; this one shows
  that the laws can hold and evaluates the examples.
\<close>

definition ref_Fqdn :: "string \<Rightarrow> string" where
  "ref_Fqdn s = (if s \<noteq> [] \<and> last s = CHR ''.'' then s else s @ ''.'')"

definition ref_Split :: "string \<Rightarrow> string list" where
  "ref_Split s =
     (let s = (if s \<noteq> [] \<and> last s = CHR ''.'' then butlast s else s)
      in if s = [] then [] else split_on (CHR ''.'') s)"

definition is_tail :: "'a list \<Rightarrow> 'a list \<Rightarrow> bool" where
  "is_tail xs ys = (length xs \<le> length ys \<and> drop (length ys - length xs) ys = xs)"

definition ref_IsSubDomain :: "string \<Rightarrow> string \<Rightarrow> bool" where
  "ref_IsSubDomain parent child =
     is_tail (map strings_ToLower (ref_Split parent)) (map strings_ToLower (ref_Split child))"

definition ref_PackDomainName :: "string \<Rightarrow> u8 list option" where
  "ref_PackDomainName s =
     (let labels = ref_Split s;
          wire = concat (map (\<lambda>l. of_nat (length l) # map (\<lambda>c. of_nat (of_char c)) l) labels) @ [0]
      in if list_ex (\<lambda>l. 63 < length l \<or> l = []) labels \<or> 255 < length wire then None else Some wire)"

definition ref_SetReply :: "Msg \<Rightarrow> Msg \<Rightarrow> Msg" where
  "ref_SetReply m r =
     m\<lparr>MsgId := MsgId r, Response := True, Opcode := Opcode r,
       RecursionDesired := (if Opcode r = OpcodeQuery then RecursionDesired r else RecursionDesired m),
       CheckingDisabled := (if Opcode r = OpcodeQuery then CheckingDisabled r else CheckingDisabled m),
       Rcode := RcodeSuccess, Question := (if Question r = [] then Question m else [hd (Question r)])\<rparr>"

definition ref_dnslib :: dnslib where
  "ref_dnslib =
    \<lparr>IsSubDomain = ref_IsSubDomain, Fqdn = ref_Fqdn, SplitDomainName = ref_Split,
     CanonicalName = (\<lambda>s. strings_ToLower (ref_Fqdn s)), PackDomainName = ref_PackDomainName,
     SetReply = ref_SetReply,
     SetRcode = (\<lambda>m r c. (ref_SetReply m r)\<lparr>Rcode := c\<rparr>),
     SetQuestion = (\<lambda>i m n t. m\<lparr>MsgId := i, RecursionDesired := True, Question := [\<lparr>qName = n, Qtype = t, Qclass = ClassINET\<rparr>]\<rparr>),
     SetUpdate = (\<lambda>m z. m\<lparr>MsgId := 0, Response := False, Opcode := 5, Compress := False,
                    Question := [\<lparr>qName = z, Qtype = 6, Qclass = ClassINET\<rparr>]\<rparr>),
     SetEdns0 = (\<lambda>m u d. m\<lparr>Extra := Extra m @ [RR_OPT \<lparr>Name = ''.'', Rrtype = 41, Class = u, Ttl = (if d then 32768 else 0)\<rparr>]\<rparr>),
     MsgCopy = (\<lambda>m. m), RRCopy = (\<lambda>r. r),
     MsgLen = (\<lambda>m. 12 + 16 * int (length (Question m) + length (Answer m) + length (Ns m) + length (Extra m))),
     IsEdns0 = (\<lambda>m. find is_RR_OPT (Extra m)), UDPSize = (\<lambda>r. Class (Header r)),
     MsgPack = (\<lambda>m. None), MsgUnpack = (\<lambda>b. None),
     TypeToString = (\<lambda>t. if t = TypeA then ''A'' else if t = TypeNS then ''NS'' else []),
     RcodeToString = (\<lambda>r. if r = 0 then ''NOERROR'' else if r = 2 then ''SERVFAIL'' else if r = 3 then ''NXDOMAIN'' else []),
     StringToType = (\<lambda>s. if s = ''A'' then Some TypeA else if s = ''NS'' then Some TypeNS else None)\<rparr>"

lemma ref_laws [simp]:
  "copy_laws ref_dnslib" "reply_laws ref_dnslib" "question_laws ref_dnslib" "subdomain_laws ref_dnslib"
  by (simp_all add: copy_laws_def reply_laws_def question_laws_def subdomain_laws_def ref_dnslib_def
      ref_SetReply_def ref_IsSubDomain_def is_tail_def)

end
