(* ===== verification/Hot_Zone.thy ===== *)
theory Hot_Zone
  imports Dns_Reference Metrics Contracts "HOL-Library.AList"
begin

text \<open>
  Hot-zone protection (src/server/hot_zone_protection.go): a controller that measures how long
  expensive requests occupy the resolver, per zone and in five-second windows, and refuses new
  ones below a zone that stays hot under pressure.  A Go map whose entries are ranged over is an
  association list; what a call reads from outside (clock, CPU counters, configuration of logging
  and metrics) is a record of type \<open>hotZoneInput\<close>.  A time is the number of nanoseconds since
  Go's zero time, so the zero time is 0; where the code asks \<open>IsZero\<close> of a time it has not set
  yet, the field is an option.
\<close>

section \<open>Data\<close>

definition hotZoneWindowDuration :: int where "hotZoneWindowDuration = 5 * 1000000000"
definition hotZoneRecentWindowCount :: nat where "hotZoneRecentWindowCount = 3"
definition hotZoneEvaluateInterval :: int where "hotZoneEvaluateInterval = 1000000000"
definition hotZoneProtectConfirmWindows :: int where "hotZoneProtectConfirmWindows = 3"
definition hotZoneLogInterval :: int where "hotZoneLogInterval = 30 * 1000000000"
definition hotZoneObserveCPUThreshold :: rat where "hotZoneObserveCPUThreshold = fl 70"
definition hotZoneObserveConcurrencyFactor :: rat where "hotZoneObserveConcurrencyFactor = fl (75 / 100)"
definition hotZoneChildDominanceThreshold :: rat where "hotZoneChildDominanceThreshold = fl (80 / 100)"
definition hotZoneExitBaselineFactor :: rat where "hotZoneExitBaselineFactor = fl (105 / 100)"

type_synonym durations = "(string \<times> int) list"

record hotZoneActiveRequest =
  hz_id :: u64
  hz_qname :: string
  hz_coarseKey :: string
  hz_startedAt :: int
  hz_accountedAt :: int

record hotZoneWindow =
  win_start :: int
  globalOccupancy :: int
  coarseOccupancy :: durations
  childOccupancy :: "(string \<times> durations) list"

record hotZoneSnapshot =
  currentWindowStart :: int
  currentElapsed :: int
  currentGlobalAvg :: rat
  aggregatedGlobal :: int
  aggregatedCoarse :: durations
  aggregatedChild :: "(string \<times> durations) list"

record hotZoneLogState =
  hzLastAt :: "int option"
  hzSuppressedCount :: int

record cpuUsageSampler =
  cpuLastReadAt :: "int option"
  cpuLastTotal :: u64
  cpuLastIdle :: u64
  cpuLastValue :: rat

record hotZoneController =
  baseSuffixes :: "string list"
  active :: "(u64 \<times> hotZoneActiveRequest) list"
  nextID :: u64
  windows :: "hotZoneWindow list"
  lastEvalAt :: "int option"
  observeMode :: bool
  protectedZone :: string
  candidateZone :: string
  candidateStreak :: int
  lastCandidateWindow :: int
  lastNormalAvg :: rat
  preTriggerBaseline :: rat
  hzLogState :: "string \<rightharpoonup> hotZoneLogState"
  hzCpu :: cpuUsageSampler

record hotZoneInput =
  hzNow :: int
  hzLogNow :: int
  hzCpuNow :: int
  hzCpuStat :: "(u64 \<times> u64) option"  \<comment> \<open>total and idle of /proc/stat, None for an error\<close>
  hzNumCPU :: int
  hzLogOn :: bool
  hzMetricOn :: bool

text \<open>\<open>m[k] += d\<close> on a map of durations, and reading it.\<close>

definition dur_add :: "string \<Rightarrow> int \<Rightarrow> durations \<Rightarrow> durations" where
  "dur_add k d m = AList.map_default k d (\<lambda>x. x + d) m"

definition dur_of :: "durations \<Rightarrow> string \<Rightarrow> int" where
  "dur_of m k = (case map_of m k of None \<Rightarrow> 0 | Some d \<Rightarrow> d)"

section \<open>Zones of a request\<close>

definition hotZoneMatchedBaseSuffix :: "dnslib \<Rightarrow> string \<Rightarrow> string list \<Rightarrow> string" where
  "hotZoneMatchedBaseSuffix L qname suffixes =
     (case find (\<lambda>suffix. IsSubDomain L suffix qname) suffixes of None \<Rightarrow> [] | Some suffix \<Rightarrow> suffix)"

definition hotZoneBusinessRootAboveSuffix :: "dnslib \<Rightarrow> string \<Rightarrow> string \<Rightarrow> string" where
  "hotZoneBusinessRootAboveSuffix L qname suffix =
     (let labels = SplitDomainName L qname; suffixLabels = SplitDomainName L suffix
      in if length labels \<le> length suffixLabels then Fqdn L suffix
         else let start = length labels - length suffixLabels - 1
              in strings_Join (drop start labels) ''.'' @ ''.'')"

definition hotZoneFallbackLevel3 :: "dnslib \<Rightarrow> string \<Rightarrow> string" where
  "hotZoneFallbackLevel3 L qname =
     (let labels = SplitDomainName L qname
      in if length labels \<le> 2 then Fqdn L qname
         else strings_Join (drop (length labels - 2) labels) ''.'' @ ''.'')"

definition hotZoneCoarseKey :: "dnslib \<Rightarrow> string \<Rightarrow> string \<Rightarrow> string list \<Rightarrow> string" where
  "hotZoneCoarseKey L qname matchedForwardZone suffixes =
     (if matchedForwardZone \<noteq> [] then Fqdn L matchedForwardZone
      else let fqdn = Fqdn L qname; suffix = hotZoneMatchedBaseSuffix L fqdn suffixes
           in if suffix \<noteq> [] then hotZoneBusinessRootAboveSuffix L fqdn suffix
              else hotZoneFallbackLevel3 L fqdn)"

definition hotZoneDirectChild :: "dnslib \<Rightarrow> string \<Rightarrow> string \<Rightarrow> string" where
  "hotZoneDirectChild L qname parent =
     (let fqdn = Fqdn L qname; parent = Fqdn L parent
      in if fqdn = parent \<or> \<not> IsSubDomain L parent fqdn then []
         else let labels = SplitDomainName L fqdn; parentLabels = SplitDomainName L parent
              in if length labels \<le> length parentLabels then []
                 else let start = length labels - length parentLabels - 1
                      in strings_Join (drop start labels) ''.'' @ ''.'')"

definition hotZoneIsPublicSuffixLike :: "dnslib \<Rightarrow> string \<Rightarrow> bool" where
  "hotZoneIsPublicSuffixLike L zone = (length (SplitDomainName L zone) \<le> 1)"

definition DefaultCuratedTLDs :: "string list" where
  "DefaultCuratedTLDs =
    [''com'', ''cn'', ''de'', ''net'', ''org'', ''uk'', ''ru'', ''nl'',
     ''br'', ''xyz'', ''info'', ''top'', ''it'', ''fr'', ''au'', ''in'',
     ''us'', ''pl'', ''ir'', ''eu'', ''es'', ''ca'', ''io'', ''ai'',
     ''me'', ''site'', ''shop'', ''online'', ''biz'', ''app'']"

definition add_suffix :: "string \<Rightarrow> string list \<Rightarrow> string list" where
  "add_suffix suffix suffixes = (if suffix \<in> set suffixes then suffixes else suffixes @ [suffix])"

definition suffix_less :: "string \<Rightarrow> string \<Rightarrow> bool" where
  "suffix_less a b = (if length a = length b then str_less a b else length b < length a)"

definition normalizeHotZoneBaseSuffixes ::
  "dnslib \<Rightarrow> (string list \<Rightarrow> string list) \<Rightarrow> string list \<Rightarrow> string list"
where
  "normalizeHotZoneBaseSuffixes L srt extra =
     (let suffixes = fold (\<lambda>value. add_suffix (Fqdn L value)) DefaultCuratedTLDs [];
          suffixes = fold (\<lambda>value suffixes.
              let suffix = Fqdn L (strings_TrimSpace value)
              in if suffix = ''.'' then suffixes else add_suffix suffix suffixes) extra suffixes
      in srt suffixes)"

section \<open>Windows\<close>

definition newHotZoneWindow :: "int \<Rightarrow> hotZoneWindow" where
  "newHotZoneWindow start =
     \<lparr>win_start = start, globalOccupancy = 0, coarseOccupancy = [], childOccupancy = []\<rparr>"

definition newHotZoneController :: "dnslib \<Rightarrow> (string list \<Rightarrow> string list) \<Rightarrow> string list \<Rightarrow> hotZoneController" where
  "newHotZoneController L srt suffixes =
     \<lparr>baseSuffixes = normalizeHotZoneBaseSuffixes L srt suffixes, active = [], nextID = 0, windows = [],
      lastEvalAt = None, observeMode = False, protectedZone = [], candidateZone = [], candidateStreak = 0,
      lastCandidateWindow = 0, lastNormalAvg = 0, preTriggerBaseline = 0, hzLogState = Map.empty,
      hzCpu = \<lparr>cpuLastReadAt = None, cpuLastTotal = 0, cpuLastIdle = 0, cpuLastValue = 0\<rparr>\<rparr>"

definition ensureCurrentWindowLocked :: "int \<Rightarrow> hotZoneController \<Rightarrow> hotZoneController" where
  "ensureCurrentWindowLocked now c =
     (if windows c = [] then
        let start = now - now mod hotZoneWindowDuration;
            start = (if start = 0 then now else start)
        in c\<lparr>windows := [newHotZoneWindow start]\<rparr>
      else c)"

definition advanceWindowLocked :: "int \<Rightarrow> hotZoneController \<Rightarrow> hotZoneController" where
  "advanceWindowLocked start c =
     (let ws = windows c @ [newHotZoneWindow start]
      in c\<lparr>windows := (if hotZoneRecentWindowCount < length ws
             then drop (length ws - hotZoneRecentWindowCount) ws else ws)\<rparr>)"

definition set_current :: "hotZoneWindow \<Rightarrow> hotZoneController \<Rightarrow> hotZoneController" where
  "set_current w c = c\<lparr>windows := butlast (windows c) @ [w]\<rparr>"

text \<open>The part of \<open>addSampleSegmentLocked\<close> that writes the maps of a window.\<close>

definition add_to_maps :: "dnslib \<Rightarrow> hotZoneActiveRequest \<Rightarrow> int \<Rightarrow> hotZoneWindow \<Rightarrow> hotZoneWindow" where
  "add_to_maps L req delta w =
     (let w = w\<lparr>coarseOccupancy := dur_add (hz_coarseKey req) delta (coarseOccupancy w)\<rparr>;
          child = hotZoneDirectChild L (hz_qname req) (hz_coarseKey req)
      in if child \<noteq> []
         then w\<lparr>childOccupancy := AList.map_default (hz_coarseKey req) (dur_add child delta [])
                  (dur_add child delta) (childOccupancy w)\<rparr>
         else w)"

definition addSampleSegmentLocked :: "dnslib \<Rightarrow> hotZoneActiveRequest \<Rightarrow> int \<Rightarrow> hotZoneWindow \<Rightarrow> hotZoneWindow" where
  "addSampleSegmentLocked L req stop w =
     (if stop \<le> hz_accountedAt req then w
      else let delta = stop - hz_accountedAt req
           in add_to_maps L req delta (w\<lparr>globalOccupancy := globalOccupancy w + delta\<rparr>))"

definition rotate_once :: "dnslib \<Rightarrow> hotZoneController \<Rightarrow> hotZoneController" where
  "rotate_once L c =
     (let current = last (windows c);
          boundary = win_start current + hotZoneWindowDuration;
          current = fold (\<lambda>(_, req). addSampleSegmentLocked L req boundary) (active c) current;
          c = set_current current c;
          c = c\<lparr>active := map (\<lambda>(i, req). (i, req\<lparr>hz_accountedAt := boundary\<rparr>)) (active c)\<rparr>
      in advanceWindowLocked boundary c)"

lemma rotate_once_start: "win_start (last (windows (rotate_once L c))) = win_start (last (windows c)) + hotZoneWindowDuration"
  by (simp add: rotate_once_def Let_def advanceWindowLocked_def newHotZoneWindow_def hotZoneRecentWindowCount_def)

function rotate_loop :: "dnslib \<Rightarrow> int \<Rightarrow> bool \<Rightarrow> hotZoneController \<Rightarrow> bool \<times> hotZoneController" where
  "rotate_loop L now rotated c =
     (if hotZoneWindowDuration \<le> now - win_start (last (windows c))
      then rotate_loop L now True (rotate_once L c) else (rotated, c))"
  by pat_completeness auto
termination
  by (relation "measure (\<lambda>(L, now, rotated, c). nat (now - win_start (last (windows c))))")
    (auto simp: rotate_once_start hotZoneWindowDuration_def)

declare rotate_loop.simps [simp del]

definition rotateLocked :: "dnslib \<Rightarrow> int \<Rightarrow> hotZoneController \<Rightarrow> bool \<times> hotZoneController" where
  "rotateLocked L now c = rotate_loop L now False (ensureCurrentWindowLocked now c)"

definition addSampleToCurrentWindowLocked :: "dnslib \<Rightarrow> hotZoneActiveRequest \<Rightarrow> int \<Rightarrow> hotZoneController \<Rightarrow> hotZoneController" where
  "addSampleToCurrentWindowLocked L req now c =
     (if now \<le> hz_accountedAt req then c
      else let c = ensureCurrentWindowLocked now c
           in set_current (addSampleSegmentLocked L req now (last (windows c))) c)"

section \<open>Snapshot\<close>

text \<open>
  \<open>snapshotLocked\<close> works on a copy of the window slice, but the copied windows share their two
  maps with the live ones: what it adds for the requests still active stays in the live maps,
  while the added global occupancy is lost with the copy.  So the function returns the changed
  controller too.
\<close>

definition pending_requests :: "int \<Rightarrow> hotZoneController \<Rightarrow> hotZoneActiveRequest list" where
  "pending_requests now c = filter (\<lambda>req. hz_accountedAt req < now) (map snd (active c))"

definition merge_durations :: "durations \<Rightarrow> durations \<Rightarrow> durations" where
  "merge_durations from into = fold (\<lambda>(k, d). dur_add k d) from into"

definition merge_children :: "(string \<times> durations) list \<Rightarrow> (string \<times> durations) list \<Rightarrow> (string \<times> durations) list" where
  "merge_children from into =
     fold (\<lambda>(parent, m). AList.map_default parent (merge_durations m []) (merge_durations m)) from into"

definition snapshotLocked :: "dnslib \<Rightarrow> int \<Rightarrow> hotZoneController \<Rightarrow> hotZoneSnapshot \<times> hotZoneController" where
  "snapshotLocked L now c =
     (let c = ensureCurrentWindowLocked now c;
          current = last (windows c);
          elapsed = now - win_start current;
          elapsed = (if elapsed \<le> 0 then 1000000000 else elapsed);
          add = (\<lambda>req. add_to_maps L req (now - hz_accountedAt req));
          shared = fold add (pending_requests now c) current;
          global = fold (\<lambda>req g. g + (now - hz_accountedAt req)) (pending_requests now c) (globalOccupancy current);
          copies = butlast (windows c) @ [shared\<lparr>globalOccupancy := global\<rparr>]
      in (\<lparr>currentWindowStart = win_start current, currentElapsed = elapsed,
           currentGlobalAvg = f_div (f_of_int global) (f_of_int elapsed),
           aggregatedGlobal = sum_list (map globalOccupancy copies),
           aggregatedCoarse = fold (\<lambda>w. merge_durations (coarseOccupancy w)) copies [],
           aggregatedChild = fold (\<lambda>w. merge_children (childOccupancy w)) copies []\<rparr>,
          set_current shared c))"

section \<open>Choosing a candidate\<close>

text \<open>The two loops of \<open>selectCandidate\<close>: the longest duration, the smaller name on a tie.\<close>

definition cooler :: "string \<times> int \<Rightarrow> string \<times> int \<Rightarrow> bool" where
  "cooler best kd = (snd best < snd kd \<or> (snd kd = snd best \<and> str_less (fst kd) (fst best)))"

definition hotter :: "string \<times> int \<Rightarrow> string \<times> int \<Rightarrow> string \<times> int" where
  "hotter kd best = (if cooler best kd then kd else best)"

definition hottest_of :: "durations \<Rightarrow> string \<times> int" where
  "hottest_of m = fold hotter m ([], 0)"

definition selectCandidate :: "dnslib \<Rightarrow> hotZoneSnapshot \<Rightarrow> string" where
  "selectCandidate L s =
     (let (hottest, hottestDur) = hottest_of (filter (\<lambda>(key, dur). \<not> (dur \<le> 0 \<or> hotZoneIsPublicSuffixLike L key)) (aggregatedCoarse s))
      in if hottest = [] \<or> hottestDur \<le> 0 then []
         else let children = (case map_of (aggregatedChild s) hottest of None \<Rightarrow> [] | Some m \<Rightarrow> m);
                  (hottestChild, hottestChildDur) = hottest_of children
              in if hottestChild = [] \<or> hottestChildDur \<le> 0 then hottest
                 else if f_mul (f_of_int hottestDur) hotZoneChildDominanceThreshold \<le> f_of_int hottestChildDur
                 then hottestChild else hottest)"

section \<open>CPU usage\<close>

text \<open>
  The branch for a usage that is not a number or infinite has no counterpart: the divisor is
  positive here.
\<close>

definition CPUUsage :: "int \<Rightarrow> (u64 \<times> u64) option \<Rightarrow> cpuUsageSampler \<Rightarrow> rat \<times> cpuUsageSampler" where
  "CPUUsage now stat s =
     (if cpuLastReadAt s \<noteq> None \<and> now - the (cpuLastReadAt s) < 1000000000 then (cpuLastValue s, s)
      else case stat of
        None \<Rightarrow> (cpuLastValue s, s)
      | Some (tot, idle) \<Rightarrow>
          if cpuLastTotal s = 0 \<or> tot \<le> cpuLastTotal s
          then (cpuLastValue s, s\<lparr>cpuLastReadAt := Some now, cpuLastTotal := tot, cpuLastIdle := idle\<rparr>)
          else let totalDelta = f_of_int (uint (tot - cpuLastTotal s));
                   idleDelta = f_of_int (uint (idle - cpuLastIdle s));
                   usage = f_mul (fl 100) (f_add 1 (- f_div idleDelta totalDelta));
                   usage = (if usage < 0 then 0 else usage);
                   usage = (if 100 < usage then 100 else usage)
               in (usage, s\<lparr>cpuLastReadAt := Some now, cpuLastTotal := tot, cpuLastIdle := idle, cpuLastValue := usage\<rparr>))"

section \<open>Events\<close>

text \<open>The result of \<open>logRateLimitedLocked\<close> is the suppressed count of the line it prints, if it prints one.\<close>

definition logRateLimitedLocked :: "int \<Rightarrow> string \<Rightarrow> hotZoneController \<Rightarrow> int option \<times> hotZoneController" where
  "logRateLimitedLocked now key c =
     (let state = (case hzLogState c key of None \<Rightarrow> \<lparr>hzLastAt = None, hzSuppressedCount = 0\<rparr> | Some st \<Rightarrow> st)
      in if hzLastAt state = None \<or> hotZoneLogInterval \<le> now - the (hzLastAt state)
         then (Some (hzSuppressedCount state),
               c\<lparr>hzLogState := (hzLogState c)(key \<mapsto> \<lparr>hzLastAt = Some now, hzSuppressedCount = 0\<rparr>)\<rparr>)
         else (None, c\<lparr>hzLogState := (hzLogState c)(key \<mapsto>
               state\<lparr>hzSuppressedCount := hzSuppressedCount state + 1\<rparr>)\<rparr>))"

definition recordRefusedLocked :: "hotZoneInput \<Rightarrow> hotZoneController \<Rightarrow> hotZoneController \<times> metric_event list" where
  "recordRefusedLocked inp c =
     (let es = when_on (hzMetricOn inp) [HotZoneEventAdd ''refused'']
      in if \<not> hzLogOn inp \<or> protectedZone c = [] then (c, es)
         else (snd (logRateLimitedLocked (hzLogNow inp) (''refused:'' @ protectedZone c) c), es))"

definition recordEventLocked :: "hotZoneInput \<Rightarrow> string \<Rightarrow> hotZoneController \<Rightarrow> hotZoneController \<times> metric_event list" where
  "recordEventLocked inp event c =
     (let es = when_on (hzMetricOn inp) [HotZoneEventAdd event]
      in if \<not> hzLogOn inp then (c, es) else (snd (logRateLimitedLocked (hzLogNow inp) event c), es))"

definition publishMetricsLocked :: "hotZoneInput \<Rightarrow> hotZoneSnapshot \<Rightarrow> hotZoneController \<Rightarrow> metric_event list" where
  "publishMetricsLocked inp snapshot c =
     (if protectedZone c = [] \<and> \<not> observeMode c \<and> candidateStreak c = 0 \<and> preTriggerBaseline c = 0
         \<and> currentGlobalAvg snapshot = 0 then []
      else when_on (hzMetricOn inp)
        [HotZoneObserveModeSet (observeMode c), HotZoneProtectedSet (protectedZone c \<noteq> []),
         HotZoneAvgExpensiveConcurrencySet (currentGlobalAvg snapshot),
         HotZoneBaselineConcurrencySet (preTriggerBaseline c), HotZoneCandidateStreakSet (candidateStreak c)])"

section \<open>Evaluation\<close>

text \<open>\<open>evaluateLocked\<close> in the order of the code: the pressure test and entering observe mode,
  leaving protection, leaving observe mode, and the candidate.\<close>

definition eval_observe :: "hotZoneInput \<Rightarrow> rat \<Rightarrow> hotZoneController \<Rightarrow> hotZoneController \<times> metric_event list" where
  "eval_observe inp avg c =
     (let c = c\<lparr>observeMode := True, preTriggerBaseline := lastNormalAvg c\<rparr>;
          c = (if preTriggerBaseline c \<le> 0 then c\<lparr>preTriggerBaseline := avg\<rparr> else c)
      in recordEventLocked inp ''observe_enter'' c)"

definition eval_protected :: "hotZoneInput \<Rightarrow> rat \<Rightarrow> hotZoneController \<Rightarrow> hotZoneController \<times> metric_event list" where
  "eval_protected inp avg c =
     (if avg \<le> f_mul (preTriggerBaseline c) hotZoneExitBaselineFactor
      then recordEventLocked inp ''protect_exit''
        (c\<lparr>observeMode := False, protectedZone := [], candidateZone := [], candidateStreak := 0,
           lastCandidateWindow := 0, lastNormalAvg := avg\<rparr>)
      else (c, []))"

definition eval_calm :: "hotZoneInput \<Rightarrow> rat \<Rightarrow> hotZoneController \<Rightarrow> hotZoneController \<times> metric_event list" where
  "eval_calm inp avg c =
     recordEventLocked inp ''observe_exit''
       (c\<lparr>observeMode := False, candidateZone := [], candidateStreak := 0, lastCandidateWindow := 0, lastNormalAvg := avg\<rparr>)"

definition eval_candidate ::
  "dnslib \<Rightarrow> hotZoneInput \<Rightarrow> hotZoneSnapshot \<Rightarrow> hotZoneController \<Rightarrow> hotZoneController \<times> metric_event list"
where
  "eval_candidate L inp snapshot c =
     (let candidate = selectCandidate L snapshot
      in if candidate = []
         then (c\<lparr>candidateZone := [], candidateStreak := 0, lastCandidateWindow := currentWindowStart snapshot\<rparr>, [])
         else
           let (c, es1) =
                 (if candidate \<noteq> candidateZone c
                  then recordEventLocked inp ''candidate_change''
                    (c\<lparr>candidateZone := candidate, candidateStreak := 1, lastCandidateWindow := currentWindowStart snapshot\<rparr>)
                  else if currentWindowStart snapshot \<noteq> lastCandidateWindow c
                  then recordEventLocked inp ''candidate_confirm''
                    (c\<lparr>candidateStreak := candidateStreak c + 1, lastCandidateWindow := currentWindowStart snapshot\<rparr>)
                  else (c, []));
               (c, es2) =
                 (if hotZoneProtectConfirmWindows \<le> candidateStreak c
                  then recordEventLocked inp ''protect_enter'' (c\<lparr>protectedZone := candidateZone c\<rparr>)
                  else (c, []))
           in (c, es1 @ es2))"

definition hz_pressure :: "hotZoneInput \<Rightarrow> rat \<Rightarrow> rat \<Rightarrow> bool" where
  "hz_pressure inp avg cpu =
     (f_mul hotZoneObserveConcurrencyFactor (f_of_int (max 1 (hzNumCPU inp))) \<le> avg
      \<and> hotZoneObserveCPUThreshold \<le> cpu)"

definition evaluateLocked :: "dnslib \<Rightarrow> hotZoneInput \<Rightarrow> hotZoneController \<Rightarrow> hotZoneController \<times> metric_event list" where
  "evaluateLocked L inp c =
     (let (snapshot, c) = snapshotLocked L (hzNow inp) c;
          avg = currentGlobalAvg snapshot;
          (cpu, sampler) = CPUUsage (hzCpuNow inp) (hzCpuStat inp) (hzCpu c);
          c = c\<lparr>hzCpu := sampler\<rparr>;
          pressure = hz_pressure inp avg cpu
      in if \<not> observeMode c \<and> \<not> pressure
         then let c = c\<lparr>lastNormalAvg := avg\<rparr> in (c, publishMetricsLocked inp snapshot c)
         else
           let (c, es1) = (if \<not> observeMode c then eval_observe inp avg c else (c, []));
               (c, es2) = (if protectedZone c \<noteq> [] then eval_protected inp avg c
                           else if \<not> pressure then eval_calm inp avg c
                           else eval_candidate L inp snapshot c)
           in (c, es1 @ es2 @ publishMetricsLocked inp snapshot c))"

definition maybeEvaluateLocked ::
  "dnslib \<Rightarrow> hotZoneInput \<Rightarrow> bool \<Rightarrow> hotZoneController \<Rightarrow> hotZoneController \<times> metric_event list"
where
  "maybeEvaluateLocked L inp rotated c =
     (if rotated \<or> lastEvalAt c = None \<or> hotZoneEvaluateInterval \<le> hzNow inp - the (lastEvalAt c)
      then let (c, es) = evaluateLocked L inp c in (c\<lparr>lastEvalAt := Some (hzNow inp)\<rparr>, es)
      else (c, []))"

section \<open>Entry points\<close>

definition TryEnter ::
  "dnslib \<Rightarrow> hotZoneInput \<Rightarrow> string \<Rightarrow> string \<Rightarrow> hotZoneController \<Rightarrow> (bool \<times> u64) \<times> hotZoneController \<times> metric_event list"
where
  "TryEnter L inp qname matchedForwardZone c =
     (let (rotated, c) = rotateLocked L (hzNow inp) c;
          (c, es) = maybeEvaluateLocked L inp rotated c;
          fqdn = Fqdn L qname
      in if protectedZone c \<noteq> [] \<and> IsSubDomain L (protectedZone c) fqdn
         then let (c, es') = recordRefusedLocked inp c in ((False, 0), c, es @ es')
         else let c = c\<lparr>nextID := nextID c + 1\<rparr>;
                  ticket = nextID c;
                  req = \<lparr>hz_id = ticket, hz_qname = fqdn,
                         hz_coarseKey = hotZoneCoarseKey L fqdn matchedForwardZone (baseSuffixes c),
                         hz_startedAt = hzNow inp, hz_accountedAt = hzNow inp\<rparr>
              in ((True, ticket), c\<lparr>active := AList.update ticket req (active c)\<rparr>, es))"

definition hz_Release :: "dnslib \<Rightarrow> hotZoneInput \<Rightarrow> u64 \<Rightarrow> hotZoneController \<Rightarrow> hotZoneController \<times> metric_event list" where
  "hz_Release L inp ticket c =
     (if ticket = 0 then (c, [])
      else let (rotated, c) = rotateLocked L (hzNow inp) c;
               c = (case map_of (active c) ticket of
                      None \<Rightarrow> c
                    | Some req \<Rightarrow> (addSampleToCurrentWindowLocked L req (hzNow inp) c)\<lparr>active := AList.delete ticket (active c)\<rparr>)
           in maybeEvaluateLocked L inp rotated c)"

section \<open>Lemmas\<close>

subsection \<open>What each operation leaves alone\<close>

lemma recordEventLocked_frame [frame, simp]:
  "fst (recordEventLocked inp e c) = c\<lparr>hzLogState := hzLogState (fst (recordEventLocked inp e c))\<rparr>"
  by (simp add: recordEventLocked_def logRateLimitedLocked_def Let_def)

lemma recordRefusedLocked_frame:
  "fst (recordRefusedLocked inp c) = c\<lparr>hzLogState := hzLogState (fst (recordRefusedLocked inp c))\<rparr>"
  by (simp add: recordRefusedLocked_def logRateLimitedLocked_def Let_def)

text \<open>What protection rests on.\<close>

definition hz_inv :: "hotZoneController \<Rightarrow> bool" where
  "hz_inv c \<longleftrightarrow> (protectedZone c \<noteq> [] \<longrightarrow>
     observeMode c \<and> protectedZone c = candidateZone c \<and> hotZoneProtectConfirmWindows \<le> candidateStreak c)"

lemma hz_inv_cong:
  assumes "observeMode c' = observeMode c" "protectedZone c' = protectedZone c"
    "candidateZone c' = candidateZone c" "candidateStreak c' = candidateStreak c"
  shows "hz_inv c' = hz_inv c"
  using assms by (simp add: hz_inv_def)

lemma ensure_frame [simp]:
  "observeMode (ensureCurrentWindowLocked now c) = observeMode c"
  "protectedZone (ensureCurrentWindowLocked now c) = protectedZone c"
  "candidateZone (ensureCurrentWindowLocked now c) = candidateZone c"
  "candidateStreak (ensureCurrentWindowLocked now c) = candidateStreak c"
  "active (ensureCurrentWindowLocked now c) = active c"
  "windows (ensureCurrentWindowLocked now c) \<noteq> []"
  by (simp_all add: ensureCurrentWindowLocked_def Let_def)

lemma rotate_once_frame [simp]:
  "observeMode (rotate_once L c) = observeMode c"
  "protectedZone (rotate_once L c) = protectedZone c"
  "candidateZone (rotate_once L c) = candidateZone c"
  "candidateStreak (rotate_once L c) = candidateStreak c"
  "map fst (active (rotate_once L c)) = map fst (active c)"
  by (simp_all add: rotate_once_def Let_def advanceWindowLocked_def set_current_def comp_def case_prod_beta)

lemma rotate_loop_frame:
  "hz_inv (snd (rotate_loop L now r c)) = hz_inv c \<and> map fst (active (snd (rotate_loop L now r c))) = map fst (active c)"
proof (induction L now r c rule: rotate_loop.induct)
  case (1 L now r c)
  show ?case
  proof (cases "hotZoneWindowDuration \<le> now - win_start (last (windows c))")
    case True
    then show ?thesis using "1.IH" hz_inv_cong [of "rotate_once L c" c]
      by (subst (1 2) rotate_loop.simps) simp
  next
    case False
    then show ?thesis by (subst (1 2) rotate_loop.simps) simp
  qed
qed

lemma rotateLocked_frame:
  "hz_inv (snd (rotateLocked L now c)) = hz_inv c"
  "map fst (active (snd (rotateLocked L now c))) = map fst (active c)"
  using rotate_loop_frame [of L now False "ensureCurrentWindowLocked now c"]
    hz_inv_cong [of "ensureCurrentWindowLocked now c" c]
  by (simp_all add: rotateLocked_def)

lemma snapshotLocked_frame [simp]:
  "observeMode (snd (snapshotLocked L now c)) = observeMode c"
  "protectedZone (snd (snapshotLocked L now c)) = protectedZone c"
  "candidateZone (snd (snapshotLocked L now c)) = candidateZone c"
  "candidateStreak (snd (snapshotLocked L now c)) = candidateStreak c"
  "active (snd (snapshotLocked L now c)) = active c"
  by (simp_all add: snapshotLocked_def Let_def set_current_def)

lemma recordEventLocked_simps [simp]:
  "observeMode (fst (recordEventLocked inp e c)) = observeMode c"
  "protectedZone (fst (recordEventLocked inp e c)) = protectedZone c"
  "candidateZone (fst (recordEventLocked inp e c)) = candidateZone c"
  "candidateStreak (fst (recordEventLocked inp e c)) = candidateStreak c"
  "active (fst (recordEventLocked inp e c)) = active c"
  by (simp_all add: recordEventLocked_def logRateLimitedLocked_def Let_def)

lemma recordRefusedLocked_simps [simp]:
  "observeMode (fst (recordRefusedLocked inp c)) = observeMode c"
  "protectedZone (fst (recordRefusedLocked inp c)) = protectedZone c"
  "candidateZone (fst (recordRefusedLocked inp c)) = candidateZone c"
  "candidateStreak (fst (recordRefusedLocked inp c)) = candidateStreak c"
  "active (fst (recordRefusedLocked inp c)) = active c"
  by (simp_all add: recordRefusedLocked_def logRateLimitedLocked_def Let_def)

declare recordEventLocked_frame [simp del]

subsection \<open>Evaluation keeps the invariant\<close>

lemma eval_parts:
  "hz_inv c \<Longrightarrow> protectedZone c \<noteq> [] \<Longrightarrow> hz_inv (fst (eval_protected inp avg c))"
  "protectedZone c = [] \<Longrightarrow> hz_inv (fst (eval_calm inp avg c))"
  "protectedZone c = [] \<Longrightarrow> observeMode c \<Longrightarrow> hz_inv (fst (eval_candidate L inp s c))"
  "protectedZone (fst (eval_observe inp avg c)) = protectedZone c" "observeMode (fst (eval_observe inp avg c))"
  "active (fst (eval_protected inp avg c)) = active c" "active (fst (eval_calm inp avg c)) = active c"
  "active (fst (eval_candidate L inp s c)) = active c" "active (fst (eval_observe inp avg c)) = active c"
  by (simp_all add: hz_inv_def eval_protected_def eval_calm_def eval_candidate_def eval_observe_def
      Let_def case_prod_beta hotZoneProtectConfirmWindows_def)

lemma evaluateLocked_inv: "hz_inv c \<Longrightarrow> hz_inv (fst (evaluateLocked L inp c))"
proof -
  assume inv: "hz_inv c"
  define sn c1 where "sn = fst (snapshotLocked L (hzNow inp) c)" and "c1 = snd (snapshotLocked L (hzNow inp) c)"
  define c2 where "c2 = c1\<lparr>hzCpu := snd (CPUUsage (hzCpuNow inp) (hzCpuStat inp) (hzCpu c1))\<rparr>"
  define avg pr where "avg = currentGlobalAvg sn" and "pr = hz_pressure inp avg (fst (CPUUsage (hzCpuNow inp) (hzCpuStat inp) (hzCpu c1)))"
  have om: "observeMode c1 = observeMode c2" by (simp add: c2_def)
  define c3 where "c3 = (if observeMode c2 then c2 else fst (eval_observe inp avg c2))"
  have e: "fst (evaluateLocked L inp c) = (if \<not> observeMode c2 \<and> \<not> pr then c2\<lparr>lastNormalAvg := avg\<rparr>
      else if protectedZone c3 \<noteq> [] then fst (eval_protected inp avg c3)
      else if \<not> pr then fst (eval_calm inp avg c3) else fst (eval_candidate L inp sn c3))"
    by (simp add: evaluateLocked_def case_prod_beta Let_def sn_def [symmetric] c1_def [symmetric]
        c2_def [symmetric] avg_def [symmetric] pr_def [symmetric] c3_def om)
  have i2: "hz_inv c2" using inv hz_inv_cong [of c2 c] by (simp add: c2_def c1_def)
  have o3: "observeMode c3" by (simp add: c3_def eval_parts)
  have i3: "hz_inv c3" using i2 by (auto simp: c3_def hz_inv_def eval_parts)
  have "hz_inv (c2\<lparr>lastNormalAvg := avg\<rparr>)" using i2 hz_inv_cong [of "c2\<lparr>lastNormalAvg := avg\<rparr>" c2] by simp
  then show ?thesis unfolding e using i3 o3 by (simp add: eval_parts)
qed

lemma evaluateLocked_active: "active (fst (evaluateLocked L inp c)) = active c"
  by (simp add: evaluateLocked_def case_prod_beta Let_def eval_parts)

lemma maybeEvaluateLocked_inv: "hz_inv c \<Longrightarrow> hz_inv (fst (maybeEvaluateLocked L inp r c))"
  using evaluateLocked_inv [of c L inp] hz_inv_cong [of "fst (evaluateLocked L inp c)\<lparr>lastEvalAt := Some (hzNow inp)\<rparr>"]
  by (simp add: maybeEvaluateLocked_def case_prod_beta)

lemma maybeEvaluateLocked_active: "active (fst (maybeEvaluateLocked L inp r c)) = active c"
  by (simp add: maybeEvaluateLocked_def case_prod_beta evaluateLocked_active)

lemma newHotZoneController_inv: "hz_inv (newHotZoneController L srt suffixes)"
  by (simp add: hz_inv_def newHotZoneController_def)

lemma addSample_frame [simp]:
  "observeMode (addSampleToCurrentWindowLocked L req now c) = observeMode c"
  "protectedZone (addSampleToCurrentWindowLocked L req now c) = protectedZone c"
  "candidateZone (addSampleToCurrentWindowLocked L req now c) = candidateZone c"
  "candidateStreak (addSampleToCurrentWindowLocked L req now c) = candidateStreak c"
  by (simp_all add: addSampleToCurrentWindowLocked_def Let_def set_current_def)

lemma TryEnter_inv: "hz_inv c \<Longrightarrow> hz_inv (fst (snd (TryEnter L inp q z c)))"
proof -
  assume "hz_inv c"
  define c1 where "c1 = fst (maybeEvaluateLocked L inp (fst (rotateLocked L (hzNow inp) c)) (snd (rotateLocked L (hzNow inp) c)))"
  have "hz_inv c1" unfolding c1_def using \<open>hz_inv c\<close> by (simp add: maybeEvaluateLocked_inv rotateLocked_frame)
  then show ?thesis
    by (simp add: TryEnter_def case_prod_beta Let_def c1_def [symmetric] hz_inv_def)
qed

lemma hz_Release_inv: "hz_inv c \<Longrightarrow> hz_inv (fst (hz_Release L inp t c))"
proof -
  assume "hz_inv c"
  define c1 where "c1 = snd (rotateLocked L (hzNow inp) c)"
  have i: "hz_inv c1" unfolding c1_def using \<open>hz_inv c\<close> by (simp add: rotateLocked_frame)
  show ?thesis
  proof (cases "map_of (active c1) t")
    case None
    then show ?thesis using i \<open>hz_inv c\<close>
      by (simp add: hz_Release_def case_prod_beta Let_def c1_def [symmetric] maybeEvaluateLocked_inv)
  next
    case (Some req)
    have "hz_inv ((addSampleToCurrentWindowLocked L req (hzNow inp) c1)\<lparr>active := AList.delete t (active c1)\<rparr>)"
      using i by (simp add: hz_inv_def)
    then show ?thesis using Some \<open>hz_inv c\<close>
      by (simp add: hz_Release_def case_prod_beta Let_def c1_def [symmetric] maybeEvaluateLocked_inv)
  qed
qed

subsection \<open>The candidate does not depend on the order of the maps\<close>

lemma cooler_trans: "cooler a b \<Longrightarrow> cooler b c \<Longrightarrow> cooler a c"
  by (auto simp: cooler_def intro: str_less_trans)

lemma cooler_asym: "cooler a b \<Longrightarrow> \<not> cooler b a"
  by (auto simp: cooler_def dest: str_less_asym)

lemma cooler_linear: "cooler a b \<or> a = b \<or> cooler b a"
  using str_less_linear [of "fst a" "fst b"] by (auto simp: cooler_def prod_eq_iff)

lemma hotter_commute: "hotter x \<circ> hotter y = hotter y \<circ> hotter x"
proof (cases "x = y")
  case False
  then have "cooler x y \<or> cooler y x" "\<not> (cooler x y \<and> cooler y x)" using cooler_linear cooler_asym by blast+
  then have "hotter x (hotter y b) = hotter y (hotter x b)" for b
    using cooler_trans [of b x y] cooler_trans [of b y x] cooler_linear [of b x] cooler_linear [of b y]
      cooler_trans [of x b y] cooler_trans [of y b x] cooler_asym [of x b] cooler_asym [of y b]
    by (cases "cooler b x"; cases "cooler b y"; cases "cooler x y"; cases "cooler y x") (auto simp: hotter_def)
  then show ?thesis by (simp add: fun_eq_iff)
qed simp

lemma hottest_of_mset: "mset m = mset m' \<Longrightarrow> hottest_of m = hottest_of m'"
  unfolding hottest_of_def by (rule fun_cong [OF fold_multiset_equiv]) (auto simp: hotter_commute)

lemma fold_hotter_bound:
  "snd best \<le> snd (fold hotter m best)" "kd \<in> set m \<Longrightarrow> snd kd \<le> snd (fold hotter m best)"
  "fold hotter m best \<in> insert best (set m)"
proof (induction m arbitrary: best)
  case (Cons x m)
  {
    case 1
    show ?case using Cons.IH(1) [of "hotter x best"] by (auto simp: hotter_def cooler_def split: if_splits)
  next
    case 2
    then show ?case using Cons.IH(1) [of "hotter x best"] Cons.IH(2) [of "hotter x best"]
      by (auto simp: hotter_def cooler_def split: if_splits)
  next
    case 3
    show ?case using Cons.IH(3) [of "hotter x best"] by (auto simp: hotter_def cooler_def split: if_splits)
  }
qed simp_all

subsection \<open>Runs\<close>

datatype hz_call = Enter hotZoneInput string string | Leave hotZoneInput u64

primrec hz_step :: "dnslib \<Rightarrow> hz_call \<Rightarrow> hotZoneController \<Rightarrow> hotZoneController" where
  "hz_step L (Enter inp q z) c = fst (snd (TryEnter L inp q z c))"
| "hz_step L (Leave inp t) c = fst (hz_Release L inp t c)"

lemma hz_run_inv: "hz_inv c \<Longrightarrow> hz_inv (fold (hz_step L) calls c)"
proof (induction calls arbitrary: c)
  case (Cons call calls)
  then show ?case by (cases call) (simp_all add: TryEnter_inv hz_Release_inv)
qed simp

interpretation hzlog: rate_log "\<lambda>now. logRateLimitedLocked now key"
    "\<lambda>c. case hzLogState c key of None \<Rightarrow> None | Some st \<Rightarrow> hzLastAt st"
    "\<lambda>c. case hzLogState c key of None \<Rightarrow> 0 | Some st \<Rightarrow> hzSuppressedCount st" hotZoneLogInterval for key
  by unfold_locales (simp_all add: logRateLimitedLocked_def Let_def split: option.splits)

lemma TryEnter_refused:
  assumes "hz_inv c" "TryEnter L inp q z c = ((False, t), c', es)"
  shows "hz_inv c' \<and> protectedZone c' \<noteq> [] \<and> IsSubDomain L (protectedZone c') (Fqdn L q)"
proof -
  have "hz_inv (fst (snd (TryEnter L inp q z c)))" using assms(1) by (rule TryEnter_inv)
  moreover have "protectedZone (fst (snd (TryEnter L inp q z c))) \<noteq> []
      \<and> IsSubDomain L (protectedZone (fst (snd (TryEnter L inp q z c)))) (Fqdn L q)"
    using assms(2) by (auto simp: TryEnter_def case_prod_beta Let_def split: if_splits)
  ultimately show ?thesis using assms(2) by simp
qed

lemma TryEnter_granted:
  assumes "TryEnter L inp q z c = ((True, t), c', es)"
  shows "t \<in> set (map fst (active c'))"
proof -
  have "t \<in> set (map fst (AList.update t r al))" for r and al :: "(u64 \<times> hotZoneActiveRequest) list"
    by (simp only: update_keys) simp
  then show ?thesis using assms
    by (auto simp only: TryEnter_def case_prod_beta Let_def prod.inject split: if_splits) simp_all
qed

section \<open>Properties\<close>


definition hz_snapshot_example :: "durations \<Rightarrow> hotZoneSnapshot" where
  "hz_snapshot_example m = \<lparr>currentWindowStart = 0, currentElapsed = 1, currentGlobalAvg = 0,
     aggregatedGlobal = 0, aggregatedCoarse = m, aggregatedChild = []\<rparr>"

definition hz_one_active :: hotZoneController where
  "hz_one_active = (newHotZoneController ref_dnslib (\<lambda>xs. xs) [])\<lparr>windows := [newHotZoneWindow 0],
     active := [(1, \<lparr>hz_id = 1, hz_qname = ''a.b.com.'', hz_coarseKey = ''b.com.'', hz_startedAt = 0, hz_accountedAt = 0\<rparr>)]\<rparr>"

lemma hz_suffix_example:
  "hotZoneMatchedBaseSuffix ref_dnslib ''b.com.''
     (normalizeHotZoneBaseSuffixes ref_dnslib (go_insertion_sort suffix_less) []) = ''com.''"
  by code_simp

text \<open>
  C25. The choice of the candidate zone does not depend on the order in which Go visits its maps:
  two snapshots whose maps have the same entries yield the same candidate.
\<close>

theorem select_candidate_order_irrelevant:
  assumes "mset (aggregatedCoarse s) = mset (aggregatedCoarse s')"
    "\<And>k. rel_option (\<lambda>m m'. mset m = mset m') (map_of (aggregatedChild s) k) (map_of (aggregatedChild s') k)"
  shows "selectCandidate L s = selectCandidate L s'"
proof -
  have "hottest_of (filter P (aggregatedCoarse s)) = hottest_of (filter P (aggregatedCoarse s'))" for P
    using assms(1) by (intro hottest_of_mset) (simp add: mset_filter)
  moreover have "hottest_of (case map_of (aggregatedChild s) k of None \<Rightarrow> [] | Some m \<Rightarrow> m)
      = hottest_of (case map_of (aggregatedChild s') k of None \<Rightarrow> [] | Some m \<Rightarrow> m)" for k
    using assms(2) [of k] by (auto simp: option_rel_Some1 option_rel_Some2 intro: hottest_of_mset split: option.splits)
  ultimately show ?thesis by (simp add: selectCandidate_def case_prod_beta Let_def)
qed

theorem select_candidate_order_irrelevant_witness:
  "selectCandidate ref_dnslib (hz_snapshot_example [(''a.com.'', 7), (''b.com.'', 9)])
     = selectCandidate ref_dnslib (hz_snapshot_example [(''b.com.'', 9), (''a.com.'', 7)])"
  by (rule select_candidate_order_irrelevant) (simp_all add: hz_snapshot_example_def add_mset_commute)

text \<open>
  Evaluating twice counts an active request twice: while one request is active in the current
  window, the snapshot at \<open>t1\<close> leaves what it added in the live per-zone map, so the snapshot at
  \<open>t2\<close> reports the time up to \<open>t1\<close> once more, although the global occupancy counts it once.
\<close>

lemma snapshot_counts_twice:
  assumes "windows c = [w]" "active c = [(i, req)]" "hz_accountedAt req < t1" "t1 \<le> t2" "coarseOccupancy w = []"
  shows "dur_of (aggregatedCoarse (fst (snapshotLocked L t2 (snd (snapshotLocked L t1 c))))) (hz_coarseKey req)
      = (t1 - hz_accountedAt req) + (t2 - hz_accountedAt req)
    \<and> aggregatedGlobal (fst (snapshotLocked L t2 (snd (snapshotLocked L t1 c))))
      = globalOccupancy w + (t2 - hz_accountedAt req)"
proof -
  have m: "coarseOccupancy (add_to_maps L req d v) = dur_add (hz_coarseKey req) d (coarseOccupancy v)"
    "globalOccupancy (add_to_maps L req d v) = globalOccupancy v" for d v
    by (simp_all add: add_to_maps_def Let_def)
  have e: "ensureCurrentWindowLocked t c' = c'" if "windows c' \<noteq> []" for t c'
    using that by (simp add: ensureCurrentWindowLocked_def)
  let ?c1 = "snd (snapshotLocked L t1 c)"
  have c1: "?c1 = c\<lparr>windows := [add_to_maps L req (t1 - hz_accountedAt req) w]\<rparr>"
    using assms by (simp add: snapshotLocked_def Let_def e pending_requests_def set_current_def)
  have "aggregatedCoarse (fst (snapshotLocked L t2 ?c1))
      = merge_durations (dur_add (hz_coarseKey req) (t2 - hz_accountedAt req) (dur_add (hz_coarseKey req) (t1 - hz_accountedAt req) [])) []"
    "aggregatedGlobal (fst (snapshotLocked L t2 ?c1)) = globalOccupancy w + (t2 - hz_accountedAt req)"
    using assms unfolding c1 by (simp_all add: snapshotLocked_def Let_def e pending_requests_def m)
  then show ?thesis by (simp add: dur_of_def dur_add_def merge_durations_def)
qed

lemma snapshot_counts_twice_example:
  "dur_of (aggregatedCoarse (fst (snapshotLocked ref_dnslib 3 (snd (snapshotLocked ref_dnslib 2 hz_one_active))))) ''b.com.'' = 5"
  using snapshot_counts_twice [of hz_one_active "newHotZoneWindow 0" 1 "\<lparr>hz_id = 1, hz_qname = ''a.b.com.'', hz_coarseKey = ''b.com.'', hz_startedAt = 0, hz_accountedAt = 0\<rparr>" 2 3 ref_dnslib]
  by (simp add: hz_one_active_def newHotZoneWindow_def)

text \<open>
  The base suffix of a name is its longest one: whatever routine sorts the suffixes, the
  suffix found by the linear scan contains the name, and no configured or curated suffix that
  contains the name is longer.
\<close>

lemma base_suffix_longest:
  assumes "sort_slice_ok suffix_less srt"
    "hotZoneMatchedBaseSuffix L qname (normalizeHotZoneBaseSuffixes L srt extra) = s" "s \<noteq> []"
  shows "IsSubDomain L s qname \<and> (\<forall>s' \<in> set (normalizeHotZoneBaseSuffixes L srt extra).
     IsSubDomain L s' qname \<longrightarrow> length s' \<le> length s)"
proof -
  obtain raw where n: "normalizeHotZoneBaseSuffixes L srt extra = srt raw"
    by (simp add: normalizeHotZoneBaseSuffixes_def Let_def)
  have st: "sorted_wrt (\<lambda>a b. \<not> suffix_less b a) (srt raw)" using assms(1) by (simp add: sort_slice_ok_def)
  from assms(2,3) n have f: "find (\<lambda>x. IsSubDomain L x qname) (srt raw) = Some s"
    by (auto simp: hotZoneMatchedBaseSuffix_def split: option.splits)
  then obtain i where i: "i < length (srt raw)" "IsSubDomain L (srt raw ! i) qname" "s = srt raw ! i"
    "\<And>j. j < i \<Longrightarrow> \<not> IsSubDomain L (srt raw ! j) qname"
    by (auto simp: find_Some_iff)
  have "length s' \<le> length s" if s': "s' \<in> set (srt raw)" "IsSubDomain L s' qname" for s'
  proof -
    obtain j where j: "j < length (srt raw)" "s' = srt raw ! j" using s'(1) by (auto simp: in_set_conv_nth)
    with i(4) s'(2) have "i \<le> j" by (metis not_le)
    show ?thesis
    proof (cases "i = j")
      case False
      with \<open>i \<le> j\<close> have "\<not> suffix_less (srt raw ! j) (srt raw ! i)"
        using sorted_wrt_nth_less [OF st, of i j] j by simp
      then show ?thesis using i(3) j(2) by (auto simp: suffix_less_def split: if_splits)
    qed (use i(3) j(2) in simp)
  qed
  with i n show ?thesis by auto
qed

lemma suffix_sort_ok: "sort_slice_ok suffix_less (go_insertion_sort suffix_less)"
proof (rule go_insertion_sort_ok)
  fix a b c :: string
  assume "\<not> suffix_less b a" "\<not> suffix_less c b"
  then show "\<not> suffix_less c a"
    using str_less_linear [of a b] str_less_linear [of b c] str_less_trans [of c a b] str_less_trans [of c b a]
      str_less_trans [of b c a]
    by (auto simp: suffix_less_def split: if_splits)
next
  fix a b :: string
  assume "suffix_less a b"
  then show "\<not> suffix_less b a" by (auto simp: suffix_less_def dest: str_less_asym split: if_splits)
qed

lemma base_suffix_longest_example:
  "IsSubDomain ref_dnslib ''com.'' ''b.com.''"
  using base_suffix_longest [OF suffix_sort_ok, of ref_dnslib "''b.com.''" "[]" "''com.''"]
  by (simp add: hz_suffix_example)

end
