(* ===== verification/Expensive_Limiter.thy ===== *)
theory Expensive_Limiter
  imports Hot_Zone
begin

text \<open>
  The per-client limit on expensive requests (src/server/expensive_request_limiter.go).  The
  clients are spread over shards by a 32-bit FNV-1a hash, which keeps its width here.  A nil
  limiter or holder is None where the code passes one; the methods themselves take a limiter that
  exists.  \<open>inps 0\<close>, \<open>inps 1\<close> and so on are what successive critical sections read from
  outside.
\<close>

unbundle bit_operations_syntax

section \<open>Data\<close>

text \<open>\<open>netip.Addr\<close>: invalid, IPv4, or IPv6 with its zone.\<close>

datatype netip_addr = NoAddr | Addr4 "u8 \<times> u8 \<times> u8 \<times> u8" | Addr6 "u8 list" string

definition addr_IsValid :: "netip_addr \<Rightarrow> bool" where
  "addr_IsValid ip = (ip \<noteq> NoAddr)"

fun addr_As16 :: "netip_addr \<Rightarrow> u8 list" where
  "addr_As16 NoAddr = replicate 16 0"
| "addr_As16 (Addr4 (a, b, c, d)) = replicate 10 0 @ [255, 255, a, b, c, d]"
| "addr_As16 (Addr6 bs z) = bs"

fun addr_Unmap :: "netip_addr \<Rightarrow> netip_addr" where
  "addr_Unmap (Addr6 bs z) =
     (if take 12 bs = replicate 10 0 @ [255, 255] \<and> length bs = 16
      then Addr4 (bs ! 12, bs ! 13, bs ! 14, bs ! 15) else Addr6 bs z)"
| "addr_Unmap ip = ip"

definition addr_FromSlice :: "u8 list \<Rightarrow> netip_addr option" where
  "addr_FromSlice bs =
     (if length bs = 4 then Some (Addr4 (bs ! 0, bs ! 1, bs ! 2, bs ! 3))
      else if length bs = 16 then Some (Addr6 bs []) else None)"

definition ExpensiveRequestLimitModeDisabled :: string where "ExpensiveRequestLimitModeDisabled = ''disabled''"
definition ExpensiveRequestLimitModeEnabled :: string where "ExpensiveRequestLimitModeEnabled = ''enabled''"
definition expensiveRequestLogInterval :: int where "expensiveRequestLogInterval = 30 * 1000000000"

record ExpensiveRequestLimitConfig =
  cfgMode :: string
  cfgLimit :: int
  cfgHotZoneBaseSuffixes :: "string list"
  cfgObserveWouldRefuse :: bool

datatype expensivePath = expensivePathForward | expensivePathIterative

record clientState =
  inflight :: int
  cl_lastLogAt :: "int option"
  cl_suppressedCount :: int

record expensiveRequestLimiter =
  limMode :: string
  limLimit :: int
  shards :: "(netip_addr \<rightharpoonup> clientState) list"
  observeWouldRefuse :: bool
  limHotZone :: "hotZoneController option"

record expensiveRequestLimitEvent =
  le_shouldLog :: bool
  le_action :: string
  le_path :: expensivePath
  le_inflight :: int
  le_limit :: int
  le_suppressedCount :: int
  le_clientIP :: netip_addr

record expensiveRequestHolder =
  holderIP :: netip_addr
  held :: bool
  hotZoneHeld :: bool
  hotZoneTicket :: u64

section \<open>Operations\<close>

definition normalizeExpensiveRequestLimitConfig :: "int \<Rightarrow> ExpensiveRequestLimitConfig \<Rightarrow> ExpensiveRequestLimitConfig" where
  "normalizeExpensiveRequestLimitConfig numCPU cfg =
     (let cfg = (if cfgMode cfg = [] then cfg\<lparr>cfgMode := ExpensiveRequestLimitModeDisabled\<rparr> else cfg)
      in if cfgLimit cfg \<le> 0 then cfg\<lparr>cfgLimit := (if numCPU < 1 then 1 else numCPU)\<rparr> else cfg)"

definition newExpensiveRequestLimiter ::
  "dnslib \<Rightarrow> (string list \<Rightarrow> string list) \<Rightarrow> int \<Rightarrow> ExpensiveRequestLimitConfig \<Rightarrow> expensiveRequestLimiter option"
where
  "newExpensiveRequestLimiter L srt numCPU cfg =
     (let cfg = normalizeExpensiveRequestLimitConfig numCPU cfg
      in if cfgMode cfg \<noteq> ExpensiveRequestLimitModeEnabled then None
         else let shardCount = (if numCPU < 1 then 1 else numCPU)
              in Some \<lparr>limMode = cfgMode cfg, limLimit = cfgLimit cfg,
                       shards = replicate (nat shardCount) Map.empty,
                       observeWouldRefuse = cfgObserveWouldRefuse cfg,
                       limHotZone = Some (newHotZoneController L srt (cfgHotZoneBaseSuffixes cfg))\<rparr>)"

definition newExpensiveRequestHolder :: "netip_addr \<Rightarrow> expensiveRequestHolder" where
  "newExpensiveRequestHolder ip = \<lparr>holderIP = ip, held = False, hotZoneHeld = False, hotZoneTicket = 0\<rparr>"

definition fnv1a :: "u8 list \<Rightarrow> u32" where
  "fnv1a bs = fold (\<lambda>v hash. (hash XOR ucast v) * 16777619) bs 2166136261"

definition expensiveRequestShardIndex :: "netip_addr \<Rightarrow> nat \<Rightarrow> nat" where
  "expensiveRequestShardIndex ip shardCount =
     (if shardCount \<le> 1 then 0 else unat (fnv1a (addr_As16 ip) mod (of_nat shardCount :: u32)))"

definition shardFor :: "netip_addr \<Rightarrow> expensiveRequestLimiter \<Rightarrow> nat" where
  "shardFor ip l = expensiveRequestShardIndex ip (length (shards l))"

fun exp_metricLabel :: "expensivePath \<Rightarrow> string" where
  "exp_metricLabel expensivePathForward = ''forward''"
| "exp_metricLabel expensivePathIterative = ''iterative''"

definition buildExpensiveRequestLimitEvent ::
  "int \<Rightarrow> clientState \<Rightarrow> netip_addr \<Rightarrow> expensivePath \<Rightarrow> string \<Rightarrow> int \<Rightarrow> expensiveRequestLimitEvent \<times> clientState"
where
  "buildExpensiveRequestLimitEvent now state ip path action lmt =
     (let event = \<lparr>le_shouldLog = False, le_action = action, le_path = path, le_inflight = inflight state,
                   le_limit = lmt, le_suppressedCount = 0, le_clientIP = ip\<rparr>
      in if cl_lastLogAt state = None \<or> expensiveRequestLogInterval \<le> now - the (cl_lastLogAt state)
         then (event\<lparr>le_shouldLog := True, le_suppressedCount := cl_suppressedCount state\<rparr>,
               state\<lparr>cl_lastLogAt := Some now, cl_suppressedCount := 0\<rparr>)
         else (event, state\<lparr>cl_suppressedCount := cl_suppressedCount state + 1\<rparr>))"

definition recordExpensiveRequestLimitEvent :: "bool \<Rightarrow> expensiveRequestLimitEvent \<Rightarrow> metric_event list" where
  "recordExpensiveRequestLimitEvent on event =
     (if le_action event = [] then []
      else when_on on [ExpensiveRequestLimitAdd (le_action event) (exp_metricLabel (le_path event))])"

text \<open>Reading and writing the entry of one client in its shard.\<close>

definition client_entry :: "netip_addr \<Rightarrow> expensiveRequestLimiter \<Rightarrow> clientState option" where
  "client_entry ip l = (shards l ! shardFor ip l) ip"

definition set_client :: "netip_addr \<Rightarrow> clientState option \<Rightarrow> expensiveRequestLimiter \<Rightarrow> expensiveRequestLimiter" where
  "set_client ip st l =
     l\<lparr>shards := (shards l)[shardFor ip l := (shards l ! shardFor ip l)(ip := st)]\<rparr>"

definition lim_TryAcquire ::
  "hotZoneInput \<Rightarrow> netip_addr \<Rightarrow> expensivePath \<Rightarrow> expensiveRequestLimiter \<Rightarrow> bool \<times> expensiveRequestLimiter \<times> metric_event list"
where
  "lim_TryAcquire inp ip path l =
     (if limMode l \<noteq> ExpensiveRequestLimitModeEnabled \<or> \<not> addr_IsValid ip then (True, l, [])
      else let state = (case client_entry ip l of None \<Rightarrow> \<lparr>inflight = 0, cl_lastLogAt = None, cl_suppressedCount = 0\<rparr> | Some st \<Rightarrow> st)
           in if limLimit l \<le> inflight state
              then let action = (if observeWouldRefuse l then ''would_refuse'' else ''refused'');
                       allowed = observeWouldRefuse l;
                       (event, state) = buildExpensiveRequestLimitEvent (hzNow inp) state ip path action (limLimit l)
                   in (allowed, set_client ip (Some state) l, recordExpensiveRequestLimitEvent (hzMetricOn inp) event)
              else (True, set_client ip (Some (state\<lparr>inflight := inflight state + 1\<rparr>)) l, []))"

definition lim_Release :: "netip_addr \<Rightarrow> expensiveRequestLimiter \<Rightarrow> expensiveRequestLimiter" where
  "lim_Release ip l =
     (if limMode l \<noteq> ExpensiveRequestLimitModeEnabled \<or> \<not> addr_IsValid ip then l
      else case client_entry ip l of
        None \<Rightarrow> l
      | Some state \<Rightarrow>
          let state = (if 0 < inflight state then state\<lparr>inflight := inflight state - 1\<rparr> else state)
          in set_client ip (if inflight state = 0 then None else Some state) l)"

definition TryAcquireHotZone ::
  "dnslib \<Rightarrow> hotZoneInput \<Rightarrow> string \<Rightarrow> string \<Rightarrow> expensiveRequestLimiter \<Rightarrow> (bool \<times> u64) \<times> expensiveRequestLimiter \<times> metric_event list"
where
  "TryAcquireHotZone L inp qname fz l =
     (if limMode l \<noteq> ExpensiveRequestLimitModeEnabled then ((True, 0), l, [])
      else case limHotZone l of
        None \<Rightarrow> ((True, 0), l, [])
      | Some c \<Rightarrow> let (r, c, es) = TryEnter L inp qname fz c in (r, l\<lparr>limHotZone := Some c\<rparr>, es))"

definition ReleaseHotZone ::
  "dnslib \<Rightarrow> hotZoneInput \<Rightarrow> u64 \<Rightarrow> expensiveRequestLimiter \<Rightarrow> expensiveRequestLimiter \<times> metric_event list"
where
  "ReleaseHotZone L inp ticket l =
     (if limMode l \<noteq> ExpensiveRequestLimitModeEnabled then (l, [])
      else case limHotZone l of
        None \<Rightarrow> (l, [])
      | Some c \<Rightarrow> let (c, es) = hz_Release L inp ticket c in (l\<lparr>limHotZone := Some c\<rparr>, es))"

text \<open>\<open>TryAcquire\<close> of the holder when no other goroutine of the same request runs between its
  critical sections; the interleavings are below.\<close>

definition holder_TryAcquire ::
  "dnslib \<Rightarrow> (nat \<Rightarrow> hotZoneInput) \<Rightarrow> expensivePath \<Rightarrow> string \<Rightarrow> string \<Rightarrow> expensiveRequestHolder \<Rightarrow> expensiveRequestLimiter
     \<Rightarrow> bool \<times> expensiveRequestHolder \<times> expensiveRequestLimiter \<times> metric_event list"
where
  "holder_TryAcquire L inps path qname fz h l =
     (if \<not> addr_IsValid (holderIP h) then (True, h, l, [])
      else if held h \<or> hotZoneHeld h then (True, h, l, [])
      else let ((hotZoneAllowed, ticket), l, es1) = TryAcquireHotZone L (inps 0) qname fz l
           in if \<not> hotZoneAllowed then (False, h, l, es1)
              else let (allowed, l, es2) = lim_TryAcquire (inps 1) (holderIP h) path l
                   in if \<not> allowed
                      then let (l, es3) = ReleaseHotZone L (inps 2) ticket l in (False, h, l, es1 @ es2 @ es3)
                      else (True, h\<lparr>held := True, hotZoneHeld := True, hotZoneTicket := ticket\<rparr>, l, es1 @ es2))"

definition ReleaseIfHeld ::
  "dnslib \<Rightarrow> hotZoneInput \<Rightarrow> expensiveRequestHolder \<Rightarrow> expensiveRequestLimiter
     \<Rightarrow> expensiveRequestHolder \<times> expensiveRequestLimiter \<times> metric_event list"
where
  "ReleaseIfHeld L inp h l =
     (if \<not> addr_IsValid (holderIP h) then (h, l, [])
      else if \<not> held h \<and> \<not> hotZoneHeld h then (h, l, [])
      else let h' = h\<lparr>held := False, hotZoneHeld := False, hotZoneTicket := 0\<rparr>;
               l = lim_Release (holderIP h) l
           in if hotZoneHeld h
              then let (l, es) = ReleaseHotZone L inp (hotZoneTicket h) l in (h', l, es)
              else (h', l, []))"

text \<open>\<open>tryAcquireExpensiveRequest\<close> with what it finds in the context.\<close>

definition tryAcquireExpensiveRequest ::
  "dnslib \<Rightarrow> (nat \<Rightarrow> hotZoneInput) \<Rightarrow> expensivePath \<Rightarrow> string \<Rightarrow> string \<Rightarrow> expensiveRequestHolder option \<Rightarrow> expensiveRequestLimiter option
     \<Rightarrow> bool \<times> expensiveRequestHolder option \<times> expensiveRequestLimiter option \<times> metric_event list"
where
  "tryAcquireExpensiveRequest L inps path qname fz h l =
     (case (l, h) of
        (Some limiter, Some holder) \<Rightarrow>
          let (r, holder, limiter, es) = holder_TryAcquire L inps path qname fz holder limiter
          in (r, Some holder, Some limiter, es)
      | _ \<Rightarrow> (True, h, l, []))"

text \<open>The client address of a request: UDP and TCP addresses carry the raw bytes; anything else
  is parsed from its text, the result of which is the argument.\<close>

datatype net_addr = NilAddr | UDPAddr "u8 list" | TCPAddr "u8 list" | OtherAddr "netip_addr option"

fun extractClientIP :: "net_addr \<Rightarrow> netip_addr" where
  "extractClientIP NilAddr = NoAddr"
| "extractClientIP (UDPAddr bs) = (case addr_FromSlice bs of None \<Rightarrow> NoAddr | Some ip \<Rightarrow> addr_Unmap ip)"
| "extractClientIP (TCPAddr bs) = (case addr_FromSlice bs of None \<Rightarrow> NoAddr | Some ip \<Rightarrow> addr_Unmap ip)"
| "extractClientIP (OtherAddr p) = (case p of None \<Rightarrow> NoAddr | Some ip \<Rightarrow> addr_Unmap ip)"

definition buildRefusedResponse :: "dnslib \<Rightarrow> Msg \<Rightarrow> Msg" where
  "buildRefusedResponse L request = SetRcode L newMsg request RcodeRefused"

section \<open>Sharding is transparent\<close>

definition lim_wf :: "expensiveRequestLimiter \<Rightarrow> bool" where
  "lim_wf l \<longleftrightarrow> 0 < length (shards l) \<and> length (shards l) < 2 ^ 32"

definition inflight_of :: "netip_addr \<Rightarrow> expensiveRequestLimiter \<Rightarrow> int" where
  "inflight_of ip l = (case client_entry ip l of None \<Rightarrow> 0 | Some st \<Rightarrow> inflight st)"

lemma shard_index_bound: "0 < n \<Longrightarrow> n < 2 ^ 32 \<Longrightarrow> expensiveRequestShardIndex ip n < n"
  by (auto simp: expensiveRequestShardIndex_def unat_mod unat_of_nat intro!: mod_less_divisor)

lemma set_client_simps [simp]:
  "length (shards (set_client ip st l)) = length (shards l)"
  "shardFor jp (set_client ip st l) = shardFor jp l"
  "limMode (set_client ip st l) = limMode l" "limLimit (set_client ip st l) = limLimit l"
  "observeWouldRefuse (set_client ip st l) = observeWouldRefuse l"
  "limHotZone (set_client ip st l) = limHotZone l"
  "lim_wf (set_client ip st l) = lim_wf l"
  by (simp_all add: set_client_def shardFor_def lim_wf_def)

lemma client_entry_set [simp]:
  assumes "lim_wf l"
  shows "client_entry jp (set_client ip st l) = (if jp = ip then st else client_entry jp l)"
proof -
  have "shardFor ip l < length (shards l)" using assms by (simp add: shardFor_def lim_wf_def shard_index_bound)
  then show ?thesis
    by (simp add: client_entry_def) (auto simp: set_client_def nth_list_update)
qed

lemma client_entry_observe [simp]:
  "client_entry ip (l\<lparr>observeWouldRefuse := b\<rparr>) = client_entry ip l" "lim_wf (l\<lparr>observeWouldRefuse := b\<rparr>) = lim_wf l"
  by (simp_all add: client_entry_def shardFor_def lim_wf_def)

lemma client_entry_hot [simp]:
  "client_entry ip (l\<lparr>limHotZone := c\<rparr>) = client_entry ip l" "inflight_of ip (l\<lparr>limHotZone := c\<rparr>) = inflight_of ip l"
  "lim_wf (l\<lparr>limHotZone := c\<rparr>) = lim_wf l"
  by (simp_all add: client_entry_def shardFor_def inflight_of_def lim_wf_def)

text \<open>One client of an enabled limiter that refuses for real.\<close>

definition lim_ok :: "netip_addr \<Rightarrow> expensiveRequestLimiter \<Rightarrow> bool" where
  "lim_ok ip l \<longleftrightarrow> lim_wf l \<and> limMode l = ExpensiveRequestLimitModeEnabled \<and> \<not> observeWouldRefuse l
     \<and> addr_IsValid ip \<and> 1 \<le> limLimit l \<and> 0 \<le> inflight_of ip l"

lemma build_inflight [simp]:
  "inflight (snd (buildExpensiveRequestLimitEvent now st ip p a lmt)) = inflight st"
  by (simp add: buildExpensiveRequestLimitEvent_def Let_def)

lemma lim_TryAcquire_ok:
  assumes "lim_ok ip l"
  shows "fst (lim_TryAcquire inp ip path l) \<longleftrightarrow> inflight_of ip l < limLimit l"
    "inflight_of ip (fst (snd (lim_TryAcquire inp ip path l))) = inflight_of ip l + (if inflight_of ip l < limLimit l then 1 else 0)"
    "limLimit (fst (snd (lim_TryAcquire inp ip path l))) = limLimit l"
    "lim_ok ip (fst (snd (lim_TryAcquire inp ip path l)))"
  using assms
  by (auto simp: lim_TryAcquire_def lim_ok_def inflight_of_def case_prod_beta Let_def split: option.splits)

lemma lim_Release_ok:
  assumes "lim_ok ip l"
  shows "inflight_of ip (lim_Release ip l) = max 0 (inflight_of ip l - 1)"
    "limLimit (lim_Release ip l) = limLimit l" "lim_ok ip (lim_Release ip l)"
  using assms
  by (auto simp: lim_Release_def lim_ok_def inflight_of_def Let_def split: option.splits)

interpretation climit: slot_gate "\<lambda>(inp, path) l. (fst (lim_TryAcquire inp ip path l), fst (snd (lim_TryAcquire inp ip path l)))"
    "\<lambda>_. lim_Release ip" "inflight_of ip" limLimit "lim_ok ip" for ip
  by unfold_locales
    (auto simp: lim_TryAcquire_ok lim_Release_ok case_prod_beta, simp add: lim_ok_def)

text \<open>The log of one client, as long as its entry lives.\<close>

definition client_emit :: "netip_addr \<Rightarrow> expensivePath \<Rightarrow> string \<Rightarrow> int \<Rightarrow> int \<Rightarrow> clientState \<Rightarrow> int option \<times> clientState" where
  "client_emit ip path action lmt now st =
     (let (e, st') = buildExpensiveRequestLimitEvent now st ip path action lmt
      in (if le_shouldLog e then Some (le_suppressedCount e) else None, st'))"

interpretation climlog: rate_log "client_emit ip path action lmt" cl_lastLogAt cl_suppressedCount expensiveRequestLogInterval
  for ip path action lmt
  by unfold_locales (simp_all add: client_emit_def buildExpensiveRequestLimitEvent_def Let_def)

section \<open>Interleavings\<close>

text \<open>
  The name-server workers of one request share its holder.  \<open>TryAcquire\<close> has five critical
  sections; between them other workers run.  \<open>htask\<close> is where a worker stands, and
  \<open>holder_steps\<close> lets any of them take its next section.
\<close>

datatype htask = HStart | HChecked | HHot u64 | is_HBoth: HBoth u64 | HRefused u64 | is_HUndo: HUndo u64 | HDone bool

inductive holder_steps ::
  "dnslib \<Rightarrow> netip_addr \<Rightarrow> expensiveRequestLimiter \<Rightarrow> nat \<Rightarrow> htask list \<Rightarrow> expensiveRequestHolder \<Rightarrow> expensiveRequestLimiter \<Rightarrow> bool"
  for L ip l0 n
where
  start: "holder_steps L ip l0 n (replicate n HStart) (newExpensiveRequestHolder ip) l0"
| check_held: "holder_steps L ip l0 n ts h l \<Longrightarrow> i < n \<Longrightarrow> ts ! i = HStart \<Longrightarrow> held h \<or> hotZoneHeld h \<Longrightarrow>
    holder_steps L ip l0 n (ts[i := HDone True]) h l"
| check_free: "holder_steps L ip l0 n ts h l \<Longrightarrow> i < n \<Longrightarrow> ts ! i = HStart \<Longrightarrow> \<not> (held h \<or> hotZoneHeld h) \<Longrightarrow>
    holder_steps L ip l0 n (ts[i := HChecked]) h l"
| hot_refused: "holder_steps L ip l0 n ts h l \<Longrightarrow> i < n \<Longrightarrow> ts ! i = HChecked \<Longrightarrow>
    TryAcquireHotZone L inp q z l = ((False, t), l', es) \<Longrightarrow> holder_steps L ip l0 n (ts[i := HDone False]) h l'"
| hot_granted: "holder_steps L ip l0 n ts h l \<Longrightarrow> i < n \<Longrightarrow> ts ! i = HChecked \<Longrightarrow>
    TryAcquireHotZone L inp q z l = ((True, t), l', es) \<Longrightarrow> holder_steps L ip l0 n (ts[i := HHot t]) h l'"
| lim_refused: "holder_steps L ip l0 n ts h l \<Longrightarrow> i < n \<Longrightarrow> ts ! i = HHot t \<Longrightarrow>
    lim_TryAcquire inp ip path l = (False, l', es) \<Longrightarrow> holder_steps L ip l0 n (ts[i := HRefused t]) h l'"
| lim_granted: "holder_steps L ip l0 n ts h l \<Longrightarrow> i < n \<Longrightarrow> ts ! i = HHot t \<Longrightarrow>
    lim_TryAcquire inp ip path l = (True, l', es) \<Longrightarrow> holder_steps L ip l0 n (ts[i := HBoth t]) h l'"
| refused_undo: "holder_steps L ip l0 n ts h l \<Longrightarrow> i < n \<Longrightarrow> ts ! i = HRefused t \<Longrightarrow>
    ReleaseHotZone L inp t l = (l', es) \<Longrightarrow> holder_steps L ip l0 n (ts[i := HDone False]) h l'"
| commit: "holder_steps L ip l0 n ts h l \<Longrightarrow> i < n \<Longrightarrow> ts ! i = HBoth t \<Longrightarrow> \<not> (held h \<or> hotZoneHeld h) \<Longrightarrow>
    holder_steps L ip l0 n (ts[i := HDone True]) (h\<lparr>held := True, hotZoneHeld := True, hotZoneTicket := t\<rparr>) l"
| late_undo: "holder_steps L ip l0 n ts h l \<Longrightarrow> i < n \<Longrightarrow> ts ! i = HBoth t \<Longrightarrow> held h \<or> hotZoneHeld h \<Longrightarrow>
    holder_steps L ip l0 n (ts[i := HUndo t]) h (lim_Release ip l)"
| late_done: "holder_steps L ip l0 n ts h l \<Longrightarrow> i < n \<Longrightarrow> ts ! i = HUndo t \<Longrightarrow>
    ReleaseHotZone L inp t l = (l', es) \<Longrightarrow> holder_steps L ip l0 n (ts[i := HDone True]) h l'"

definition owning :: "htask list \<Rightarrow> nat" where
  "owning ts = length (filter is_HBoth ts)"

lemma owning_update:
  assumes "i < length ts"
  shows "int (owning (ts[i := t])) = int (owning ts) - (if is_HBoth (ts ! i) then 1 else 0) + (if is_HBoth t then 1 else 0)"
  using assms unfolding owning_def
proof (induction ts arbitrary: i)
  case (Cons a ts)
  show ?case
  proof (cases i)
    case (Suc j)
    then show ?thesis using Cons.IH [of j] Cons.prems by (simp split: if_splits)
  qed simp
qed simp

lemma hot_keeps_client:
  "inflight_of ip (fst (snd (TryAcquireHotZone L inp q z l))) = inflight_of ip l"
  "lim_ok ip (fst (snd (TryAcquireHotZone L inp q z l))) = lim_ok ip l"
  "inflight_of ip (fst (ReleaseHotZone L inp t l)) = inflight_of ip l"
  "lim_ok ip (fst (ReleaseHotZone L inp t l)) = lim_ok ip l"
  by (simp_all add: TryAcquireHotZone_def ReleaseHotZone_def case_prod_beta lim_ok_def split: option.splits)

definition holder_inv :: "netip_addr \<Rightarrow> expensiveRequestLimiter \<Rightarrow> nat \<Rightarrow> htask list \<Rightarrow> expensiveRequestHolder \<Rightarrow> expensiveRequestLimiter \<Rightarrow> bool" where
  "holder_inv ip l0 n ts h l \<longleftrightarrow> length ts = n \<and> lim_ok ip l \<and> holderIP h = ip \<and> (held h \<longleftrightarrow> hotZoneHeld h)
     \<and> inflight_of ip l = inflight_of ip l0 + int (owning ts) + (if held h then 1 else 0)
     \<and> (\<forall>i < n. ts ! i = HDone True \<or> is_HUndo (ts ! i) \<longrightarrow> held h)"

lemma holder_steps_inv:
  assumes "holder_steps L ip l0 n ts h l" "lim_ok ip l0"
  shows "holder_inv ip l0 n ts h l"
  using assms(1)
proof (induction rule: holder_steps.induct)
  case start
  then show ?case using assms(2) by (simp add: holder_inv_def newExpensiveRequestHolder_def owning_def)
next
  case (hot_refused ts h l i inp q z t l' es)
  then show ?case using hot_keeps_client(1,2) [of ip L inp q z l]
    by (auto simp: holder_inv_def owning_update nth_list_update)
next
  case (hot_granted ts h l i inp q z t l' es)
  then show ?case using hot_keeps_client(1,2) [of ip L inp q z l]
    by (auto simp: holder_inv_def owning_update nth_list_update)
next
  case (lim_refused ts h l i t inp path l' es)
  then show ?case using lim_TryAcquire_ok [of ip l inp path]
    by (auto simp: holder_inv_def owning_update nth_list_update)
next
  case (lim_granted ts h l i t inp path l' es)
  then show ?case using lim_TryAcquire_ok [of ip l inp path]
    by (auto simp: holder_inv_def owning_update nth_list_update)
next
  case (refused_undo ts h l i t inp l' es)
  then show ?case using hot_keeps_client(3,4) [of ip L inp t l]
    by (auto simp: holder_inv_def owning_update nth_list_update)
next
  case (late_undo ts h l i t)
  have "0 < owning ts"
    using late_undo owning_update [of i ts HStart] by (auto simp: holder_inv_def)
  moreover have "0 \<le> inflight_of ip l0" using assms(2) by (simp add: lim_ok_def)
  ultimately show ?case using late_undo lim_Release_ok [of ip l]
    by (auto simp: holder_inv_def owning_update nth_list_update)
next
  case (late_done ts h l i t inp l' es)
  then show ?case using hot_keeps_client(3,4) [of ip L inp t l]
    by (auto simp: holder_inv_def owning_update nth_list_update)
qed (auto simp: holder_inv_def owning_update nth_list_update)

lemma ReleaseIfHeld_inflight:
  assumes "lim_ok ip l" "holderIP h = ip" "held h \<longleftrightarrow> hotZoneHeld h"
  shows "inflight_of ip (fst (snd (ReleaseIfHeld L inp h l))) = (if held h then max 0 (inflight_of ip l - 1) else inflight_of ip l)"
proof -
  have "addr_IsValid ip" using assms(1) by (simp add: lim_ok_def)
  with assms(2,3) have "fst (snd (ReleaseIfHeld L inp h l)) = (if held h then fst (ReleaseHotZone L inp (hotZoneTicket h) (lim_Release ip l)) else l)"
    by (simp add: ReleaseIfHeld_def case_prod_beta Let_def)
  then show ?thesis by (simp add: hot_keeps_client lim_Release_ok [OF assms(1)])
qed

section \<open>Properties\<close>

lemma ReleaseIfHeld_again: "ReleaseIfHeld L inp' (fst (ReleaseIfHeld L inp h l)) l' = (fst (ReleaseIfHeld L inp h l), l', [])"
  by (auto simp: ReleaseIfHeld_def Let_def split: prod.splits)


definition lim_example :: expensiveRequestLimiter where
  "lim_example = \<lparr>limMode = ExpensiveRequestLimitModeEnabled, limLimit = 1, shards = [Map.empty, Map.empty],
     observeWouldRefuse = False, limHotZone = None\<rparr>"

definition ip_example :: netip_addr where "ip_example = Addr4 (10, 0, 0, 1)"

definition hzinp_example :: hotZoneInput where
  "hzinp_example = \<lparr>hzNow = 0, hzLogNow = 0, hzCpuNow = 0, hzCpuStat = None, hzNumCPU = 1, hzLogOn = False, hzMetricOn = False\<rparr>"

lemma lim_example_entry: "client_entry ip lim_example = None"
proof -
  have "expensiveRequestShardIndex ip 2 < 2" by (rule shard_index_bound) simp_all
  moreover have "shardFor ip lim_example = expensiveRequestShardIndex ip 2"
    by (simp add: shardFor_def lim_example_def numeral_2_eq_2)
  ultimately show ?thesis by (auto simp: client_entry_def less_2_cases_iff) (simp_all add: lim_example_def)
qed

lemma lim_example_simps [simp]:
  "lim_wf lim_example" "limMode lim_example = ExpensiveRequestLimitModeEnabled" "limLimit lim_example = 1"
  "\<not> observeWouldRefuse lim_example" "limHotZone lim_example = None" "addr_IsValid ip_example"
  by (simp_all add: lim_example_def lim_wf_def ip_example_def addr_IsValid_def)

lemma lim_example_ok: "lim_ok ip_example lim_example"
  by (simp add: lim_ok_def inflight_of_def lim_example_entry)

definition lim_example_one :: expensiveRequestLimiter where
  "lim_example_one = set_client ip_example (Some \<lparr>inflight = 1, cl_lastLogAt = None, cl_suppressedCount = 0\<rparr>) lim_example"

lemma holder_example: "\<exists>h. holder_steps ref_dnslib ip_example lim_example 1 [HDone True] h lim_example_one \<and> held h"
proof -
  let ?R = "holder_steps ref_dnslib ip_example lim_example 1"
  let ?h = "newExpensiveRequestHolder ip_example"
  have "?R [HStart] ?h lim_example" using holder_steps.start [of ref_dnslib ip_example lim_example 1] by simp
  then have "?R [HChecked] ?h lim_example"
    using holder_steps.check_free [of ref_dnslib ip_example lim_example 1 "[HStart]" ?h lim_example 0]
    by (simp add: newExpensiveRequestHolder_def)
  then have "?R [HHot 0] ?h lim_example"
    using holder_steps.hot_granted [of ref_dnslib ip_example lim_example 1 "[HChecked]" ?h lim_example 0 hzinp_example "[]" "[]" 0 lim_example "[]"]
    by (simp add: TryAcquireHotZone_def)
  moreover have "lim_TryAcquire hzinp_example ip_example expensivePathForward lim_example = (True, lim_example_one, [])"
    by (simp add: lim_TryAcquire_def lim_example_entry lim_example_one_def)
  ultimately have "?R [HBoth 0] ?h lim_example_one"
    using holder_steps.lim_granted [of ref_dnslib ip_example lim_example 1 "[HHot 0]" ?h lim_example 0 0 hzinp_example expensivePathForward lim_example_one "[]"]
    by simp
  then have "?R [HDone True] (?h\<lparr>held := True, hotZoneHeld := True, hotZoneTicket := 0\<rparr>) lim_example_one"
    using holder_steps.commit [of ref_dnslib ip_example lim_example 1 "[HBoth 0]" ?h lim_example_one 0 0]
    by (simp add: newExpensiveRequestHolder_def)
  then show ?thesis by fastforce
qed


text \<open>
  Observe mode loses count: with the limiter only observing, a client at its limit is let in
  without being counted, but its release is counted, so one more request and its release leave the
  client with fewer slots taken than it really holds.
\<close>

lemma observe_mode_undercounts:
  assumes "lim_wf l" "limMode l = ExpensiveRequestLimitModeEnabled" "observeWouldRefuse l" "addr_IsValid ip"
    "1 \<le> limLimit l" "inflight_of ip l = limLimit l"
  shows "case lim_TryAcquire inp ip path l of
     (allowed, l', es) \<Rightarrow> allowed \<and> inflight_of ip l' = limLimit l \<and> inflight_of ip (lim_Release ip l') = limLimit l - 1"
  using assms
  by (auto simp: lim_TryAcquire_def lim_Release_def inflight_of_def case_prod_beta Let_def split: option.splits)

lemma observe_mode_undercounts_example:
  "\<exists>l'. lim_TryAcquire hzinp_example ip_example expensivePathForward (lim_example_one\<lparr>observeWouldRefuse := True\<rparr>)
        = (True, l', []) \<and> inflight_of ip_example (lim_Release ip_example l') = 0"
proof -
  let ?l = "lim_example_one\<lparr>observeWouldRefuse := True\<rparr>"
  have e: "client_entry ip_example ?l = Some \<lparr>inflight = 1, cl_lastLogAt = None, cl_suppressedCount = 0\<rparr>"
    by (simp add: lim_example_one_def)
  have "lim_wf ?l \<and> limMode ?l = ExpensiveRequestLimitModeEnabled \<and> limLimit ?l = 1"
    by (simp add: lim_example_one_def)
  then show ?thesis
    using observe_mode_undercounts [of ?l ip_example hzinp_example expensivePathForward] e
    by (auto simp: inflight_of_def lim_TryAcquire_def case_prod_beta Let_def recordExpensiveRequestLimitEvent_def hzinp_example_def)
qed

end
