(* ===== verification/Resolution_Trace.thy ===== *)
theory Resolution_Trace
  imports Dns_Reference
begin

text \<open>
  The recorder of one traced resolution and the text it prints
  (src/server/resolution_trace.go).  Each method holds the recorder's mutex throughout, so it is
  one step; a nil recorder is handled by the callers.
\<close>

definition maxTraceStates :: nat where "maxTraceStates = 128"

record ResolutionTrace =
  tr_QueryName :: string
  tr_QueryType :: string
  tr_States :: "string list"
  tr_Terminal :: string
  tr_Rcode :: string
  tr_Error :: string
  tr_Truncated :: bool

record resolutionTraceRecorder =
  rec_queryName :: string
  rec_queryType :: string
  rec_states :: "string list"
  rec_terminal :: string
  rec_truncated :: bool

definition newResolutionTraceRecorder :: "dnslib \<Rightarrow> string \<Rightarrow> u16 \<Rightarrow> resolutionTraceRecorder" where
  "newResolutionTraceRecorder L queryName qtype =
     (let queryType = TypeToString L qtype;
          queryType = (if queryType = [] then ''UNKNOWN'' else queryType)
      in \<lparr>rec_queryName = queryName, rec_queryType = queryType, rec_states = [], rec_terminal = [], rec_truncated = False\<rparr>)"

definition recordState :: "string \<Rightarrow> resolutionTraceRecorder \<Rightarrow> resolutionTraceRecorder" where
  "recordState state r =
     (if state = [] then r
      else if maxTraceStates \<le> length (rec_states r) then r\<lparr>rec_truncated := True\<rparr>
      else r\<lparr>rec_states := rec_states r @ [state]\<rparr>)"

definition recordTerminal :: "string \<Rightarrow> resolutionTraceRecorder \<Rightarrow> resolutionTraceRecorder" where
  "recordTerminal exit r = (if exit = [] then r else r\<lparr>rec_terminal := exit\<rparr>)"

text \<open>The error of the resolution is given by its text, None for nil.\<close>

definition trace_snapshot :: "dnslib \<Rightarrow> Msg option \<Rightarrow> string option \<Rightarrow> resolutionTraceRecorder \<Rightarrow> ResolutionTrace" where
  "trace_snapshot L response err r =
     (let trace = \<lparr>tr_QueryName = rec_queryName r, tr_QueryType = rec_queryType r, tr_States = rec_states r,
                   tr_Terminal = rec_terminal r, tr_Rcode = [], tr_Error = [], tr_Truncated = rec_truncated r\<rparr>;
          trace = (case response of None \<Rightarrow> trace
             | Some m \<Rightarrow> let rc = RcodeToString L (Rcode m)
                         in trace\<lparr>tr_Rcode := (if rc = [] then ''UNKNOWN'' else rc)\<rparr>)
      in case err of None \<Rightarrow> trace | Some e \<Rightarrow> trace\<lparr>tr_Error := e\<rparr>)"

definition fallbackTraceText :: "string \<Rightarrow> string" where
  "fallbackTraceText value = (if value = [] then ''UNKNOWN'' else value)"

definition trace_Format :: "ResolutionTrace \<Rightarrow> string" where
  "trace_Format t =
     (let lines = [''query: '' @ tr_QueryName t @ '' '' @ tr_QueryType t];
          lines = lines @ (if tr_States t = [] then [''states: (none)'']
             else ''states:'' # map (\<lambda>(i, state). ''  '' @ nat_digits (i + 1) @ ''. '' @ state) (enumerate 0 (tr_States t)));
          lines = lines @ [''terminal: '' @ fallbackTraceText (tr_Terminal t)];
          lines = lines @ [''rcode: '' @ fallbackTraceText (tr_Rcode t)];
          lines = lines @ (if tr_Truncated t then [''note: state list truncated''] else []);
          lines = lines @ (if tr_Error t \<noteq> [] then [''error: '' @ tr_Error t] else [])
      in strings_Join lines [CHR 0x0A])"

section \<open>Lemmas\<close>

lemma recordState_fold:
  assumes "[] \<notin> set ss" "length (rec_states r) \<le> maxTraceStates"
  shows "fold recordState ss r =
    r\<lparr>rec_states := take maxTraceStates (rec_states r @ ss),
      rec_truncated := (rec_truncated r \<or> maxTraceStates < length (rec_states r) + length ss)\<rparr>"
  using assms
proof (induction ss arbitrary: r)
  case (Cons s ss)
  then show ?case by (cases "length (rec_states r) < maxTraceStates") (auto simp: recordState_def take_Cons')
qed simp

section \<open>Properties\<close>

text \<open>
  The trace keeps the first 128 states and says when it dropped any: after recording any
  number of states, the recorder holds exactly the first 128 of them in order, and it is marked
  truncated if and only if there were more.
\<close>

lemma trace_keeps_first_128:
  assumes "[] \<notin> set ss"
  shows "tr_States (trace_snapshot L m e (fold recordState ss (newResolutionTraceRecorder L q t))) = take 128 ss
    \<and> (tr_Truncated (trace_snapshot L m e (fold recordState ss (newResolutionTraceRecorder L q t))) \<longleftrightarrow> 128 < length ss)"
  using recordState_fold [of ss "newResolutionTraceRecorder L q t"] assms
  by (simp add: newResolutionTraceRecorder_def Let_def trace_snapshot_def maxTraceStates_def split: option.splits)

lemma trace_keeps_first_128_example:
  "tr_States (trace_snapshot ref_dnslib None None (fold recordState [''state_init''] (newResolutionTraceRecorder ref_dnslib ''a.'' 1))) = [''state_init'']"
  using trace_keeps_first_128 [of "[''state_init'']" ref_dnslib None None "''a.''" 1] by simp

end
