(* ===== verification/World.thy ===== *)
theory World
  imports Zone_Util Upstream_Gate IP_Pool Expensive_Limiter Resolution_Trace "HOL-Library.Monad_Syntax"
begin

text \<open>
  What the resolution of one request sees: the package-level state of \<open>server\<close> (\<open>world\<close>) and
  everything that state does not determine (\<open>env\<close>): the two libraries, the configuration that
  is fixed while requests run, and oracles for the clock, the network and the scheduler.  An oracle
  takes the tick counter \<open>wTick\<close> of the world; every use advances the counter, so successive
  uses are independent.  A theorem that holds for every \<open>env\<close> holds for every network, clock
  and schedule.

  A definition that may panic returns an option, None for the panic; \<open>do\<close> is the option monad and
  passes the world explicitly.

  The state machine resolves one request at a time: requests that run at the same time meet only
  in the components (cache, gate, pool, limiter), whose own theories treat interleavings.
\<close>

section \<open>Libraries\<close>

text \<open>
  github.com/patrickmn/go-cache.  \<open>gcSet now key value d\<close> stores with expiration \<open>d\<close>
  nanoseconds from \<open>now\<close>; \<open>gcGet\<close> returns an entry that has not expired; \<open>gcItems\<close>
  returns the unexpired entries with their expiration time.
\<close>

record 'c gocache =
  gcSet :: "int \<Rightarrow> string \<Rightarrow> Msg \<Rightarrow> int \<Rightarrow> 'c \<Rightarrow> 'c"
  gcGet :: "int \<Rightarrow> string \<Rightarrow> 'c \<Rightarrow> Msg option"
  gcFlush :: "'c \<Rightarrow> 'c"
  gcDeleteExpired :: "int \<Rightarrow> 'c \<Rightarrow> 'c"
  gcItemCount :: "'c \<Rightarrow> int"
  gcItems :: "int \<Rightarrow> 'c \<Rightarrow> (string \<times> Msg \<times> int) list"

definition defaultExpiration :: int where "defaultExpiration = 5 * 60 * 1000000000"

text \<open>
  The documented behaviour: a duration of 0 stands for the default expiration of the cache, which
  \<open>newCache\<close> sets to five minutes; an entry is returned until its expiration time has passed;
  other keys are not touched; a flush removes everything; deleting expired entries does not
  change what a later \<open>Get\<close> returns.
\<close>

definition expiry :: "int \<Rightarrow> int \<Rightarrow> int" where
  "expiry now d = now + (if d = 0 then defaultExpiration else d)"

definition gocache_laws :: "'c gocache \<Rightarrow> bool" where
  "gocache_laws C \<longleftrightarrow>
     (\<forall>t t' k v d c. 0 \<le> d \<longrightarrow> gcGet C t' k (gcSet C t k v d c) = (if expiry t d < t' then None else Some v))
     \<and> (\<forall>t t' k k' v d c. k' \<noteq> k \<longrightarrow> gcGet C t' k' (gcSet C t k v d c) = gcGet C t' k' c)
     \<and> (\<forall>t k c. gcGet C t k (gcFlush C c) = None)
     \<and> (\<forall>t t' k c. t \<le> t' \<longrightarrow> gcGet C t' k (gcDeleteExpired C t c) = gcGet C t' k c)"

text \<open>An error of \<open>ExchangeContext\<close> or of a context, as far as the program tells them apart.\<close>

datatype xerr = XDeadlineExceeded | XCanceled | XNetTimeout | XTransport string

section \<open>Configuration snapshot\<close>

text \<open>\<open>hostsMap\<close> lists the entries of the Go map, \<open>hostsNames\<close> the names it maps to true.\<close>

record ForwardZone =
  fzZone :: string
  fzUpstreams :: "string list"

record hostsForwardSnapshot =
  hostsMap :: "(string \<times> Msg) list"
  hostsNames :: "string list"
  forwardZones :: "ForwardZone list"

section \<open>Environment and world\<close>

record 'c env =
  eLib :: dnslib
  eGC :: "'c gocache"
  eOn :: bool                                  \<comment> \<open>\<open>monitor.Rec53Metric\<close> is not nil\<close>
  eSnap :: hostsForwardSnapshot
  eRootOverride :: "Msg option"
  ePortOverride :: string
  eSortScores :: "scoreEntry list \<Rightarrow> scoreEntry list"  \<comment> \<open>\<open>sort.Slice\<close> of \<open>GetBestIPsV2\<close>\<close>
  eNow :: "nat \<Rightarrow> int"
  eMono :: "nat \<Rightarrow> u64 option"                \<comment> \<open>\<open>CLOCK_MONOTONIC\<close> in seconds\<close>
  eBpfOk :: "nat \<Rightarrow> bool"                     \<comment> \<open>an update of the BPF map succeeds\<close>
  eHz :: "nat \<Rightarrow> hotZoneInput"
  eId :: "nat \<Rightarrow> u16"                         \<comment> \<open>\<open>dns.Id()\<close>\<close>
  eCtxErr :: "nat \<Rightarrow> xerr option"             \<comment> \<open>\<open>ctx.Err()\<close>\<close>
  eXchg :: "nat \<Rightarrow> Msg \<Rightarrow> string \<Rightarrow> xerr + (Msg \<times> int)"  \<comment> \<open>\<open>ExchangeContext\<close>: query, target; the round-trip time\<close>
  eSecondFirst :: "nat \<Rightarrow> bool"               \<comment> \<open>the second racer answers first\<close>
  eDrain :: "nat \<Rightarrow> nat"                      \<comment> \<open>racers that end before the next gate call\<close>
  eSched :: "nat \<Rightarrow> string list \<Rightarrow> string list"  \<comment> \<open>the order in which workers run\<close>
  eSkip :: "nat \<Rightarrow> bool"                      \<comment> \<open>a cancelled worker stops before it starts\<close>
  eDrop :: "nat \<Rightarrow> bool"                      \<comment> \<open>a cancelled worker drops its result\<close>

record dnsCacheCacheKey =
  bk_Qname :: "u8 list"
  bk_Qtype :: u16

record dnsCacheCacheValue =
  bv_ExpireTs :: u64
  bv_RespLen :: u32
  bv_Response :: "u8 list"

record 'c world =
  wTick :: nat
  wCache :: 'c
  wBpfOn :: bool                              \<comment> \<open>\<open>globalXDPCacheMap\<close> is not nil\<close>
  wBpfCalls :: "(dnsCacheCacheKey \<times> dnsCacheCacheValue) list"  \<comment> \<open>calls of \<open>Update\<close> so far\<close>
  wPool :: IPPool
  wGate :: upstreamConcurrencyGate
  wPending :: nat                             \<comment> \<open>racers that still hold a slot of the gate\<close>
  wLimiter :: "expensiveRequestLimiter option"
  wHolder :: "expensiveRequestHolder option"  \<comment> \<open>of the request's context\<close>
  wTrace :: "resolutionTraceRecorder option"  \<comment> \<open>of the request's context\<close>
  wEvents :: "metric_event list"

definition tick :: "'c world \<Rightarrow> 'c world" where
  "tick w = w\<lparr>wTick := wTick w + 1\<rparr>"

text \<open>Metric calls behind the nil check, and those without it.\<close>

definition emit_always :: "metric_event list \<Rightarrow> 'c world \<Rightarrow> 'c world" where
  "emit_always es w = w\<lparr>wEvents := wEvents w @ es\<rparr>"

definition emit_on :: "'c env \<Rightarrow> metric_event list \<Rightarrow> 'c world \<Rightarrow> 'c world" where
  "emit_on E es w = (if eOn E then emit_always es w else w)"

section \<open>Errors\<close>

datatype go_error =
    ErrNil string                        \<comment> \<open>request is nil or response is nil\<close>
  | ErrCtx xerr
  | ErrExchange xerr
  | ErrGateSaturated                     \<comment> \<open>\<open>errUpstreamConcurrencyGateSaturated\<close>\<close>
  | ErrNoIP
  | ErrAllUpstreamFailed go_error
  | ErrBadRcodeNoAlternate string
  | ErrBadRcodeAlternateFailed string go_error
  | ErrBothBadRcode string
  | ErrRcode string
  | ErrNoQuestion
  | ErrQuestionMismatch
  | ErrHandleState int go_error
  | ErrCNAMECycle string
  | ErrWrongState int
  | ErrMaxIterations

section \<open>Lemmas\<close>

lemma tick_simps [simp]:
  "wCache (tick w) = wCache w" "wBpfOn (tick w) = wBpfOn w" "wBpfCalls (tick w) = wBpfCalls w"
  "wPool (tick w) = wPool w" "wGate (tick w) = wGate w" "wPending (tick w) = wPending w"
  "wLimiter (tick w) = wLimiter w" "wHolder (tick w) = wHolder w" "wTrace (tick w) = wTrace w" "wEvents (tick w) = wEvents w"
  "wTick (tick w) = wTick w + 1"
  by (simp_all add: tick_def)

lemma emit_always_simps [simp]:
  "wCache (emit_always es w) = wCache w" "wBpfOn (emit_always es w) = wBpfOn w" "wBpfCalls (emit_always es w) = wBpfCalls w"
  "wPool (emit_always es w) = wPool w" "wGate (emit_always es w) = wGate w" "wPending (emit_always es w) = wPending w"
  "wLimiter (emit_always es w) = wLimiter w" "wHolder (emit_always es w) = wHolder w" "wTrace (emit_always es w) = wTrace w"
  "wTick (emit_always es w) = wTick w"
  by (simp_all add: emit_always_def)

lemma emit_on_simps [simp]:
  "wCache (emit_on E es w) = wCache w" "wBpfOn (emit_on E es w) = wBpfOn w" "wBpfCalls (emit_on E es w) = wBpfCalls w"
  "wPool (emit_on E es w) = wPool w" "wGate (emit_on E es w) = wGate w" "wPending (emit_on E es w) = wPending w"
  "wLimiter (emit_on E es w) = wLimiter w" "wHolder (emit_on E es w) = wHolder w" "wTrace (emit_on E es w) = wTrace w"
  "wTick (emit_on E es w) = wTick w"
  by (simp_all add: emit_on_def)

text \<open>
  Weakest preconditions for definitions that may panic: \<open>wp m Q\<close> says that \<open>m\<close> does not
  panic and its result satisfies \<open>Q\<close>.
\<close>

definition wp :: "'a option \<Rightarrow> ('a \<Rightarrow> bool) \<Rightarrow> bool" where
  "wp m Q \<longleftrightarrow> (case m of None \<Rightarrow> False | Some x \<Rightarrow> Q x)"

lemma wp_simps [simp]:
  "wp (Some x) Q \<longleftrightarrow> Q x" "\<not> wp None Q"
  "wp (m \<bind> f) Q \<longleftrightarrow> wp m (\<lambda>x. wp (f x) Q)"
  by (auto simp: wp_def split: option.splits bind_splits)

lemma wp_mono: "wp m P \<Longrightarrow> (\<And>x. P x \<Longrightarrow> Q x) \<Longrightarrow> wp m Q"
  by (auto simp: wp_def split: option.splits)

lemma wp_conj: "wp m P \<Longrightarrow> wp m Q \<Longrightarrow> wp m (\<lambda>x. P x \<and> Q x)"
  by (auto simp: wp_def split: option.splits)

lemma wp_if: "(b \<Longrightarrow> wp m Q) \<Longrightarrow> (\<not> b \<Longrightarrow> wp m' Q) \<Longrightarrow> wp (if b then m else m') Q"
  by simp

lemma wp_result: "wp m Q \<longleftrightarrow> (\<exists>x. m = Some x \<and> Q x)"
  by (auto simp: wp_def split: option.splits)

section \<open>A concrete instance\<close>

text \<open>A cache that keeps the documented behaviour, and an environment whose network never answers,
  to evaluate examples.\<close>

definition ref_gocache :: "(string \<times> Msg \<times> int) list gocache" where
  "ref_gocache =
    \<lparr>gcSet = (\<lambda>now k v d c. AList.update k (v, expiry now d) c),
     gcGet = (\<lambda>t k c. case map_of c k of None \<Rightarrow> None | Some (v, e) \<Rightarrow> if e < t then None else Some v),
     gcFlush = (\<lambda>c. []),
     gcDeleteExpired = (\<lambda>t c. filter (\<lambda>(k, _). \<not> snd (the (map_of c k)) < t) c),
     gcItemCount = (\<lambda>c. int (length (AList.clearjunk c))),
     gcItems = (\<lambda>t c. filter (\<lambda>(k, v, e). \<not> e < t) (AList.clearjunk c))\<rparr>"

lemma map_of_filter_key: "map_of (filter (\<lambda>(k, _). P k) c) k = (if P k then map_of c k else None)"
  by (induction c) auto

lemma ref_gocache_laws [simp]: "gocache_laws ref_gocache"
  by (auto simp: gocache_laws_def ref_gocache_def update_conv' expiry_def map_of_filter_key split: option.splits)

definition ref_env :: "(string \<times> Msg \<times> int) list env" where
  "ref_env =
    \<lparr>eLib = ref_dnslib, eGC = ref_gocache, eOn = False,
     eSnap = \<lparr>hostsMap = [], hostsNames = [], forwardZones = []\<rparr>,
     eRootOverride = None, ePortOverride = [], eSortScores = go_insertion_sort score_less,
     eNow = (\<lambda>_. 0), eMono = (\<lambda>_. None), eBpfOk = (\<lambda>_. True), eHz = (\<lambda>_. hzinp_example), eId = (\<lambda>_. 7),
     eCtxErr = (\<lambda>_. None), eXchg = (\<lambda>_ _ _. Inl XNetTimeout), eSecondFirst = (\<lambda>_. False), eDrain = (\<lambda>_. 0),
     eSched = (\<lambda>_ ns. ns), eSkip = (\<lambda>_. False), eDrop = (\<lambda>_. False)\<rparr>"

lemma ref_env_simps [simp]:
  "eLib ref_env = ref_dnslib" "eGC ref_env = ref_gocache" "eOn ref_env = False" "eXchg ref_env i q t = Inl XNetTimeout"
  "eRootOverride ref_env = None" "eSnap ref_env = \<lparr>hostsMap = [], hostsNames = [], forwardZones = []\<rparr>"
  by (simp_all add: ref_env_def)

definition ref_world :: "(string \<times> Msg \<times> int) list world" where
  "ref_world =
    \<lparr>wTick = 0, wCache = [], wBpfOn = False, wBpfCalls = [], wPool = NewIPPool,
     wGate = \<lparr>gateLimit = 4, gateInflight = 0, gateLogStates = Map.empty\<rparr>, wPending = 0,
     wLimiter = None, wHolder = None, wTrace = None, wEvents = []\<rparr>"

end
