(* ===== verification/Xdp_Sync.thy ===== *)
theory Xdp_Sync
  imports World
begin

text \<open>
  The copy of the cache in the BPF map of the XDP fast path (src/server/xdp_sync.go) and the two
  maintenance loops (src/server/xdp_metrics.go).  The map itself is a kernel object behind
  github.com/cilium/ebpf: its updates are recorded in \<open>wBpfCalls\<close>, whether one succeeds is an
  oracle, and what iterating over it yields is an argument.
\<close>

section \<open>Keys and values\<close>

text \<open>\<open>copy\<close> into a zeroed array of \<open>n\<close> bytes.\<close>

definition pad_to :: "nat \<Rightarrow> u8 list \<Rightarrow> u8 list" where
  "pad_to n bs = take n bs @ replicate (n - length bs) 0"

definition domainToWireFormat :: "dnslib \<Rightarrow> string \<Rightarrow> u8 list option" where
  "domainToWireFormat L name = PackDomainName L (CanonicalName L name)"

definition buildBPFCacheKey :: "dnslib \<Rightarrow> string \<Rightarrow> u16 \<Rightarrow> dnsCacheCacheKey option" where
  "buildBPFCacheKey L name qtype =
     (case domainToWireFormat L name of
        None \<Rightarrow> None
      | Some wire \<Rightarrow> Some \<lparr>bk_Qname = pad_to 255 wire, bk_Qtype = qtype\<rparr>)"

definition minimalResponse :: "Msg \<Rightarrow> Msg" where
  "minimalResponse msg = (setMsgHdr newMsg msg)\<lparr>Compress := True, Question := Question msg, Answer := Answer msg\<rparr>"

definition buildBPFCacheValue :: "dnslib \<Rightarrow> u64 option \<Rightarrow> Msg \<Rightarrow> u32 \<Rightarrow> dnsCacheCacheValue option" where
  "buildBPFCacheValue L clk msg ttlSeconds =
     (case MsgPack L (minimalResponse msg) of
        None \<Rightarrow> None
      | Some packed \<Rightarrow>
          if 512 < length packed then None
          else case clk of
            None \<Rightarrow> None
          | Some now \<Rightarrow> Some \<lparr>bv_ExpireTs = now + ucast ttlSeconds, bv_RespLen = of_nat (length packed),
                               bv_Response = pad_to 512 packed\<rparr>)"

definition syncToBPFMap :: "'c env \<Rightarrow> string \<Rightarrow> u16 \<Rightarrow> Msg \<Rightarrow> u32 \<Rightarrow> 'c world \<Rightarrow> 'c world" where
  "syncToBPFMap E name qtype msg ttlSeconds w =
     (if \<not> wBpfOn w then w
      else case buildBPFCacheKey (eLib E) name qtype of
        None \<Rightarrow> emit_on E [XDPSyncErrorAdd ''key_build''] w
      | Some key \<Rightarrow>
          (case buildBPFCacheValue (eLib E) (eMono E (wTick w)) msg ttlSeconds of
             None \<Rightarrow> emit_on E [XDPSyncErrorAdd ''value_build''] (tick w)
           | Some val \<Rightarrow>
               let ok = eBpfOk E (wTick w);
                   w = (tick w)\<lparr>wBpfCalls := wBpfCalls w @ [(key, val)]\<rparr>
               in if ok then w else emit_on E [XDPSyncErrorAdd ''update''] w))"

section \<open>Maintenance\<close>

text \<open>The four counters, each summed over the CPUs; a failed lookup leaves the gauge at 0.\<close>

definition xdp_stat :: "(u32 \<Rightarrow> u64 list option) \<Rightarrow> u32 \<Rightarrow> rat" where
  "xdp_stat lookup i = (case lookup i of None \<Rightarrow> 0 | Some perCPU \<Rightarrow> f_of_int (uint (fold (+) perCPU 0)))"

definition collectXDPStats :: "(u32 \<Rightarrow> u64 list option) \<Rightarrow> rat \<times> rat \<times> rat \<times> rat" where
  "collectXDPStats lookup = (xdp_stat lookup 0, xdp_stat lookup 1, xdp_stat lookup 2, xdp_stat lookup 3)"

text \<open>\<open>entries\<close> is what the iterator yields, \<open>delOk\<close> whether a delete succeeds; the result is the
  count, the keys passed to \<open>Delete\<close> and the metric events.\<close>

fun collect_expired ::
  "u64 \<Rightarrow> (dnsCacheCacheKey \<times> dnsCacheCacheValue) list \<Rightarrow> nat \<Rightarrow> dnsCacheCacheKey list \<Rightarrow> nat \<times> dnsCacheCacheKey list"
where
  "collect_expired nowSec [] act toDelete = (act, toDelete)"
| "collect_expired nowSec ((key, val) # es) act toDelete =
     (if bv_ExpireTs val \<le> nowSec then collect_expired nowSec es act (toDelete @ [key])
      else collect_expired nowSec es (act + 1) toDelete)"

definition cleanupExpiredBPFEntries ::
  "bool \<Rightarrow> u64 option \<Rightarrow> (dnsCacheCacheKey \<times> dnsCacheCacheValue) list \<Rightarrow> (dnsCacheCacheKey \<Rightarrow> bool)
     \<Rightarrow> nat \<times> dnsCacheCacheKey list \<times> metric_event list"
where
  "cleanupExpiredBPFEntries on clk entries delOk =
     (case clk of
        None \<Rightarrow> (0, [], [])
      | Some nowSec \<Rightarrow>
          let (act, toDelete) = collect_expired nowSec entries 0 [];
              deleted = length (filter delOk toDelete)
          in (deleted, toDelete, when_on on [XDPCleanupDeletedAdd (int deleted), XDPEntriesSet (int act)]))"

section \<open>Lemmas\<close>

lemma syncToBPFMap_frame [frame, simp]:
  "wCache (syncToBPFMap E n t m ttl w) = wCache w" "wPool (syncToBPFMap E n t m ttl w) = wPool w"
  "wGate (syncToBPFMap E n t m ttl w) = wGate w" "wPending (syncToBPFMap E n t m ttl w) = wPending w"
  "wLimiter (syncToBPFMap E n t m ttl w) = wLimiter w" "wHolder (syncToBPFMap E n t m ttl w) = wHolder w"
  "wTrace (syncToBPFMap E n t m ttl w) = wTrace w" "wBpfOn (syncToBPFMap E n t m ttl w) = wBpfOn w"
  by (simp_all add: syncToBPFMap_def Let_def split: option.splits)

lemma collect_expired_spec:
  "collect_expired nowSec es act ks =
     (act + length (filter (\<lambda>e. \<not> bv_ExpireTs (snd e) \<le> nowSec) es), ks @ map fst (filter (\<lambda>e. bv_ExpireTs (snd e) \<le> nowSec) es))"
  by (induction nowSec es act ks rule: collect_expired.induct) auto

section \<open>Properties\<close>

text \<open>
  C37. A value written to the BPF map is well formed: when building one succeeds, the response area
  has exactly 512 bytes, its first \<open>RespLen\<close> bytes are the packed answer, the rest is zero, and the
  expiry time is the clock plus the TTL, without wrapping while the clock is below 2 ^ 63.
\<close>

theorem bpf_value_well_formed:
  assumes "buildBPFCacheValue L (Some now) msg ttl = Some val" "unat now < 2 ^ 63"
  shows "\<exists>packed. MsgPack L (minimalResponse msg) = Some packed \<and> length (bv_Response val) = 512
    \<and> unat (bv_RespLen val) = length packed \<and> take (unat (bv_RespLen val)) (bv_Response val) = packed
    \<and> (\<forall>b \<in> set (drop (unat (bv_RespLen val)) (bv_Response val)). b = 0)
    \<and> unat (bv_ExpireTs val) = unat now + unat ttl"
proof -
  obtain packed where p: "MsgPack L (minimalResponse msg) = Some packed" "length packed \<le> 512"
    and v: "val = \<lparr>bv_ExpireTs = now + ucast ttl, bv_RespLen = of_nat (length packed), bv_Response = pad_to 512 packed\<rparr>"
    using assms(1) by (auto simp: buildBPFCacheValue_def not_less split: option.splits if_splits)
  have n: "unat (of_nat (length packed) :: u32) = length packed" using p(2) by (simp add: unat_of_nat)
  have b: "unat ttl < 2 ^ 32" using unsigned_less [of ttl, where ?'a = nat] by simp
  then have t: "unat (ucast ttl :: u64) = unat ttl" by (simp add: unsigned_ucast_eq take_bit_nat_eq_self)
  with b have "unat (now + ucast ttl) = unat now + unat ttl"
    using assms(2) t by (subst unat_add_lem [THEN iffD1]) simp_all
  then show ?thesis using p v n by (auto simp: pad_to_def)
qed

definition bpf_example_lib :: dnslib where
  "bpf_example_lib = ref_dnslib\<lparr>MsgPack := (\<lambda>m. Some [1, 2, 3])\<rparr>"

theorem bpf_value_well_formed_witness:
  "\<exists>val. buildBPFCacheValue bpf_example_lib (Some 1000) newMsg 60 = Some val \<and> unat (bv_ExpireTs val) = 1060"
proof -
  obtain val where v: "buildBPFCacheValue bpf_example_lib (Some 1000) newMsg 60 = Some val"
    by (simp add: buildBPFCacheValue_def bpf_example_lib_def)
  from bpf_value_well_formed [OF this] v show ?thesis by auto
qed

text \<open>
  The clean-up deletes exactly the expired entries: the keys passed to \<open>Delete\<close> are those of
  the entries whose expiry time is not after the clock, no live entry is deleted, and the reported
  number of active entries is the number of the others.
\<close>

lemma bpf_cleanup_exact:
  "cleanupExpiredBPFEntries on (Some nowSec) entries delOk =
     (let dead = filter (\<lambda>e. bv_ExpireTs (snd e) \<le> nowSec) entries; n = length (filter delOk (map fst dead))
      in (n, map fst dead, when_on on [XDPCleanupDeletedAdd (int n), XDPEntriesSet (int (length entries) - int (length dead))]))"
proof -
  have "length (filter (\<lambda>e. \<not> bv_ExpireTs (snd e) \<le> nowSec) entries)
      = length entries - length (filter (\<lambda>e. bv_ExpireTs (snd e) \<le> nowSec) entries)"
    using sum_length_filter_compl [of "\<lambda>e. bv_ExpireTs (snd e) \<le> nowSec" entries] by linarith
  then show ?thesis
    by (simp add: cleanupExpiredBPFEntries_def collect_expired_spec case_prod_beta Let_def of_nat_diff)
qed

end
