(* ===== verification/Dns_Cache.thy ===== *)
theory Dns_Cache
  imports Xdp_Sync
begin

text \<open>
  The message cache (src/server/cache.go) and the two helpers that recognise negative answers
  (src/server/state_shared.go), over the parameter \<open>eGC\<close> for go-cache.  Messages are values, so
  the shallow and the deep copy of a message are both its value; what they drop (the question of a
  cached message, the OPT records of a stored one) is modelled.
\<close>

section \<open>Operations\<close>

definition getCacheKey :: "string \<Rightarrow> u16 \<Rightarrow> string" where
  "getCacheKey name qtype = name @ '':'' @ strconv_FormatUint (unat qtype)"

fun hasSOA :: "RR list \<Rightarrow> bool" where
  "hasSOA [] = False"
| "hasSOA (rr # rrs) = (if is_RR_SOA rr then True else hasSOA rrs)"

definition hasSOAInAuthority :: "Msg \<Rightarrow> bool" where
  "hasSOAInAuthority response = hasSOA (Ns response)"

definition DefaultNegativeCacheTTL :: u32 where "DefaultNegativeCacheTTL = 60"

fun soa_scan :: "RR list \<Rightarrow> (RR \<times> u32) option" where
  "soa_scan [] = None"
| "soa_scan (rr # rrs) =
     (case rr of
        RR_SOA h d \<Rightarrow>
          let ttl = Ttl h;
              ttl = (if Minttl d < ttl then Minttl d else ttl);
              ttl = (if ttl = 0 then DefaultNegativeCacheTTL else ttl)
          in Some (rr, ttl)
      | _ \<Rightarrow> soa_scan rrs)"

definition extractSOAFromAuthority :: "Msg \<Rightarrow> RR option \<times> u32" where
  "extractSOAFromAuthority response = (case soa_scan (Ns response) of None \<Rightarrow> (None, 0) | Some (rr, ttl) \<Rightarrow> (Some rr, ttl))"

definition getCache :: "'c env \<Rightarrow> string \<Rightarrow> 'c world \<Rightarrow> Msg option \<times> 'c world" where
  "getCache E key w = (gcGet (eGC E) (eNow E (wTick w)) key (wCache w), tick w)"

definition shallowCopyMsg :: "Msg \<Rightarrow> Msg" where
  "shallowCopyMsg m = (setMsgHdr newMsg m)\<lparr>Compress := Compress m, Answer := Answer m, Ns := Ns m, Extra := Extra m\<rparr>"

definition getCacheCopy :: "'c env \<Rightarrow> string \<Rightarrow> 'c world \<Rightarrow> Msg option \<times> 'c world" where
  "getCacheCopy E key w =
     (let (found, w) = getCache E key w
      in case found of
           None \<Rightarrow> (None, emit_on E [CacheLookupAdd ''miss''] w)
         | Some msg \<Rightarrow>
             let result = (if 0 < length (Answer msg) then ''positive_hit''
                           else if hasSOAInAuthority msg then ''negative_hit'' else ''delegation_hit'')
             in (Some (shallowCopyMsg msg), emit_on E [CacheLookupAdd result] w))"

definition getCacheCopyByType :: "'c env \<Rightarrow> string \<Rightarrow> u16 \<Rightarrow> 'c world \<Rightarrow> Msg option \<times> 'c world" where
  "getCacheCopyByType E name qtype w = getCacheCopy E (getCacheKey name qtype) w"

definition setCache :: "'c env \<Rightarrow> string \<Rightarrow> Msg \<Rightarrow> u32 \<Rightarrow> 'c world \<Rightarrow> 'c world" where
  "setCache E key value expire w =
     (let expireTime = uint expire * 1000000000;
          w = (tick w)\<lparr>wCache := gcSet (eGC E) (eNow E (wTick w)) key value expireTime (wCache w)\<rparr>
      in emit_on E [CacheLifecycleAdd ''write'' 1, CacheEntriesSet (gcItemCount (eGC E) (wCache w))] w)"

text \<open>The in-place loop of \<open>stripOPT\<close>: \<open>i\<close> is the position read, \<open>n\<close> the position written.\<close>

function strip_loop :: "nat \<Rightarrow> nat \<Rightarrow> RR list \<Rightarrow> nat \<times> RR list" where
  "strip_loop i n extra =
     (if i < length extra
      then let rr = extra ! i
           in if \<not> is_RR_OPT rr then strip_loop (i + 1) (n + 1) (extra[n := rr]) else strip_loop (i + 1) n extra
      else (n, extra))"
  by pat_completeness auto
termination by (relation "measure (\<lambda>(i, n, extra). length extra - i)") auto

declare strip_loop.simps [simp del]

definition stripOPT :: "Msg \<Rightarrow> Msg" where
  "stripOPT msg =
     (if length (Extra msg) = 0 then msg
      else let (n, extra) = strip_loop 0 0 (Extra msg) in msg\<lparr>Extra := take n extra\<rparr>)"

definition setCacheCopy :: "'c env \<Rightarrow> string \<Rightarrow> Msg \<Rightarrow> u32 \<Rightarrow> 'c world \<Rightarrow> 'c world" where
  "setCacheCopy E key value expire w =
     (let cp = stripOPT (MsgCopy (eLib E) value);
          w = setCache E key cp expire w
      in case (Answer cp, Question cp) of
           (_ # _, q # _) \<Rightarrow> syncToBPFMap E (qName q) (Qtype q) cp expire w
         | _ \<Rightarrow> w)"

definition setCacheCopyByType :: "'c env \<Rightarrow> string \<Rightarrow> u16 \<Rightarrow> Msg \<Rightarrow> u32 \<Rightarrow> 'c world \<Rightarrow> 'c world" where
  "setCacheCopyByType E name qtype value expire w = setCacheCopy E (getCacheKey name qtype) value expire w"

definition deleteExpiredCache :: "'c env \<Rightarrow> 'c world \<Rightarrow> 'c world" where
  "deleteExpiredCache E w =
     (let before = gcItemCount (eGC E) (wCache w);
          w = (tick w)\<lparr>wCache := gcDeleteExpired (eGC E) (eNow E (wTick w)) (wCache w)\<rparr>;
          after = gcItemCount (eGC E) (wCache w)
      in emit_on E ((if after < before then [CacheLifecycleAdd ''delete_expired'' (before - after)] else [])
           @ [CacheEntriesSet after]) w)"

definition deleteAllCache :: "'c env \<Rightarrow> 'c world \<Rightarrow> 'c world" where
  "deleteAllCache E w =
     (let before = gcItemCount (eGC E) (wCache w);
          w = w\<lparr>wCache := gcFlush (eGC E) (wCache w)\<rparr>
      in emit_on E ((if 0 < before then [CacheLifecycleAdd ''flush'' before] else []) @ [CacheEntriesSet 0]) w)"

definition getCacheSize :: "'c env \<Rightarrow> 'c world \<Rightarrow> int" where
  "getCacheSize E w = gcItemCount (eGC E) (wCache w)"

section \<open>Lemmas\<close>

lemma getCacheCopy_frame [frame, simp]:
  "wCache (snd (getCacheCopy E k w)) = wCache w" "wPool (snd (getCacheCopy E k w)) = wPool w"
  "wGate (snd (getCacheCopy E k w)) = wGate w" "wPending (snd (getCacheCopy E k w)) = wPending w"
  "wLimiter (snd (getCacheCopy E k w)) = wLimiter w" "wHolder (snd (getCacheCopy E k w)) = wHolder w"
  "wTrace (snd (getCacheCopy E k w)) = wTrace w" "wBpfOn (snd (getCacheCopy E k w)) = wBpfOn w"
  "wBpfCalls (snd (getCacheCopy E k w)) = wBpfCalls w" "wTick (snd (getCacheCopy E k w)) = wTick w + 1"
  by (simp_all add: getCacheCopy_def getCache_def Let_def split: option.splits)

lemma setCacheCopy_frame [frame, simp]:
  "wPool (setCacheCopy E k v x w) = wPool w" "wGate (setCacheCopy E k v x w) = wGate w"
  "wPending (setCacheCopy E k v x w) = wPending w" "wLimiter (setCacheCopy E k v x w) = wLimiter w"
  "wHolder (setCacheCopy E k v x w) = wHolder w" "wTrace (setCacheCopy E k v x w) = wTrace w"
  "wBpfOn (setCacheCopy E k v x w) = wBpfOn w"
  by (simp_all add: setCacheCopy_def setCache_def Let_def split: list.splits)

lemma setCacheCopy_cache:
  "wCache (setCacheCopy E k v x w) =
     gcSet (eGC E) (eNow E (wTick w)) k (stripOPT (MsgCopy (eLib E) v)) (uint x * 1000000000) (wCache w)"
  by (simp add: setCacheCopy_def setCache_def Let_def split: list.splits)

lemma shallowCopyMsg_simps [simp]:
  "Answer (shallowCopyMsg m) = Answer m" "Ns (shallowCopyMsg m) = Ns m" "Extra (shallowCopyMsg m) = Extra m"
  "Rcode (shallowCopyMsg m) = Rcode m" "Question (shallowCopyMsg m) = []"
  by (simp_all add: shallowCopyMsg_def)

lemma strip_loop_filter:
  assumes "n \<le> i" "i \<le> length xs" "take n xs = filter (\<lambda>r. \<not> is_RR_OPT r) (take i orig)" "drop i xs = drop i orig"
    "length xs = length orig"
  shows "(let (n', ys) = strip_loop i n xs in take n' ys) = filter (\<lambda>r. \<not> is_RR_OPT r) orig"
  using assms
proof (induction i n xs rule: strip_loop.induct)
  case (1 i n xs)
  show ?case
  proof (cases "i < length xs")
    case False
    then show ?thesis using "1.prems" by (subst strip_loop.simps) simp
  next
    case True
    have o: "xs ! i = orig ! i" "take (Suc i) orig = take i orig @ [orig ! i]" "drop (Suc i) xs = drop (Suc i) orig"
      using "1.prems"(4,5) True by (metis nth_via_drop Cons_nth_drop_Suc, simp add: take_Suc_conv_app_nth,
        metis drop_Suc drop_tl)
    show ?thesis
    proof (cases "is_RR_OPT (xs ! i)")
      case opt: True
      then have "(let (n', ys) = strip_loop (i + 1) n xs in take n' ys) = filter (\<lambda>r. \<not> is_RR_OPT r) orig"
        using "1.prems" True o by (intro "1.IH"(2) [OF True refl]) simp_all
      then show ?thesis using True opt by (subst strip_loop.simps) simp
    next
      case keep: False
      have "take (n + 1) (xs[n := xs ! i]) = take n xs @ [xs ! i]"
        using "1.prems"(1) True by (simp add: take_Suc_conv_app_nth)
      then have "(let (n', ys) = strip_loop (i + 1) (n + 1) (xs[n := xs ! i]) in take n' ys) = filter (\<lambda>r. \<not> is_RR_OPT r) orig"
        using "1.prems" True keep o by (intro "1.IH"(1) [OF True refl]) (simp_all add: drop_update_cancel)
      then show ?thesis using True keep by (subst strip_loop.simps) simp
    qed
  qed
qed

lemma stripOPT_filter: "stripOPT m = m\<lparr>Extra := filter (\<lambda>r. \<not> is_RR_OPT r) (Extra m)\<rparr>"
proof -
  have "(let (n', ys) = strip_loop 0 0 (Extra m) in take n' ys) = filter (\<lambda>r. \<not> is_RR_OPT r) (Extra m)"
    by (rule strip_loop_filter) simp_all
  then show ?thesis by (simp add: stripOPT_def case_prod_beta Let_def)
qed

lemma stripOPT_simps [simp]:
  "Answer (stripOPT m) = Answer m" "Ns (stripOPT m) = Ns m" "Question (stripOPT m) = Question m"
  "Rcode (stripOPT m) = Rcode m" "Extra (stripOPT m) = filter (\<lambda>r. \<not> is_RR_OPT r) (Extra m)"
  by (simp_all add: stripOPT_filter)

lemma last_sep_unique:
  assumes "c \<notin> set d" "c \<notin> set d'" "n @ c # d = n' @ c # d'"
  shows "n = n' \<and> d = d'"
proof -
  have "rev d @ c # rev n = rev d' @ c # rev n'" using arg_cong [OF assms(3), of rev] by simp
  moreover have "takeWhile (\<lambda>x. x \<noteq> c) (rev e @ c # m) = rev e" if "c \<notin> set e" for e m
    using that by (auto simp: takeWhile_tail takeWhile_eq_all_conv)
  ultimately have "rev d = rev d'" using assms(1,2) by metis
  with assms(3) show ?thesis by simp
qed

lemma colon_not_digit: "CHR '':'' \<notin> set (nat_digits n)"
  using nat_digits_digits [of "CHR '':''" n] by (auto simp: is_digit_def)

lemma hasSOA_iff: "hasSOA rrs \<longleftrightarrow> (\<exists>rr \<in> set rrs. is_RR_SOA rr)"
  by (induction rrs) auto

lemma soa_scan_spec:
  "soa_scan rrs = (case find is_RR_SOA rrs of None \<Rightarrow> None
     | Some rr \<Rightarrow> Some (rr, let t = min (Ttl (Header rr)) (Minttl (SOA_data rr)) in if t = 0 then 60 else t))"
  by (induction rrs) (auto simp: Let_def DefaultNegativeCacheTTL_def min_def word_greater_zero_iff split: RR.splits)

text \<open>No entry of the cache has an OPT record.\<close>

definition cache_clean :: "'c gocache \<Rightarrow> 'c \<Rightarrow> bool" where
  "cache_clean C c \<longleftrightarrow> (\<forall>t k m. gcGet C t k c = Some m \<longrightarrow> list_all (\<lambda>r. \<not> is_RR_OPT r) (Extra m))"

lemma setCacheCopy_clean [keeps]:
  assumes "gocache_laws (eGC E)" "cache_clean (eGC E) (wCache w)"
  shows "cache_clean (eGC E) (wCache (setCacheCopy E k v x w))"
  unfolding cache_clean_def setCacheCopy_cache
proof (intro allI impI)
  fix t k' m
  assume g: "gcGet (eGC E) t k' (gcSet (eGC E) (eNow E (wTick w)) k (stripOPT (MsgCopy (eLib E) v)) (uint x * 1000000000) (wCache w)) = Some m"
  show "list_all (\<lambda>r. \<not> is_RR_OPT r) (Extra m)"
  proof (cases "k' = k")
    case True
    have "0 \<le> uint x * 1000000000" by simp
    with g True assms(1) have "m = stripOPT (MsgCopy (eLib E) v)"
      unfolding gocache_laws_def by (metis option.distinct(1) option.inject)
    then show ?thesis by (simp add: list_all_iff)
  next
    case False
    with g assms(1) have "gcGet (eGC E) t k' (wCache w) = Some m" by (simp add: gocache_laws_def)
    with assms(2) show ?thesis by (simp add: cache_clean_def)
  qed
qed

section \<open>Properties\<close>

text \<open>
  The cache key determines the question: two name/type pairs have the same key only if they are
  equal, whatever bytes the names hold, and no such key is the bare zone name under which a
  delegation is cached (which is empty or ends in a dot).
\<close>

lemma cache_key_injective:
  "(getCacheKey n t = getCacheKey n' t' \<longleftrightarrow> n = n' \<and> t = t')
   \<and> getCacheKey n t \<noteq> z @ ''.'' \<and> getCacheKey n t \<noteq> []"
proof -
  have "getCacheKey n t = getCacheKey n' t' \<longleftrightarrow> n = n' \<and> t = t'"
    using last_sep_unique [of "CHR '':''" "nat_digits (unat t)" "nat_digits (unat t')" n n'] colon_not_digit
    by (auto simp: getCacheKey_def strconv_FormatUint_def word_unat_eq_iff)
  moreover have "getCacheKey n t \<noteq> z @ ''.''"
  proof
    assume "getCacheKey n t = z @ ''.''"
    then have "last (getCacheKey n t) = CHR ''.''" by simp
    moreover have "is_digit (last (getCacheKey n t))"
      using nat_digits_digits [OF last_in_set [OF nat_digits_not_Nil]] by (simp add: getCacheKey_def strconv_FormatUint_def)
    ultimately show False by (simp add: is_digit_def)
  qed
  ultimately show ?thesis by (simp add: getCacheKey_def)
qed

text \<open>
  C15. What is stored is what is found: after storing a message under a key, a lookup of that key in
  any later world with the same cache returns the message without its question and without its
  OPT records, until the TTL has passed; for a TTL of zero, until five minutes have passed.
\<close>

theorem cache_store_lookup:
  assumes "gocache_laws (eGC E)" "copy_laws (eLib E)" "wCache w' = wCache (setCacheCopy E k m ttl w)"
  shows "fst (getCacheCopy E k w') =
    (if eNow E (wTick w) + (if ttl = 0 then 300 else uint ttl) * 1000000000 < eNow E (wTick w') then None
     else Some (m\<lparr>Question := [], Extra := filter (\<lambda>r. \<not> is_RR_OPT r) (Extra m)\<rparr>))"
proof -
  have "0 \<le> uint ttl * 1000000000" by simp
  then have g: "gcGet (eGC E) (eNow E (wTick w')) k (wCache w') =
      (if expiry (eNow E (wTick w)) (uint ttl * 1000000000) < eNow E (wTick w') then None else Some (stripOPT m))"
    using assms unfolding assms(3) setCacheCopy_cache by (simp add: gocache_laws_def)
  have "shallowCopyMsg (stripOPT m) = m\<lparr>Question := [], Extra := filter (\<lambda>r. \<not> is_RR_OPT r) (Extra m)\<rparr>"
    by (simp add: shallowCopyMsg_def stripOPT_filter setMsgHdr_def newMsg_def)
  moreover have "expiry (eNow E (wTick w)) (uint ttl * 1000000000) = eNow E (wTick w) + (if ttl = 0 then 300 else uint ttl) * 1000000000"
    by (auto simp: expiry_def defaultExpiration_def uint_0_iff)
  ultimately show ?thesis
    by (simp add: getCacheCopy_def getCache_def Let_def g split: option.splits)
qed

theorem cache_store_lookup_witness:
  "fst (getCacheCopy ref_env ''a.:1'' (setCacheCopy ref_env ''a.:1'' newMsg 0 ref_world)) = Some newMsg"
  using cache_store_lookup [of ref_env "setCacheCopy ref_env ''a.:1'' newMsg 0 ref_world" "''a.:1''" newMsg 0 ref_world]
  by (simp add: ref_env_def newMsg_def)

text \<open>
  The in-place loop of \<open>stripOPT\<close>, which overwrites the slice it is reading, removes exactly the
  OPT records and keeps the others in order; the rest of the message is unchanged.
\<close>

lemma strip_opt_exact: "stripOPT m = m\<lparr>Extra := filter (\<lambda>r. \<not> is_RR_OPT r) (Extra m)\<rparr>"
  by (rule stripOPT_filter)

text \<open>
  The negative TTL follows RFC 2308: the first SOA record of the authority section decides, the
  TTL is the smaller of its own TTL and its MINIMUM field, 60 seconds where that is zero, and it is
  never zero when there is an SOA record.
\<close>

lemma negative_ttl_rule:
  "extractSOAFromAuthority m =
     (case find is_RR_SOA (Ns m) of
        None \<Rightarrow> (None, 0)
      | Some soa \<Rightarrow> (Some soa, if min (Ttl (Header soa)) (Minttl (SOA_data soa)) = 0 then 60
                               else min (Ttl (Header soa)) (Minttl (SOA_data soa))))
   \<and> (fst (extractSOAFromAuthority m) = None \<longleftrightarrow> \<not> hasSOAInAuthority m)
   \<and> (snd (extractSOAFromAuthority m) = 0 \<longleftrightarrow> \<not> hasSOAInAuthority m)"
proof -
  have "find is_RR_SOA (Ns m) = None \<longleftrightarrow> \<not> hasSOAInAuthority m"
    by (auto simp: hasSOAInAuthority_def hasSOA_iff find_None_iff)
  then show ?thesis
    by (auto simp: extractSOAFromAuthority_def soa_scan_spec Let_def split: option.splits)
qed

end
