(* ===== verification/Handlers.thy ===== *)
theory Handlers
  imports Dns_Cache
begin

text \<open>
  The states of the resolution state machine other than QUERY_UPSTREAM: state.go,
  state_shared.go, state_init.go, state_hosts.go, state_forward.go, state_cache_lookup.go,
  state_classify_resp.go, state_extract_glue.go, state_lookup_ns_cache.go and
  state_return_resp.go under src/server, with the gated exchange of state_query_upstream.go that
  forwarding shares.  A handler returns the state's return code, the error (None for nil), the
  state it leaves and the world; None is a panic.  The messages \<open>request\<close> and \<open>response\<close> are the
  ones all states of a resolution point to, so what a handler writes is passed on.
\<close>

section \<open>States and return codes\<close>

datatype state_kind =
    STATE_INIT | HOSTS_LOOKUP | FORWARD_LOOKUP | CACHE_LOOKUP | CLASSIFY_RESP
  | EXTRACT_GLUE | LOOKUP_NS_CACHE | QUERY_UPSTREAM | RETURN_RESP

fun state_num :: "state_kind \<Rightarrow> int" where
  "state_num STATE_INIT = 0" | "state_num HOSTS_LOOKUP = 1" | "state_num FORWARD_LOOKUP = 2"
| "state_num CACHE_LOOKUP = 3" | "state_num CLASSIFY_RESP = 4" | "state_num EXTRACT_GLUE = 5"
| "state_num LOOKUP_NS_CACHE = 6" | "state_num QUERY_UPSTREAM = 7" | "state_num RETURN_RESP = 8"

abbreviation (input) "COMMON_ERROR \<equiv> (- 1 :: int)"
abbreviation (input) "STATE_INIT_NO_ERROR \<equiv> (0 :: int)"
abbreviation (input) "STATE_INIT_FORMERR \<equiv> (1 :: int)"
abbreviation (input) "HOSTS_LOOKUP_HIT \<equiv> (0 :: int)"
abbreviation (input) "HOSTS_LOOKUP_MISS \<equiv> (1 :: int)"
abbreviation (input) "FORWARD_LOOKUP_HIT \<equiv> (0 :: int)"
abbreviation (input) "FORWARD_LOOKUP_MISS \<equiv> (1 :: int)"
abbreviation (input) "FORWARD_LOOKUP_SERVFAIL \<equiv> (2 :: int)"
abbreviation (input) "FORWARD_LOOKUP_REFUSED \<equiv> (3 :: int)"
abbreviation (input) "CACHE_LOOKUP_HIT \<equiv> (0 :: int)"
abbreviation (input) "CACHE_LOOKUP_MISS \<equiv> (1 :: int)"
abbreviation (input) "CLASSIFY_RESP_GET_ANS \<equiv> (0 :: int)"
abbreviation (input) "CLASSIFY_RESP_GET_CNAME \<equiv> (1 :: int)"
abbreviation (input) "CLASSIFY_RESP_GET_NS \<equiv> (2 :: int)"
abbreviation (input) "CLASSIFY_RESP_GET_NEGATIVE \<equiv> (3 :: int)"
abbreviation (input) "EXTRACT_GLUE_EXIST \<equiv> (0 :: int)"
abbreviation (input) "EXTRACT_GLUE_NOT_EXIST \<equiv> (1 :: int)"
abbreviation (input) "LOOKUP_NS_CACHE_HIT \<equiv> (0 :: int)"
abbreviation (input) "LOOKUP_NS_CACHE_MISS \<equiv> (1 :: int)"
abbreviation (input) "QUERY_UPSTREAM_NO_ERROR \<equiv> (0 :: int)"
abbreviation (input) "RETURN_RESP_NO_ERROR \<equiv> (0 :: int)"

text \<open>\<open>nsDepth\<close> is the value of the context key \<open>nsResolutionDepth\<close>.\<close>

record baseState =
  request :: "Msg option"
  response :: "Msg option"
  nsDepth :: nat

type_synonym 'c handled = "(int \<times> go_error option \<times> baseState \<times> 'c world) option"

section \<open>The gate and the limiter in the world\<close>

definition w_gate_release :: "'c env \<Rightarrow> 'c world \<Rightarrow> 'c world" where
  "w_gate_release E w = (let (g, es) = gate_release (eOn E) (wGate w) in emit_always es (w\<lparr>wGate := g\<rparr>))"

text \<open>A racer whose exchange has ended gives its slot back; the oracle says how many do so before
  the next call of the gate.\<close>

definition drain_one :: "'c env \<Rightarrow> 'c world \<Rightarrow> 'c world" where
  "drain_one E w = (if wPending w = 0 then w else (w_gate_release E w)\<lparr>wPending := wPending w - 1\<rparr>)"

definition drain_racers :: "'c env \<Rightarrow> 'c world \<Rightarrow> 'c world" where
  "drain_racers E w = (drain_one E ^^ eDrain E (wTick w)) (tick w)"

definition w_tryAcquire :: "'c env \<Rightarrow> upstreamGatePath \<Rightarrow> string \<Rightarrow> 'c world \<Rightarrow> bool \<times> 'c world" where
  "w_tryAcquire E path qname w =
     (let w = drain_racers E w;
          (ok, g, es) = gate_tryAcquire (eOn E) (eNow E (wTick w)) path qname (wGate w)
      in (ok, emit_always es ((tick w)\<lparr>wGate := g\<rparr>)))"

definition w_tryAcquireExpensiveRequest :: "'c env \<Rightarrow> expensivePath \<Rightarrow> string \<Rightarrow> string \<Rightarrow> 'c world \<Rightarrow> bool \<times> 'c world" where
  "w_tryAcquireExpensiveRequest E path qname fz w =
     (let (ok, h, l, es) = tryAcquireExpensiveRequest (eLib E) (\<lambda>i. eHz E (wTick w + i)) path qname fz (wHolder w) (wLimiter w)
      in (ok, emit_always es (w\<lparr>wTick := wTick w + 3, wHolder := h, wLimiter := l\<rparr>)))"

definition w_exchange :: "'c env \<Rightarrow> Msg \<Rightarrow> string \<Rightarrow> 'c world \<Rightarrow> (xerr + Msg \<times> int) \<times> 'c world" where
  "w_exchange E query target w = (eXchg E (wTick w) query target, tick w)"

definition exchangeWithHeldUpstreamGate ::
  "'c env \<Rightarrow> Msg \<Rightarrow> string \<Rightarrow> 'c world \<Rightarrow> (go_error + Msg \<times> int) \<times> 'c world"
where
  "exchangeWithHeldUpstreamGate E query target w =
     (let (r, w) = w_exchange E query target w;
          w = w_gate_release E w
      in (case r of Inl x \<Rightarrow> Inl (ErrExchange x) | Inr y \<Rightarrow> Inr y, w))"

definition exchangeWithUpstreamGate ::
  "'c env \<Rightarrow> Msg \<Rightarrow> string \<Rightarrow> upstreamGatePath \<Rightarrow> 'c world \<Rightarrow> (go_error + Msg \<times> int) \<times> 'c world"
where
  "exchangeWithUpstreamGate E query target path w =
     (let qname = (case Question query of [] \<Rightarrow> [] | q # _ \<Rightarrow> qName q);
          (ok, w) = w_tryAcquire E path qname w
      in if \<not> ok then (Inl ErrGateSaturated, w)
         else let (r, w) = w_exchange E query target w;
                  w = w_gate_release E w
              in (case r of Inl x \<Rightarrow> Inl (ErrExchange x) | Inr y \<Rightarrow> Inr y, w))"

section \<open>Handlers\<close>

definition stateInit_handle :: "'c env \<Rightarrow> baseState \<Rightarrow> 'c world \<Rightarrow> 'c handled" where
  "stateInit_handle E s w =
     (case (request s, response s) of
        (Some rq, Some rs) \<Rightarrow>
          if length (Question rq) \<noteq> 1 \<or> Response rq \<or> Opcode rq \<noteq> OpcodeQuery
          then Some (STATE_INIT_FORMERR, None, s\<lparr>response := Some (SetRcode (eLib E) rs rq RcodeFormatError)\<rparr>, w)
          else Some (STATE_INIT_NO_ERROR, None, s\<lparr>response := Some (SetReply (eLib E) rs rq)\<rparr>, w)
      | _ \<Rightarrow> Some (COMMON_ERROR, Some (ErrNil []), s, w))"

definition hostsLookup_handle :: "'c env \<Rightarrow> baseState \<Rightarrow> 'c world \<Rightarrow> 'c handled" where
  "hostsLookup_handle E s w =
     (case (request s, response s) of
        (Some rq, Some rs) \<Rightarrow>
          if length (hostsMap (eSnap E)) = 0 then Some (HOSTS_LOOKUP_MISS, None, s, w)
          else (case Question rq of
             [] \<Rightarrow> None
           | q # _ \<Rightarrow>
               let key = qName q @ '':'' @ nat_digits (unat (Qtype q))
               in (case map_of (hostsMap (eSnap E)) key of
                  Some cached \<Rightarrow>
                    Some (HOSTS_LOOKUP_HIT, None,
                      s\<lparr>response := Some (rs\<lparr>Answer := Answer rs @ map (RRCopy (eLib E)) (Answer cached),
                                            Authoritative := True, Rcode := RcodeSuccess\<rparr>)\<rparr>, w)
                | None \<Rightarrow>
                    if qName q \<in> set (hostsNames (eSnap E))
                    then Some (HOSTS_LOOKUP_HIT, None,
                      s\<lparr>response := Some (rs\<lparr>Authoritative := True, Rcode := RcodeSuccess\<rparr>)\<rparr>, w)
                    else Some (HOSTS_LOOKUP_MISS, None, s, w)))
      | _ \<Rightarrow> Some (COMMON_ERROR, Some (ErrNil ''HOSTS_LOOKUP''), s, w))"

text \<open>The loop over the upstreams of a forwarding zone.\<close>

definition forward_response :: "Msg \<Rightarrow> Msg \<Rightarrow> Msg \<Rightarrow> Msg" where
  "forward_response rq rs resp =
     (setMsgHdr rs resp)\<lparr>MsgId := MsgId rq, Response := True, Answer := Answer resp, Ns := Ns resp, Extra := Extra resp\<rparr>"

fun forward_loop :: "'c env \<Rightarrow> Msg \<Rightarrow> Msg \<Rightarrow> Msg \<Rightarrow> string list \<Rightarrow> 'c world \<Rightarrow> int \<times> Msg \<times> 'c world" where
  "forward_loop E rq rs query [] w = (FORWARD_LOOKUP_SERVFAIL, rs, w)"
| "forward_loop E rq rs query (upstream # ups) w =
     (let (r, w) = exchangeWithUpstreamGate E query upstream upstreamGatePathForward w
      in case r of
           Inl err \<Rightarrow> if err = ErrGateSaturated then (FORWARD_LOOKUP_SERVFAIL, rs, w)
                      else forward_loop E rq rs query ups w
         | Inr (resp, _) \<Rightarrow> (FORWARD_LOOKUP_HIT, forward_response rq rs resp, w))"

definition forward_match :: "dnslib \<Rightarrow> ForwardZone list \<Rightarrow> string \<Rightarrow> ForwardZone option" where
  "forward_match L zones qname = find (\<lambda>z. IsSubDomain L (fzZone z) qname) zones"

definition forwardLookup_handle :: "'c env \<Rightarrow> baseState \<Rightarrow> 'c world \<Rightarrow> 'c handled" where
  "forwardLookup_handle E s w =
     (case (request s, response s) of
        (Some rq, Some rs) \<Rightarrow>
          if length (forwardZones (eSnap E)) = 0 then Some (FORWARD_LOOKUP_MISS, None, s, w)
          else (case Question rq of
             [] \<Rightarrow> None
           | q # _ \<Rightarrow>
               (case forward_match (eLib E) (forwardZones (eSnap E)) (qName q) of
                  None \<Rightarrow> Some (FORWARD_LOOKUP_MISS, None, s, w)
                | Some matched \<Rightarrow>
                    let query = (SetQuestion (eLib E) (eId E (wTick w)) newMsg (qName q) (Qtype q))
                                  \<lparr>RecursionDesired := True, MsgId := eId E (wTick w + 1)\<rparr>;
                        (ok, w) = w_tryAcquireExpensiveRequest E expensivePathForward (qName q) (fzZone matched) (tick (tick w))
                    in if \<not> ok then Some (FORWARD_LOOKUP_REFUSED, None, s, w)
                       else let (ret, rs, w) = forward_loop E rq rs query (fzUpstreams matched) w
                            in Some (ret, None, s\<lparr>response := Some rs\<rparr>, w)))
      | _ \<Rightarrow> Some (COMMON_ERROR, Some (ErrNil ''FORWARD_LOOKUP''), s, w))"

definition cacheLookup_handle :: "'c env \<Rightarrow> baseState \<Rightarrow> 'c world \<Rightarrow> 'c handled" where
  "cacheLookup_handle E s w =
     (case (request s, response s) of
        (Some rq, Some rs) \<Rightarrow>
          (case Question rq of
             [] \<Rightarrow> None
           | q # _ \<Rightarrow>
               let (found, w) = getCacheCopyByType E (qName q) (Qtype q) w
               in (case found of
                  None \<Rightarrow> Some (CACHE_LOOKUP_MISS, None, s, w)
                | Some msgInCache \<Rightarrow>
                    if length (Answer msgInCache) \<noteq> 0
                    then Some (CACHE_LOOKUP_HIT, None,
                      s\<lparr>response := Some (rs\<lparr>Answer := Answer rs @ Answer msgInCache\<rparr>)\<rparr>, w)
                    else if hasSOAInAuthority msgInCache
                    then Some (CACHE_LOOKUP_HIT, None,
                      s\<lparr>response := Some (rs\<lparr>Rcode := Rcode msgInCache, Ns := Ns rs @ Ns msgInCache\<rparr>)\<rparr>, w)
                    else Some (CACHE_LOOKUP_MISS, None, s, w)))
      | _ \<Rightarrow> Some (COMMON_ERROR, Some (ErrNil []), s, w))"

definition cache_negative :: "'c env \<Rightarrow> DnsQuestion \<Rightarrow> Msg \<Rightarrow> 'c world \<Rightarrow> 'c world" where
  "cache_negative E q rs w =
     (case extractSOAFromAuthority rs of
        (Some soa, ttl) \<Rightarrow> setCacheCopyByType E (qName q) (Qtype q) rs ttl w
      | (None, _) \<Rightarrow> w)"

definition classifyResp_handle :: "'c env \<Rightarrow> baseState \<Rightarrow> 'c world \<Rightarrow> 'c handled" where
  "classifyResp_handle E s w =
     (case (request s, response s) of
        (Some rq, Some rs) \<Rightarrow>
          (case Question rq of
             [] \<Rightarrow> None
           | q # _ \<Rightarrow>
               if length (Answer rs) = 0 \<and> hasSOAInAuthority rs \<and> Rcode rs = RcodeNameError
               then Some (CLASSIFY_RESP_GET_NEGATIVE, None, s, cache_negative E q rs w)
               else if length (Answer rs) = 0 \<and> hasSOAInAuthority rs \<and> Rcode rs = RcodeSuccess
               then Some (CLASSIFY_RESP_GET_NEGATIVE, None, s, cache_negative E q rs w)
               else if length (Answer rs) = 0 then Some (CLASSIFY_RESP_GET_NS, None, s, w)
               else if list_ex (\<lambda>rr. Rrtype (Header rr) = Qtype q) (Answer rs)
               then Some (CLASSIFY_RESP_GET_ANS, None, s, w)
               else if Qtype q \<noteq> TypeCNAME \<and> list_ex is_RR_CNAME (Answer rs)
               then Some (CLASSIFY_RESP_GET_CNAME, None, s, w)
               else Some (CLASSIFY_RESP_GET_NS, None, s, w))
      | _ \<Rightarrow> Some (COMMON_ERROR, Some (ErrNil []), s, w))"

definition extractGlue_handle :: "'c env \<Rightarrow> baseState \<Rightarrow> 'c world \<Rightarrow> 'c handled" where
  "extractGlue_handle E s w =
     (case (request s, response s) of
        (Some rq, Some rs) \<Rightarrow>
          (case Ns rs of
             [] \<Rightarrow> Some (EXTRACT_GLUE_NOT_EXIST, None, s, w)
           | ns # _ \<Rightarrow>
               let cleared = Some (EXTRACT_GLUE_NOT_EXIST, None, s\<lparr>response := Some (rs\<lparr>Ns := [], Extra := []\<rparr>)\<rparr>, w)
               in if is_RR_NS ns
                  then (case Question rq of
                     [] \<Rightarrow> None
                   | q # _ \<Rightarrow> if IsSubDomain (eLib E) (Name (Header ns)) (qName q)
                              then Some (EXTRACT_GLUE_EXIST, None, s, w) else cleared)
                  else cleared)
      | _ \<Rightarrow> Some (COMMON_ERROR, Some (ErrNil []), s, w))"

text \<open>The loop over the zones of the name: the first zone with a cached delegation.\<close>

fun ns_cache_loop :: "'c env \<Rightarrow> string list \<Rightarrow> 'c world \<Rightarrow> Msg option \<times> 'c world" where
  "ns_cache_loop E [] w = (None, w)"
| "ns_cache_loop E (zone # zones) w =
     (let (found, w) = getCacheCopy E zone w
      in case found of
           None \<Rightarrow> ns_cache_loop E zones w
         | Some msgInCache \<Rightarrow>
             (case Ns msgInCache of
                [] \<Rightarrow> ns_cache_loop E zones w
              | ns # _ \<Rightarrow> if is_RR_NS ns then (Some msgInCache, w) else ns_cache_loop E zones w))"

definition lookupNSCache_handle :: "'c env \<Rightarrow> baseState \<Rightarrow> 'c world \<Rightarrow> 'c handled" where
  "lookupNSCache_handle E s w =
     (case (request s, response s) of
        (Some rq, Some rs) \<Rightarrow>
          (case Question rq of
             [] \<Rightarrow> None
           | q # _ \<Rightarrow>
               let (found, w) = ns_cache_loop E (GetZoneList (qName q)) w
               in (case found of
                  Some m \<Rightarrow> Some (LOOKUP_NS_CACHE_HIT, None,
                    s\<lparr>response := Some (rs\<lparr>Ns := Ns rs @ Ns m, Extra := Extra rs @ Extra m\<rparr>)\<rparr>, w)
                | None \<Rightarrow>
                    let rootGlue = GetRootGlue (eLib E) (eRootOverride E)
                    in Some (LOOKUP_NS_CACHE_MISS, None,
                      s\<lparr>response := Some (rs\<lparr>Ns := Ns rs @ Ns rootGlue, Extra := Extra rs @ Extra rootGlue\<rparr>)\<rparr>, w)))
      | _ \<Rightarrow> Some (COMMON_ERROR, Some (ErrNil []), s, w))"

definition returnResp_handle :: "'c env \<Rightarrow> baseState \<Rightarrow> 'c world \<Rightarrow> 'c handled" where
  "returnResp_handle E s w =
     (case (request s, response s) of
        (Some rq, Some rs) \<Rightarrow> Some (RETURN_RESP_NO_ERROR, None, s, w)
      | _ \<Rightarrow> Some (COMMON_ERROR, Some (ErrNil []), s, w))"

section \<open>What every handler keeps\<close>

text \<open>
  The laws of the two libraries, and what the unpacker of the dns package guarantees of messages
  from the network.
\<close>

definition env_ok :: "'c env \<Rightarrow> bool" where
  "env_ok E \<longleftrightarrow> copy_laws (eLib E) \<and> reply_laws (eLib E) \<and> question_laws (eLib E) \<and> gocache_laws (eGC E)
     \<and> (\<forall>i q t m r. eXchg E i q t = Inr (m, r) \<longrightarrow> msg_typed m)
     \<and> (\<forall>m. eRootOverride E = Some m \<longrightarrow> msg_typed m)"

definition cache_typed :: "'c gocache \<Rightarrow> 'c \<Rightarrow> bool" where
  "cache_typed C c \<longleftrightarrow> (\<forall>t k m. gcGet C t k c = Some m \<longrightarrow> list_all rr_typed (Extra m))"

text \<open>Each racer that is still running holds one slot of the gate.\<close>

definition world_ok :: "'c env \<Rightarrow> 'c world \<Rightarrow> bool" where
  "world_ok E w \<longleftrightarrow> cache_clean (eGC E) (wCache w) \<and> cache_typed (eGC E) (wCache w)
     \<and> int (wPending w) \<le> gateInflight (wGate w)"

definition gate_balance :: "'c world \<Rightarrow> int" where
  "gate_balance w = gateInflight (wGate w) - int (wPending w)"

definition advances :: "'c env \<Rightarrow> 'c world \<Rightarrow> 'c world \<Rightarrow> bool" where
  "advances E w w' \<longleftrightarrow> world_ok E w' \<and> gate_balance w' = gate_balance w \<and> gateLimit (wGate w') = gateLimit (wGate w)"

definition state_ok :: "baseState \<Rightarrow> bool" where
  "state_ok s \<longleftrightarrow> (\<exists>rq rs. request s = Some rq \<and> response s = Some rs \<and> length (Question rq) = 1
     \<and> list_all rr_typed (Extra rs))"

lemma advances_refl [simp]: "world_ok E w \<Longrightarrow> advances E w w"
  by (simp add: advances_def)

lemma advances_trans: "advances E w w' \<Longrightarrow> advances E w' w'' \<Longrightarrow> advances E w w''"
  by (simp add: advances_def)

lemma advances_world_ok: "advances E w w' \<Longrightarrow> world_ok E w'"
  by (simp add: advances_def)

lemma advances_frame:
  assumes "world_ok E w" "wCache w' = wCache w" "wGate w' = wGate w" "wPending w' = wPending w"
  shows "advances E w w'"
  using assms by (simp add: advances_def world_ok_def gate_balance_def)

lemma advances_setCacheCopy:
  assumes "env_ok E" "world_ok E w" "list_all rr_typed (Extra m)"
  shows "advances E w (setCacheCopy E k m x w)"
proof -
  have law: "gocache_laws (eGC E)" "MsgCopy (eLib E) m = m" using assms(1) by (simp_all add: env_ok_def)
  have t: "list_all rr_typed (Extra m')" if
    "gcGet (eGC E) t k' (gcSet (eGC E) (eNow E (wTick w)) k (stripOPT m) (uint x * 1000000000) (wCache w)) = Some m'" for t k' m'
  proof (cases "k' = k")
    case True
    have "0 \<le> uint x * 1000000000" by simp
    with that True law(1) have "m' = stripOPT m"
      unfolding gocache_laws_def by (metis option.distinct(1) option.inject)
    then show ?thesis using assms(3) by (auto simp: list_all_iff)
  next
    case False
    with that law(1) have "gcGet (eGC E) t k' (wCache w) = Some m'" by (simp add: gocache_laws_def)
    with assms(2) show ?thesis by (auto simp: world_ok_def cache_typed_def)
  qed
  have "cache_clean (eGC E) (wCache (setCacheCopy E k m x w))"
    using law(1) assms(2) by (intro setCacheCopy_clean) (simp_all add: world_ok_def)
  with t assms(2) law(2) show ?thesis
    by (simp add: advances_def world_ok_def gate_balance_def cache_typed_def setCacheCopy_cache)
qed

lemma advances_getCacheCopy: "world_ok E w \<Longrightarrow> advances E w (snd (getCacheCopy E k w))"
  by (rule advances_frame) simp_all

lemma getCacheCopy_typed:
  assumes "world_ok E w" "fst (getCacheCopy E k w) = Some m"
  shows "list_all rr_typed (Extra m)"
  using assms
  by (auto simp: getCacheCopy_def getCache_def Let_def world_ok_def cache_typed_def split: option.splits)

subsection \<open>The gate\<close>

lemma drain_one_advances: "world_ok E w \<Longrightarrow> advances E w (drain_one E w)"
  by (simp add: drain_one_def w_gate_release_def case_prod_beta Let_def advances_def world_ok_def gate_balance_def)

lemma drain_racers_advances:
  assumes "world_ok E w"
  shows "advances E w (drain_racers E w)"
proof -
  have "advances E w ((drain_one E ^^ n) (tick w))" for n
  proof (induction n)
    case 0
    show ?case using assms by (simp add: advances_frame)
  next
    case (Suc n)
    then show ?case using drain_one_advances advances_world_ok advances_trans by (metis comp_apply funpow.simps(2))
  qed
  then show ?thesis by (simp add: drain_racers_def)
qed

lemma w_tryAcquire_refused:
  assumes "world_ok E w" "w_tryAcquire E p q w = (False, w')"
  shows "advances E w w'"
proof -
  have d: "advances E w (drain_racers E w)" using assms(1) by (rule drain_racers_advances)
  have "advances E (drain_racers E w) w'"
    using advances_world_ok [OF d] assms(2)
    by (auto simp: w_tryAcquire_def case_prod_beta Let_def advances_def world_ok_def gate_balance_def
        gate_tryAcquire_frame [symmetric])
  with d show ?thesis by (rule advances_trans)
qed

text \<open>A granted slot: everything as before but one more in flight.\<close>

definition holds_slots :: "'c env \<Rightarrow> nat \<Rightarrow> 'c world \<Rightarrow> 'c world \<Rightarrow> bool" where
  "holds_slots E n w w' \<longleftrightarrow> world_ok E w' \<and> gate_balance w' = gate_balance w + int n
     \<and> gateLimit (wGate w') = gateLimit (wGate w) \<and> 0 \<le> gate_balance w"

lemma world_ok_balance: "world_ok E w \<Longrightarrow> 0 \<le> gate_balance w"
  by (simp add: world_ok_def gate_balance_def)

lemma holds_slots_0: "world_ok E w \<Longrightarrow> holds_slots E 0 w w' = advances E w w'"
  by (auto simp: holds_slots_def advances_def world_ok_balance)

lemma w_tryAcquire_granted:
  assumes "world_ok E w" "w_tryAcquire E p q w = (True, w')"
  shows "holds_slots E 1 w w'"
proof -
  have d: "advances E w (drain_racers E w)" using assms(1) by (rule drain_racers_advances)
  let ?g = "gate_tryAcquire (eOn E) (eNow E (wTick (drain_racers E w))) p q (wGate (drain_racers E w))"
  have w': "w' = emit_always (snd (snd ?g)) ((tick (drain_racers E w))\<lparr>wGate := fst (snd ?g)\<rparr>)" "fst ?g"
    using assms(2) by (simp_all add: w_tryAcquire_def case_prod_beta Let_def)
  then show ?thesis using d world_ok_balance [OF assms(1)]
    by (simp add: holds_slots_def advances_def world_ok_def gate_balance_def)
qed

lemma holds_slots_cong:
  assumes "wCache w'' = wCache w'" "wGate w'' = wGate w'" "wPending w'' = wPending w'"
  shows "holds_slots E n w w'' = holds_slots E n w w'"
  using assms by (simp add: holds_slots_def world_ok_def gate_balance_def)

lemma w_gate_release_holds: "holds_slots E (Suc n) w w' \<Longrightarrow> holds_slots E n w (w_gate_release E w')"
  by (simp add: holds_slots_def w_gate_release_def case_prod_beta Let_def world_ok_def gate_balance_def)

lemma exchangeWithUpstreamGate_advances:
  assumes "world_ok E w"
  shows "advances E w (snd (exchangeWithUpstreamGate E q t p w))"
proof -
  define n where "n = (case Question q of [] \<Rightarrow> [] | x # _ \<Rightarrow> qName x)"
  define ok w1 where "ok = fst (w_tryAcquire E p n w)" and "w1 = snd (w_tryAcquire E p n w)"
  have a: "w_tryAcquire E p n w = (ok, w1)" by (simp add: ok_def w1_def)
  have e: "snd (exchangeWithUpstreamGate E q t p w) = (if ok then w_gate_release E (snd (w_exchange E q t w1)) else w1)"
    by (simp add: exchangeWithUpstreamGate_def n_def [symmetric] a case_prod_beta)
  show ?thesis
  proof (cases ok)
    case True
    with a have "w_tryAcquire E p n w = (True, w1)" by simp
    then have "holds_slots E 1 w w1" by (rule w_tryAcquire_granted [OF assms])
    then have "holds_slots E (Suc 0) w (snd (w_exchange E q t w1))"
      using holds_slots_cong [of "tick w1" w1 E "Suc 0" w] by (simp add: w_exchange_def)
    then have "holds_slots E 0 w (w_gate_release E (snd (w_exchange E q t w1)))" by (rule w_gate_release_holds)
    with True e show ?thesis by (simp add: holds_slots_0 [OF assms])
  next
    case False
    with a have "w_tryAcquire E p n w = (False, w1)" by simp
    with False e show ?thesis by (simp add: w_tryAcquire_refused [OF assms])
  qed
qed

lemma exchangeWithUpstreamGate_cache: "wCache (snd (exchangeWithUpstreamGate E q t p w)) = wCache w"
proof -
  have "wCache ((drain_one E ^^ n) w) = wCache w" for n w
    by (induction n) (simp_all add: drain_one_def w_gate_release_def case_prod_beta Let_def)
  then have "wCache (snd (w_tryAcquire E p x w)) = wCache w" for x
    by (simp add: w_tryAcquire_def drain_racers_def case_prod_beta Let_def)
  then show ?thesis by (simp add: exchangeWithUpstreamGate_def w_exchange_def w_gate_release_def case_prod_beta Let_def)
qed

lemma env_ok_exchange: "env_ok E \<Longrightarrow> eXchg E i q t = Inr (m, r) \<Longrightarrow> msg_typed m"
  unfolding env_ok_def by blast

lemma exchangeWithUpstreamGate_typed:
  assumes "env_ok E" "fst (exchangeWithUpstreamGate E q t p w) = Inr (m, r)"
  shows "msg_typed m"
  using assms(2) env_ok_exchange [OF assms(1)]
  by (auto simp: exchangeWithUpstreamGate_def w_exchange_def case_prod_beta Let_def split: if_splits sum.splits)

lemma w_tryAcquireExpensiveRequest_advances:
  "world_ok E w \<Longrightarrow> advances E w (snd (w_tryAcquireExpensiveRequest E p q z w))"
  by (rule advances_frame) (simp_all add: w_tryAcquireExpensiveRequest_def case_prod_beta Let_def)

section \<open>The contract of a handler\<close>

text \<open>
  On a request with one question and a well-formed world, a handler does not panic, leaves the
  request and the context alone, keeps the question of the response or makes it that of the
  request, keeps the response a reply to the request, keeps the records typed and the gate
  balanced, and, unless it returns an error, returns one of its codes.
\<close>

definition answers :: "Msg \<Rightarrow> Msg \<Rightarrow> bool" where
  "answers rq rs \<longleftrightarrow> MsgId rs = MsgId rq \<and> Response rs"

definition handled_ok :: "'c env \<Rightarrow> int set \<Rightarrow> baseState \<Rightarrow> 'c world \<Rightarrow> int \<times> go_error option \<times> baseState \<times> 'c world \<Rightarrow> bool" where
  "handled_ok E codes s w r \<longleftrightarrow> (case r of (ret, err, s', w') \<Rightarrow>
     request s' = request s \<and> nsDepth s' = nsDepth s \<and> state_ok s' \<and> advances E w w'
     \<and> (Question (the (response s')) = Question (the (response s)) \<or> Question (the (response s')) = Question (the (request s)))
     \<and> (answers (the (request s)) (the (response s)) \<longrightarrow> answers (the (request s)) (the (response s')))
     \<and> (err = None \<longrightarrow> ret \<in> codes))"

locale state_handler =
  fixes handle :: "'c env \<Rightarrow> baseState \<Rightarrow> 'c world \<Rightarrow> 'c handled"
    and codes :: "int set"
  assumes handle_ok: "env_ok E \<Longrightarrow> state_ok s \<Longrightarrow> world_ok E w \<Longrightarrow> wp (handle E s w) (handled_ok E codes s w)"
begin

lemma no_panic: "env_ok E \<Longrightarrow> state_ok s \<Longrightarrow> world_ok E w \<Longrightarrow> handle E s w \<noteq> None"
  using handle_ok [of E s w] by (auto simp: wp_result)

lemma handle_cases:
  assumes "env_ok E" "state_ok s" "world_ok E w"
  obtains ret err s' w' where "handle E s w = Some (ret, err, s', w')" "handled_ok E codes s w (ret, err, s', w')"
  using handle_ok [OF assms] by (auto simp: wp_result)

end

lemma state_okE:
  assumes "state_ok s"
  obtains rq rs q where "request s = Some rq" "response s = Some rs" "Question rq = [q]" "list_all rr_typed (Extra rs)"
  using assms by (auto simp: state_ok_def length_Suc_conv)

lemma forward_loop_ok:
  assumes "env_ok E" "world_ok E w" "list_all rr_typed (Extra rs)"
  shows "case forward_loop E rq rs query ups w of (ret, rs', w') \<Rightarrow>
    ret \<in> {0, 2} \<and> advances E w w' \<and> list_all rr_typed (Extra rs') \<and> Question rs' = Question rs
    \<and> (answers rq rs \<longrightarrow> answers rq rs')"
  using assms(2)
proof (induction ups arbitrary: w)
  case Nil
  then show ?case using assms by simp
next
  case (Cons u ups)
  let ?x = "exchangeWithUpstreamGate E query u upstreamGatePathForward w"
  have a: "advances E w (snd ?x)" using Cons.prems by (rule exchangeWithUpstreamGate_advances)
  show ?case
  proof (cases "fst ?x")
    case (Inl err)
    then show ?thesis
      using a assms(3) Cons.IH [OF advances_world_ok [OF a]] advances_trans [OF a]
      by (auto simp: case_prod_beta Let_def)
  next
    case (Inr p)
    obtain m r where p: "p = (m, r)" by fastforce
    with Inr have "msg_typed m" using exchangeWithUpstreamGate_typed [OF assms(1)] by blast
    then show ?thesis using Inr p a
      by (simp add: case_prod_beta Let_def forward_response_def msg_typed_def answers_def)
  qed
qed

lemma root_glue_typed: "env_ok E \<Longrightarrow> list_all rr_typed (Extra (GetRootGlue (eLib E) (eRootOverride E)))"
  by (auto simp: GetRootGlue_def env_ok_def msg_typed_def rootExtra_def rootServers_def split: option.splits)

lemma ns_cache_loop_ok:
  assumes "world_ok E w"
  shows "advances E w (snd (ns_cache_loop E zs w)) \<and> (\<forall>m. fst (ns_cache_loop E zs w) = Some m \<longrightarrow> list_all rr_typed (Extra m))"
  using assms
proof (induction zs arbitrary: w)
  case (Cons z zs)
  let ?x = "getCacheCopy E z w"
  have a: "advances E w (snd ?x)" using Cons.prems by (rule advances_getCacheCopy)
  note IH = Cons.IH [OF advances_world_ok [OF a]]
  show ?case
    using a IH getCacheCopy_typed [OF Cons.prems, of z] advances_trans [OF a]
    by (auto simp: case_prod_beta Let_def split: option.splits list.splits)
qed simp

interpretation init_state: state_handler stateInit_handle "{0, 1}"
proof
  fix E :: "'c env" and s w
  assume "env_ok E" "state_ok s" "world_ok E w"
  then show "wp (stateInit_handle E s w) (handled_ok E {0, 1} s w)"
    by (elim state_okE) (auto simp: stateInit_handle_def handled_ok_def answers_def state_ok_def env_ok_def)
qed

interpretation hosts_state: state_handler hostsLookup_handle "{0, 1}"
proof
  fix E :: "'c env" and s w
  assume "env_ok E" "state_ok s" "world_ok E w"
  then show "wp (hostsLookup_handle E s w) (handled_ok E {0, 1} s w)"
    by (elim state_okE) (auto simp: hostsLookup_handle_def handled_ok_def answers_def state_ok_def Let_def split: option.splits)
qed

interpretation forward_state: state_handler forwardLookup_handle "{0, 1, 2, 3}"
proof
  fix E :: "'c env" and s w
  assume e: "env_ok E" and w: "world_ok E w" and "state_ok s"
  then obtain rq rs q where s: "request s = Some rq" "response s = Some rs" "Question rq = [q]" "list_all rr_typed (Extra rs)"
    by (elim state_okE)
  let ?a = "\<lambda>z. w_tryAcquireExpensiveRequest E expensivePathForward (qName q) z (tick (tick w))"
  have t: "advances E w (tick (tick w))" using w by (rule advances_frame) simp_all
  then have a: "advances E w (snd (?a z))" for z
    using advances_world_ok advances_trans w_tryAcquireExpensiveRequest_advances by metis
  have f: "case forward_loop E rq rs query ups (snd (?a z)) of (ret, rs', w') \<Rightarrow>
    ret \<in> {0, 2} \<and> advances E w w' \<and> list_all rr_typed (Extra rs') \<and> Question rs' = Question rs
    \<and> (answers rq rs \<longrightarrow> answers rq rs')" for query ups z
  proof -
    note fl = forward_loop_ok [OF e advances_world_ok [OF a [of z]] s(4), of rq query ups]
    show ?thesis using fl advances_trans [OF a [of z]] by (auto simp: case_prod_beta)
  qed
  show "wp (forwardLookup_handle E s w) (handled_ok E {0, 1, 2, 3} s w)"
    using s w a f
    by (auto simp: forwardLookup_handle_def handled_ok_def state_ok_def case_prod_beta Let_def split: option.splits)
qed

interpretation cache_state: state_handler cacheLookup_handle "{0, 1}"
proof
  fix E :: "'c env" and s w
  assume e: "env_ok E" and w: "world_ok E w" and "state_ok s"
  then show "wp (cacheLookup_handle E s w) (handled_ok E {0, 1} s w)"
    using advances_getCacheCopy [OF w]
    by (elim state_okE)
      (auto simp: cacheLookup_handle_def handled_ok_def answers_def state_ok_def getCacheCopyByType_def case_prod_beta Let_def split: option.splits)
qed

interpretation classify_state: state_handler classifyResp_handle "{0, 1, 2, 3}"
proof
  fix E :: "'c env" and s w
  assume e: "env_ok E" and w: "world_ok E w" and "state_ok s"
  then obtain rq rs q where s: "request s = Some rq" "response s = Some rs" "Question rq = [q]" "list_all rr_typed (Extra rs)"
    by (elim state_okE)
  have "advances E w (cache_negative E q rs w)"
    using w advances_setCacheCopy [OF e w s(4)]
    by (auto simp: cache_negative_def setCacheCopyByType_def split: option.splits prod.splits)
  with s w show "wp (classifyResp_handle E s w) (handled_ok E {0, 1, 2, 3} s w)"
    by (auto simp: classifyResp_handle_def handled_ok_def answers_def state_ok_def)
qed

interpretation glue_state: state_handler extractGlue_handle "{0, 1}"
proof
  fix E :: "'c env" and s w
  assume "env_ok E" "state_ok s" "world_ok E w"
  then show "wp (extractGlue_handle E s w) (handled_ok E {0, 1} s w)"
    by (elim state_okE) (auto simp: extractGlue_handle_def handled_ok_def answers_def state_ok_def Let_def split: list.splits)
qed

interpretation nscache_state: state_handler lookupNSCache_handle "{0, 1}"
proof
  fix E :: "'c env" and s w
  assume e: "env_ok E" and w: "world_ok E w" and "state_ok s"
  then obtain rq rs q where s: "request s = Some rq" "response s = Some rs" "Question rq = [q]" "list_all rr_typed (Extra rs)"
    by (elim state_okE)
  then show "wp (lookupNSCache_handle E s w) (handled_ok E {0, 1} s w)"
    using ns_cache_loop_ok [OF w, of "GetZoneList (qName q)"] root_glue_typed [OF e]
    by (auto simp: lookupNSCache_handle_def handled_ok_def answers_def state_ok_def case_prod_beta Let_def split: option.splits)
qed

interpretation return_state: state_handler returnResp_handle "{0}"
proof
  fix E :: "'c env" and s w
  assume "env_ok E" "state_ok s" "world_ok E w"
  then show "wp (returnResp_handle E s w) (handled_ok E {0} s w)"
    by (elim state_okE) (auto simp: returnResp_handle_def handled_ok_def answers_def state_ok_def)
qed

end
