(* ===== verification/Query_Upstream.thy ===== *)
theory Query_Upstream
  imports Handlers
begin

text \<open>
  The state QUERY_UPSTREAM (src/server/state_query_upstream.go): the addresses of the delegated
  name servers, the race of two upstreams, the retry after a bad response code, and what is cached.
  Resolving a name server runs the state machine again; that run is the argument \<open>nested\<close>, which
  the state machine's theory instantiates with itself.

  The workers that resolve name servers run one after the other here, in an order the scheduler
  chooses; once a result is in, a worker may stop before it starts or drop its result, as the code
  allows after \<open>cancel\<close>.  The background update of the cache runs before the caller goes on.
\<close>

section \<open>Small functions\<close>

definition getIterPort :: "'c env \<Rightarrow> string" where
  "getIterPort E = (if ePortOverride E \<noteq> [] then ePortOverride E else ''53'')"

definition DEFAULT_UPSTREAM_TIMEOUT :: int where
  "DEFAULT_UPSTREAM_TIMEOUT = 1500 * 1000000"

definition SetUpstreamTimeout :: "int \<Rightarrow> int \<Rightarrow> int" where
  "SetUpstreamTimeout d timeout = (if d < 100 * 1000000 then timeout else d)"

fun classifyUpstreamError :: "go_error option \<Rightarrow> string" where
  "classifyUpstreamError None = ''none''"
| "classifyUpstreamError (Some (ErrExchange XDeadlineExceeded)) = ''timeout''"
| "classifyUpstreamError (Some (ErrExchange XCanceled)) = ''context_canceled''"
| "classifyUpstreamError (Some (ErrExchange XNetTimeout)) = ''timeout''"
| "classifyUpstreamError _ = ''transport_error''"

definition w_recordFailure :: "'c env \<Rightarrow> string \<Rightarrow> 'c world \<Rightarrow> 'c world" where
  "w_recordFailure E addr w =
     (case GetIPQualityV2 addr (wPool w) of
        None \<Rightarrow> w
      | Some iqv2 \<Rightarrow> (tick w)\<lparr>wPool := SetIPQualityV2 addr (RecordFailure (eNow E (wTick w)) iqv2) (wPool w)\<rparr>)"

definition w_recordLatency :: "'c env \<Rightarrow> string \<Rightarrow> int \<Rightarrow> 'c world \<Rightarrow> 'c world" where
  "w_recordLatency E addr rtt w =
     (case GetIPQualityV2 addr (wPool w) of
        None \<Rightarrow> w
      | Some iqv2 \<Rightarrow>
          let iqv2 = RecordLatency (eNow E (wTick w)) (int32 (go_div rtt 1000000)) iqv2
          in emit_always [IPQualityV2GaugeSet addr (GetP50Latency iqv2) (GetP95Latency iqv2) (GetP99Latency iqv2)]
               ((tick w)\<lparr>wPool := SetIPQualityV2 addr iqv2 (wPool w)\<rparr>))"

definition w_recordDegraded :: "'c env \<Rightarrow> upstreamGatePath \<Rightarrow> string \<Rightarrow> string \<Rightarrow> 'c world \<Rightarrow> 'c world" where
  "w_recordDegraded E path action qname w =
     (let (g, es) = recordDegraded (eOn E) (eNow E (wTick w)) path action qname (wGate w)
      in emit_always es ((tick w)\<lparr>wGate := g\<rparr>))"

section \<open>Happy Eyeballs\<close>

definition target_of :: "string \<Rightarrow> string \<Rightarrow> string" where
  "target_of addr port = addr @ '':'' @ port"

record happyEyeballsResult =
  he_addr :: string
  he_response :: Msg
  he_rtt :: int

definition queryHappyEyeballs_single ::
  "'c env \<Rightarrow> Msg \<Rightarrow> string \<Rightarrow> string \<Rightarrow> 'c world \<Rightarrow> (go_error + happyEyeballsResult) \<times> 'c world"
where
  "queryHappyEyeballs_single E query bestAddr port w =
     (let (r, w) = exchangeWithUpstreamGate E query (target_of bestAddr port) upstreamGatePathIterative w
      in case r of
           Inl err \<Rightarrow>
             let w = (if err \<noteq> ErrGateSaturated then emit_on E [UpstreamFailureAdd (classifyUpstreamError (Some err)) ''NONE''] w else w);
                 w = (if err \<noteq> ErrGateSaturated then w_recordFailure E bestAddr w else w)
             in (Inl err, w)
         | Inr (resp, rtt) \<Rightarrow>
             (Inr \<lparr>he_addr = bestAddr, he_response = resp, he_rtt = rtt\<rparr>, emit_on E [UpstreamWinnerAdd ''single''] w))"

text \<open>A racer reports a success: the other one is cancelled and still holds its slot.\<close>

definition race_won :: "'c env \<Rightarrow> string \<Rightarrow> string \<Rightarrow> 'c world \<Rightarrow> 'c world" where
  "race_won E bestAddr addr w =
     emit_on E [UpstreamWinnerAdd (if addr = bestAddr then ''primary'' else ''secondary'')] w"

definition race_lost :: "'c env \<Rightarrow> string \<Rightarrow> go_error \<Rightarrow> 'c world \<Rightarrow> 'c world" where
  "race_lost E addr err w = w_recordFailure E addr (emit_on E [UpstreamFailureAdd (classifyUpstreamError (Some err)) ''NONE''] w)"

definition race ::
  "'c env \<Rightarrow> Msg \<Rightarrow> string \<Rightarrow> string \<Rightarrow> string \<Rightarrow> 'c world \<Rightarrow> (go_error + happyEyeballsResult) \<times> 'c world"
where
  "race E query bestAddr secondAddr port w =
     (let (a1, a2) = (if eSecondFirst E (wTick w) then (secondAddr, bestAddr) else (bestAddr, secondAddr));
          (r1, w) = exchangeWithHeldUpstreamGate E (MsgCopy (eLib E) query) (target_of a1 port) (tick w)
      in case r1 of
           Inr (resp, rtt) \<Rightarrow>
             (Inr \<lparr>he_addr = a1, he_response = resp, he_rtt = rtt\<rparr>, race_won E bestAddr a1 (w\<lparr>wPending := wPending w + 1\<rparr>))
         | Inl err1 \<Rightarrow>
             let w = race_lost E a1 err1 w;
                 (r2, w) = exchangeWithHeldUpstreamGate E (MsgCopy (eLib E) query) (target_of a2 port) w
             in (case r2 of
                   Inr (resp, rtt) \<Rightarrow>
                     (Inr \<lparr>he_addr = a2, he_response = resp, he_rtt = rtt\<rparr>, race_won E bestAddr a2 w)
                 | Inl err2 \<Rightarrow> (Inl (ErrAllUpstreamFailed err1), race_lost E a2 err2 w)))"

definition queryHappyEyeballs ::
  "'c env \<Rightarrow> Msg \<Rightarrow> string \<Rightarrow> string \<Rightarrow> string \<Rightarrow> 'c world \<Rightarrow> (go_error + happyEyeballsResult) \<times> 'c world"
where
  "queryHappyEyeballs E query bestAddr secondAddr port w =
     (let qname = (case Question query of [] \<Rightarrow> [] | q # _ \<Rightarrow> qName q)
      in if secondAddr = [] then queryHappyEyeballs_single E query bestAddr port w
         else if shouldDegradeFanout (wGate w)
         then queryHappyEyeballs_single E query bestAddr port
                (w_recordDegraded E upstreamGatePathHappyEyeballs ''degraded_single'' qname w)
         else let (ok1, w) = w_tryAcquire E upstreamGatePathIterative qname w
              in if \<not> ok1 then (Inl ErrGateSaturated, w)
                 else let (ok2, w) = w_tryAcquire E upstreamGatePathHappyEyeballs qname w
                      in if \<not> ok2
                         then let w = w_gate_release E w;
                                  w = w_recordDegraded E upstreamGatePathHappyEyeballs ''degraded_single'' qname w
                              in queryHappyEyeballs_single E query bestAddr port w
                         else race E query bestAddr secondAddr port w)"

section \<open>Addresses of the name servers\<close>

fun ip_list :: "RR list \<Rightarrow> string list option" where
  "ip_list [] = Some []"
| "ip_list (extra # rest) =
     (if Rrtype (Header extra) = TypeA
      then if is_RR_A extra
           then do { ips \<leftarrow> ip_list rest; Some (IP_String (A_addr extra) # ips) }
           else None
      else ip_list rest)"

definition getIPListFromResponse :: "Msg \<Rightarrow> string list option" where
  "getIPListFromResponse m = ip_list (Extra m)"

definition getNSNamesFromResponse :: "Msg \<Rightarrow> string list" where
  "getNSNamesFromResponse m = map NS_Ns (filter is_RR_NS (Ns m))"

definition answer_ips :: "RR list \<Rightarrow> string list" where
  "answer_ips rrs = map (\<lambda>a. IP_String (A_addr a)) (filter is_RR_A rrs)"

fun resolveNSIPs :: "'c env \<Rightarrow> string list \<Rightarrow> 'c world \<Rightarrow> string list \<times> 'c world" where
  "resolveNSIPs E [] w = ([], w)"
| "resolveNSIPs E (nsName # names) w =
     (let (found, w) = getCacheCopyByType E nsName TypeA w;
          (ips, w) = resolveNSIPs E names w
      in (case found of None \<Rightarrow> ips | Some m \<Rightarrow> answer_ips (Answer m) @ ips, w))"

type_synonym 'c resolver = "'c env \<Rightarrow> baseState \<Rightarrow> 'c world \<Rightarrow> ((Msg option \<times> go_error option) \<times> 'c world) option"

text \<open>One worker: None when it stopped early, failed or dropped its result.\<close>

definition ns_query :: "'c env \<Rightarrow> string \<Rightarrow> 'c world \<Rightarrow> Msg" where
  "ns_query E name w = (SetQuestion (eLib E) (eId E (wTick w)) newMsg name TypeA)\<lparr>RecursionDesired := False\<rparr>"

definition ns_worker ::
  "'c resolver \<Rightarrow> 'c env \<Rightarrow> nat \<Rightarrow> bool \<Rightarrow> string \<Rightarrow> 'c world \<Rightarrow> ((string \<times> string list) option \<times> 'c world) option"
where
  "ns_worker nested E depth cancelled name w =
     (if (cancelled \<or> eCtxErr E (wTick w) \<noteq> None) \<and> eSkip E (wTick w) then Some (None, tick w)
      else do {
        let w = tick w;
        ((result, err), w) \<leftarrow> nested E \<lparr>request = Some (ns_query E name w), response = Some newMsg, nsDepth = depth\<rparr> (tick w);
        if err \<noteq> None then Some (None, w)
        else (case result of
                None \<Rightarrow> None
              | Some msg \<Rightarrow>
                  let ips = answer_ips (Answer msg)
                  in if ips = [] then Some (None, w)
                     else if (cancelled \<or> eCtxErr E (wTick w) \<noteq> None) \<and> eDrop E (wTick w) then Some (None, tick w)
                     else Some (Some (name, ips), tick w))
      })"

fun ns_workers ::
  "'c resolver \<Rightarrow> 'c env \<Rightarrow> nat \<Rightarrow> (string \<times> string list) list \<Rightarrow> string list \<Rightarrow> 'c world \<Rightarrow> ((string \<times> string list) list \<times> 'c world) option"
where
  "ns_workers nested E depth results [] w = Some (results, w)"
| "ns_workers nested E depth results (name # names) w = do {
     (r, w) \<leftarrow> ns_worker nested E depth (results \<noteq> []) name w;
     ns_workers nested E depth (case r of None \<Rightarrow> results | Some x \<Rightarrow> results @ [x]) names w
   }"

definition ns_cache_msg :: "'c env \<Rightarrow> string \<Rightarrow> string list \<Rightarrow> 'c world \<Rightarrow> Msg" where
  "ns_cache_msg E name ips w =
     (SetQuestion (eLib E) (eId E (wTick w)) newMsg name TypeA)
       \<lparr>Response := True,
        Answer := Answer (SetQuestion (eLib E) (eId E (wTick w)) newMsg name TypeA)
          @ map (\<lambda>ip. RR_A \<lparr>Name = name, Rrtype = TypeA, Class = ClassINET, Ttl = 300\<rparr> (ParseIPv4 ip)) ips\<rparr>"

fun updateNSIPsCache :: "'c env \<Rightarrow> (string \<times> string list) list \<Rightarrow> 'c world \<Rightarrow> 'c world" where
  "updateNSIPsCache E [] w = w"
| "updateNSIPsCache E ((name, ips) # results) w =
     updateNSIPsCache E results (setCacheCopyByType E name TypeA (ns_cache_msg E name ips w) 300 (tick w))"

text \<open>The order in which the workers run: what the scheduler says, if it is an order of them.\<close>

definition worker_order :: "'c env \<Rightarrow> string list \<Rightarrow> 'c world \<Rightarrow> string list" where
  "worker_order E names w = (let o' = eSched E (wTick w) names in if mset o' = mset names then o' else names)"

definition resolveNSIPsConcurrently ::
  "'c resolver \<Rightarrow> 'c env \<Rightarrow> nat \<Rightarrow> string list \<Rightarrow> 'c world \<Rightarrow> (string list \<times> 'c world) option"
where
  "resolveNSIPsConcurrently nested E depth nsNames w =
     (if length nsNames = 0 then Some ([], w)
      else if 0 < depth then Some ([], w)
      else do {
        let w = (if 1 < length nsNames \<and> shouldDegradeFanout (wGate w)
                 then w_recordDegraded E upstreamGatePathNSResolution ''degraded_serial'' (hd nsNames) w else w);
        (allResults, w) \<leftarrow> ns_workers nested E (depth + 1) [] (worker_order E nsNames w) (tick w);
        (case allResults of
           [] \<Rightarrow> Some ([], w)
         | r # rest \<Rightarrow> Some (snd r, updateNSIPsCache E rest w))
      })"

definition getBestAddressAndPrefetchIPs :: "'c env \<Rightarrow> string list \<Rightarrow> 'c world \<Rightarrow> (string \<times> string \<times> go_error option) \<times> 'c world" where
  "getBestAddressAndPrefetchIPs E ipList w =
     (if length ipList = 0 then (([], [], Some ErrNoIP), w)
      else let ((bestIP, backupIP), pool) = GetBestIPsV2 (eSortScores E) (eNow E (wTick w)) ipList (wPool w)
           in ((bestIP, backupIP, None), (tick w)\<lparr>wPool := pool\<rparr>))"

section \<open>The handler\<close>

definition qu_addresses :: "'c resolver \<Rightarrow> 'c env \<Rightarrow> nat \<Rightarrow> Msg \<Rightarrow> 'c world \<Rightarrow> (string list \<times> 'c world) option" where
  "qu_addresses nested E depth rs w = do {
     ipList \<leftarrow> getIPListFromResponse rs;
     if length ipList = 0 \<and> 0 < length (Ns rs)
     then let nsNames = getNSNamesFromResponse rs;
              (ipList, w) = resolveNSIPs E nsNames w
          in if length ipList = 0 then resolveNSIPsConcurrently nested E depth nsNames w else Some (ipList, w)
     else Some (ipList, w)
   }"

text \<open>The end of the handler: the response is checked against the request, cached, and handed on.\<close>

definition qu_finish :: "'c env \<Rightarrow> baseState \<Rightarrow> Msg \<Rightarrow> DnsQuestion \<Rightarrow> Msg \<Rightarrow> 'c world \<Rightarrow> 'c handled" where
  "qu_finish E s rs q newResponse w =
     (case Question newResponse of
        [] \<Rightarrow> Some (COMMON_ERROR, Some ErrNoQuestion, s, w)
      | nq # _ \<Rightarrow>
          if qName nq \<noteq> qName q then Some (COMMON_ERROR, Some ErrQuestionMismatch, s, w)
          else
            let w = (case Answer newResponse of
                       [] \<Rightarrow> w
                     | a # _ \<Rightarrow> setCacheCopyByType E (qName nq) (Qtype nq) newResponse (Ttl (Header a)) w);
                w = (case Ns newResponse of
                       [] \<Rightarrow> w
                     | ns # _ \<Rightarrow> if is_RR_NS ns then setCacheCopy E (Name (Header ns)) newResponse (Ttl (Header ns)) w else w);
                rs = rs\<lparr>Answer := Answer rs @ Answer newResponse, Ns := Ns newResponse, Extra := Extra newResponse\<rparr>
            in Some (QUERY_UPSTREAM_NO_ERROR, None, s\<lparr>response := Some rs\<rparr>, w))"

definition take_rcode :: "Msg \<Rightarrow> Msg \<Rightarrow> Msg" where
  "take_rcode rs newResponse = rs\<lparr>Rcode := Rcode newResponse, Ns := Ns newResponse\<rparr>"

definition qu_retry ::
  "'c env \<Rightarrow> baseState \<Rightarrow> Msg \<Rightarrow> DnsQuestion \<Rightarrow> Msg \<Rightarrow> string \<Rightarrow> string \<Rightarrow> string \<Rightarrow> happyEyeballsResult \<Rightarrow> 'c world \<Rightarrow> 'c handled"
where
  "qu_retry E s rs q newQuery bestAddr secondAddr port winner w =
     (let badRcode = RcodeToString (eLib E) (Rcode (he_response winner));
          w = emit_on E [UpstreamFailureAdd ''bad_rcode'' badRcode] w;
          w = w_recordFailure E (he_addr winner) w;
          altAddr = (if he_addr winner = secondAddr then bestAddr else secondAddr)
      in if altAddr = [] \<or> altAddr = he_addr winner
         then Some (COMMON_ERROR, Some (ErrBadRcodeNoAlternate badRcode), s, emit_on E [UpstreamFallbackAdd ''unavailable''] w)
         else
           let (r, w) = exchangeWithUpstreamGate E newQuery (target_of altAddr port) upstreamGatePathIterativeRetry w
           in (case r of
                 Inl err \<Rightarrow>
                   let w = (if err \<noteq> ErrGateSaturated
                            then emit_on E [UpstreamFallbackAdd ''failure'', UpstreamFailureAdd (classifyUpstreamError (Some err)) ''NONE''] w else w);
                       w = (if err \<noteq> ErrGateSaturated then w_recordFailure E altAddr w else w)
                   in Some (COMMON_ERROR, Some (ErrBadRcodeAlternateFailed badRcode err), s, w)
               | Inr (newResponse, altRtt) \<Rightarrow>
                   let w = emit_on E [UpstreamFallbackAdd ''success''] w;
                       w = w_recordLatency E altAddr altRtt w;
                       rs = take_rcode rs newResponse;
                       s = s\<lparr>response := Some rs\<rparr>
                   in if Rcode newResponse \<noteq> RcodeSuccess
                      then if Rcode newResponse = RcodeNameError then Some (QUERY_UPSTREAM_NO_ERROR, None, s, w)
                           else Some (COMMON_ERROR, Some (ErrBothBadRcode (RcodeToString (eLib E) (Rcode newResponse))), s,
                                  emit_on E [UpstreamFailureAdd ''bad_rcode'' (RcodeToString (eLib E) (Rcode newResponse))] w)
                      else qu_finish E s rs q newResponse w))"

definition qu_response ::
  "'c env \<Rightarrow> baseState \<Rightarrow> Msg \<Rightarrow> DnsQuestion \<Rightarrow> Msg \<Rightarrow> string \<Rightarrow> string \<Rightarrow> string \<Rightarrow> happyEyeballsResult \<Rightarrow> 'c world \<Rightarrow> 'c handled"
where
  "qu_response E s rs q newQuery bestAddr secondAddr port winner w =
     (let newResponse = he_response winner;
          rcode = Rcode newResponse
      in if rcode \<noteq> RcodeSuccess
         then let rs = take_rcode rs newResponse;
                  s = s\<lparr>response := Some rs\<rparr>
              in if rcode = RcodeNameError then Some (QUERY_UPSTREAM_NO_ERROR, None, s, w)
                 else if rcode \<in> {RcodeServerFailure, RcodeRefused, RcodeFormatError, RcodeNotImplemented}
                 then qu_retry E s rs q newQuery bestAddr secondAddr port winner w
                 else Some (COMMON_ERROR, Some (ErrRcode (RcodeToString (eLib E) rcode)), s, w)
         else qu_finish E s rs q newResponse w)"

definition qu_newQuery :: "'c env \<Rightarrow> DnsQuestion \<Rightarrow> 'c world \<Rightarrow> Msg" where
  "qu_newQuery E q w =
     SetEdns0 (eLib E)
       ((SetQuestion (eLib E) (eId E (wTick w)) newMsg (qName q) (Qtype q))\<lparr>RecursionDesired := False, MsgId := eId E (wTick w + 1)\<rparr>)
       4096 False"

definition queryUpstream_handle :: "'c resolver \<Rightarrow> 'c env \<Rightarrow> baseState \<Rightarrow> 'c world \<Rightarrow> 'c handled" where
  "queryUpstream_handle nested E s w =
     (case (request s, response s) of
        (Some rq, Some rs) \<Rightarrow>
          (case Question rq of
             [] \<Rightarrow> None
           | q # _ \<Rightarrow>
               (case eCtxErr E (wTick w) of
                  Some err \<Rightarrow> Some (COMMON_ERROR, Some (ErrCtx err), s, tick w)
                | None \<Rightarrow> do {
                    let newQuery = qu_newQuery E q (tick w);
                    (ipList, w) \<leftarrow> qu_addresses nested E (nsDepth s) rs (tick (tick (tick w)));
                    let ((bestAddr, secondAddr, err), w) = getBestAddressAndPrefetchIPs E ipList w;
                    if bestAddr = [] \<or> err \<noteq> None then Some (COMMON_ERROR, err, s, w)
                    else (case Question newQuery of
                       [] \<Rightarrow> None
                     | nq # _ \<Rightarrow>
                         let w = emit_always [InCounterAdd ''forward_request'' (TypeToString (eLib E) (Qtype nq))] w;
                             port = getIterPort E;
                             (r, w) = queryHappyEyeballs E newQuery bestAddr secondAddr port w
                         in (case r of
                               Inl err \<Rightarrow> Some (COMMON_ERROR, Some err, s, w)
                             | Inr winner \<Rightarrow>
                                 let w = w_recordLatency E (he_addr winner) (he_rtt winner) w;
                                     w = emit_always [OutCounterAdd ''forward_response'' (TypeToString (eLib E) (Qtype nq))
                                            (RcodeToString (eLib E) (Rcode (he_response winner)))] w
                                 in qu_response E s rs q newQuery bestAddr secondAddr port winner w))
                  }))
      | _ \<Rightarrow> Some (COMMON_ERROR, Some (ErrNil []), s, w))"

section \<open>What the parts keep\<close>

lemma w_recordFailure_frame [simp]:
  "wCache (w_recordFailure E a w) = wCache w" "wGate (w_recordFailure E a w) = wGate w"
  "wPending (w_recordFailure E a w) = wPending w"
  by (simp_all add: w_recordFailure_def split: option.split)

lemma w_recordLatency_frame [simp]:
  "wCache (w_recordLatency E a r w) = wCache w" "wGate (w_recordLatency E a r w) = wGate w"
  "wPending (w_recordLatency E a r w) = wPending w"
  by (simp_all add: w_recordLatency_def Let_def split: option.split)

lemma race_lost_frame [simp]:
  "wCache (race_lost E a e w) = wCache w" "wGate (race_lost E a e w) = wGate w"
  "wPending (race_lost E a e w) = wPending w"
  by (simp_all add: race_lost_def)

lemma race_won_frame [simp]:
  "wCache (race_won E b a w) = wCache w" "wGate (race_won E b a w) = wGate w"
  "wPending (race_won E b a w) = wPending w"
  by (simp_all add: race_won_def)

lemma w_recordDegraded_advances: "world_ok E w \<Longrightarrow> advances E w (w_recordDegraded E p a q w)"
  by (simp add: w_recordDegraded_def case_prod_beta Let_def advances_def world_ok_def gate_balance_def recordDegraded_def)

text \<open>Steps that leave the cache and the gate alone.\<close>

lemma advances_same:
  assumes "advances E w w1" "wCache w2 = wCache w1" "wGate w2 = wGate w1" "wPending w2 = wPending w1"
  shows "advances E w w2"
  using assms by (simp add: advances_def world_ok_def gate_balance_def)

lemma held_exchange_slots:
  assumes "holds_slots E (Suc n) w0 w"
  shows "holds_slots E n w0 (snd (exchangeWithHeldUpstreamGate E q t w))"
proof -
  have "holds_slots E (Suc n) w0 (tick w)" using assms holds_slots_cong [of "tick w" w E "Suc n" w0] by simp
  then show ?thesis by (simp add: exchangeWithHeldUpstreamGate_def w_exchange_def case_prod_beta Let_def w_gate_release_holds)
qed

lemma holds_slots_pending:
  "holds_slots E (Suc n) w0 w \<Longrightarrow> holds_slots E n w0 (w\<lparr>wPending := wPending w + 1\<rparr>)"
  by (simp add: holds_slots_def world_ok_def gate_balance_def)

lemma held_exchange_typed:
  assumes "env_ok E" "fst (exchangeWithHeldUpstreamGate E q t w) = Inr (m, r)"
  shows "msg_typed m"
  using assms(2) env_ok_exchange [OF assms(1)]
  by (auto simp: exchangeWithHeldUpstreamGate_def w_exchange_def case_prod_beta Let_def split: sum.splits)

definition eyeballs_ok :: "'c env \<Rightarrow> 'c world \<Rightarrow> (go_error + happyEyeballsResult) \<times> 'c world \<Rightarrow> bool" where
  "eyeballs_ok E w r \<longleftrightarrow> advances E w (snd r) \<and> (\<forall>x. fst r = Inr x \<longrightarrow> msg_typed (he_response x))"

lemma single_ok:
  assumes "env_ok E" "world_ok E w"
  shows "eyeballs_ok E w (queryHappyEyeballs_single E query a port w)"
proof -
  let ?x = "exchangeWithUpstreamGate E query (target_of a port) upstreamGatePathIterative w"
  have a: "advances E w (snd ?x)" using assms(2) by (rule exchangeWithUpstreamGate_advances)
  show ?thesis
  proof (cases "fst ?x")
    case (Inl err)
    have "advances E w (snd (queryHappyEyeballs_single E query a port w))"
      by (rule advances_same [OF a]) (simp_all add: queryHappyEyeballs_single_def case_prod_beta Let_def Inl)
    then show ?thesis by (simp add: eyeballs_ok_def queryHappyEyeballs_single_def case_prod_beta Let_def Inl)
  next
    case (Inr p)
    obtain m r where p: "p = (m, r)" by fastforce
    have "advances E w (snd (queryHappyEyeballs_single E query a port w))"
      by (rule advances_same [OF a]) (simp_all add: queryHappyEyeballs_single_def case_prod_beta Let_def Inr)
    moreover have "msg_typed m" using Inr p exchangeWithUpstreamGate_typed [OF assms(1)] by blast
    ultimately show ?thesis by (simp add: eyeballs_ok_def queryHappyEyeballs_single_def case_prod_beta Let_def Inr p)
  qed
qed

lemma race_ok:
  assumes e: "env_ok E" and w0: "world_ok E w0" and h: "holds_slots E 2 w0 w"
  shows "eyeballs_ok E w0 (race E query b s port w)"
proof -
  define as where "as = (if eSecondFirst E (wTick w) then (s, b) else (b, s))"
  define x1 where "x1 = exchangeWithHeldUpstreamGate E (MsgCopy (eLib E) query) (target_of (fst as) port) (tick w)"
  have t: "holds_slots E (Suc 1) w0 (tick w)"
    using h holds_slots_cong [of "tick w" w E 2 w0] by (simp add: numeral_2_eq_2)
  have h1: "holds_slots E 1 w0 (snd x1)" unfolding x1_def by (rule held_exchange_slots [OF t])
  show ?thesis
  proof (cases "fst x1")
    case (Inr p)
    obtain m r where p: "p = (m, r)" by fastforce
    have h2: "holds_slots E 0 w0 ((snd x1)\<lparr>wPending := wPending (snd x1) + 1\<rparr>)"
      by (rule holds_slots_pending) (use h1 in simp)
    have "msg_typed m" using Inr p held_exchange_typed [OF e] unfolding x1_def by blast
    moreover have "advances E w0 (race_won E b (fst as) ((snd x1)\<lparr>wPending := wPending (snd x1) + 1\<rparr>))"
      by (rule advances_same [OF h2 [unfolded holds_slots_0 [OF w0]]]) simp_all
    ultimately show ?thesis
      by (simp add: race_def as_def [symmetric] x1_def [symmetric] case_prod_beta Let_def Inr p eyeballs_ok_def)
  next
    case (Inl e1)
    define x2 where "x2 = exchangeWithHeldUpstreamGate E (MsgCopy (eLib E) query) (target_of (snd as) port) (race_lost E (fst as) e1 (snd x1))"
    have "holds_slots E (Suc 0) w0 (race_lost E (fst as) e1 (snd x1))"
      using h1 holds_slots_cong [of "race_lost E (fst as) e1 (snd x1)" "snd x1" E 1 w0] by simp
    then have "holds_slots E 0 w0 (snd x2)" unfolding x2_def by (rule held_exchange_slots)
    then have a: "advances E w0 (snd x2)" by (simp add: holds_slots_0 [OF w0])
    have l: "advances E w0 (race_lost E x y (snd x2))" "advances E w0 (race_won E x z (snd x2))" for x y z
      by (rule advances_same [OF a], simp_all)+
    show ?thesis
    proof (cases "fst x2")
      case (Inr p)
      obtain m r where p: "p = (m, r)" by fastforce
      have "msg_typed m" using Inr p held_exchange_typed [OF e] unfolding x2_def by blast
      with l show ?thesis
        by (simp add: race_def as_def [symmetric] x1_def [symmetric] x2_def [symmetric] case_prod_beta Let_def Inl Inr p eyeballs_ok_def)
    next
      case (Inl e2)
      with l \<open>fst x1 = Inl e1\<close> show ?thesis
        by (simp add: race_def as_def [symmetric] x1_def [symmetric] x2_def [symmetric] case_prod_beta Let_def eyeballs_ok_def)
    qed
  qed
qed

lemma eyeballs_ok_trans: "advances E w w1 \<Longrightarrow> eyeballs_ok E w1 r \<Longrightarrow> eyeballs_ok E w r"
  by (auto simp: eyeballs_ok_def intro: advances_trans)

lemma holds_slots_trans:
  "holds_slots E m w w1 \<Longrightarrow> holds_slots E n w1 w2 \<Longrightarrow> holds_slots E (m + n) w w2"
  by (simp add: holds_slots_def)

lemma queryHappyEyeballs_ok:
  assumes "env_ok E" "world_ok E w"
  shows "eyeballs_ok E w (queryHappyEyeballs E query b s port w)"
proof -
  define n where "n = (case Question query of [] \<Rightarrow> [] | q # _ \<Rightarrow> qName q)"
  define ok1 w1 where "ok1 = fst (w_tryAcquire E upstreamGatePathIterative n w)" and "w1 = snd (w_tryAcquire E upstreamGatePathIterative n w)"
  define ok2 w2 where "ok2 = fst (w_tryAcquire E upstreamGatePathHappyEyeballs n w1)" and "w2 = snd (w_tryAcquire E upstreamGatePathHappyEyeballs n w1)"
  have a: "w_tryAcquire E upstreamGatePathIterative n w = (ok1, w1)" "w_tryAcquire E upstreamGatePathHappyEyeballs n w1 = (ok2, w2)"
    by (simp_all add: ok1_def w1_def ok2_def w2_def)
  let ?d = "w_recordDegraded E upstreamGatePathHappyEyeballs ''degraded_single'' n"
  have single: "eyeballs_ok E w (queryHappyEyeballs_single E query b port (?d w'))" if "advances E w w'" for w'
  proof -
    have "advances E w (?d w')" using that w_recordDegraded_advances [OF advances_world_ok [OF that]] by (rule advances_trans)
    then show ?thesis using single_ok [OF assms(1) advances_world_ok] eyeballs_ok_trans by blast
  qed
  have refused: "advances E w w1" if "\<not> ok1" using w_tryAcquire_refused [OF assms(2)] a(1) that by simp
  have held: "holds_slots E 1 w w1" if "ok1" using w_tryAcquire_granted [OF assms(2)] a(1) that by simp
  have w1: "world_ok E w1" if "ok1" using held [OF that] by (simp add: holds_slots_def)
  have two: "holds_slots E 2 w w2" if "ok1" "ok2"
    using holds_slots_trans [OF held w_tryAcquire_granted [OF w1]] a(2) that by (simp add: numeral_2_eq_2)
  have freed: "advances E w (w_gate_release E w2)" if "ok1" "\<not> ok2"
  proof -
    have "advances E w1 w2" using w_tryAcquire_refused [OF w1] a(2) that by simp
    then have "holds_slots E (Suc 0) w w2" using held [OF that(1)] by (simp add: holds_slots_def advances_def)
    then show ?thesis using w_gate_release_holds [of E 0 w w2] by (simp add: holds_slots_0 [OF assms(2)])
  qed
  show ?thesis
    using single_ok [OF assms] single [OF advances_refl [OF assms(2)]] single [OF freed] refused race_ok [OF assms two]
    by (simp add: queryHappyEyeballs_def Let_def n_def [symmetric] a case_prod_beta eyeballs_ok_def)
qed

lemma env_ok_question:
  assumes "env_ok E"
  shows "Question (SetQuestion (eLib E) i m n t) = [\<lparr>qName = n, Qtype = t, Qclass = ClassINET\<rparr>]"
    and "Question (SetEdns0 (eLib E) m u d) = Question m"
    and "Extra (SetQuestion (eLib E) i m n t) = Extra m" "Answer (SetQuestion (eLib E) i m n t) = Answer m"
  using assms by (simp_all only: env_ok_def question_laws_def)

lemma advances_setCacheCopyByType:
  assumes "env_ok E" "world_ok E w" "list_all rr_typed (Extra m)"
  shows "advances E w (setCacheCopyByType E n t m x w)"
  using advances_setCacheCopy [OF assms] by (simp add: setCacheCopyByType_def)

lemma resolveNSIPs_advances: "world_ok E w \<Longrightarrow> advances E w (snd (resolveNSIPs E ns w))"
proof (induction ns arbitrary: w)
  case (Cons n ns)
  have a: "advances E w (snd (getCacheCopyByType E n TypeA w))"
    using Cons.prems by (simp add: getCacheCopyByType_def advances_getCacheCopy)
  then show ?case using Cons.IH [OF advances_world_ok [OF a]] advances_trans by (auto simp: case_prod_beta Let_def)
qed simp

lemma ip_list_defined: "list_all rr_typed rs \<Longrightarrow> \<exists>ips. ip_list rs = Some ips"
  by (induction rs) (auto simp: rr_typed_def)

section \<open>The contract of the handler\<close>

text \<open>What the handler needs of the run that resolves a name server.\<close>

locale ns_resolver =
  fixes nested :: "'c resolver"
  assumes nested_ok: "env_ok E \<Longrightarrow> state_ok s \<Longrightarrow> 0 < nsDepth s \<Longrightarrow> world_ok E w
    \<Longrightarrow> wp (nested E s w) (\<lambda>((m, err), w'). advances E w w' \<and> (err = None \<longrightarrow> m \<noteq> None))"
begin

lemma ns_worker_ok:
  assumes "env_ok E" "world_ok E w" "0 < d"
  shows "wp (ns_worker nested E d c n w) (\<lambda>(r, w'). advances E w w')"
proof -
  let ?s = "\<lparr>request = Some (ns_query E n (tick w)), response = Some newMsg, nsDepth = d\<rparr>"
  have t: "advances E w (tick w)" "advances E w (tick (tick w))" by (rule advances_frame [OF assms(2)], simp_all)+
  have "state_ok ?s" by (simp add: state_ok_def ns_query_def env_ok_question [OF assms(1)])
  from nested_ok [OF assms(1) this _ advances_world_ok [OF t(2)]] assms(3)
  obtain m err w' where n: "nested E ?s (tick (tick w)) = Some ((m, err), w')" "advances E (tick (tick w)) w'"
    "err = None \<longrightarrow> m \<noteq> None"
    by (auto simp: wp_result)
  have a: "advances E w w'" using t(2) n(2) by (rule advances_trans)
  have "advances E w (tick w')" by (rule advances_same [OF a]) simp_all
  then show ?thesis
    using a t(1) n(3) by (cases m; cases err) (simp_all add: ns_worker_def Let_def n(1))
qed

lemma ns_workers_ok:
  assumes "env_ok E" "world_ok E w" "0 < d"
  shows "wp (ns_workers nested E d rs ns w) (\<lambda>(r, w'). advances E w w')"
  using assms(2)
proof (induction ns arbitrary: rs w)
  case (Cons n ns)
  have "wp (ns_worker nested E d (rs \<noteq> []) n w) (\<lambda>(r, w'). advances E w w')"
    by (rule ns_worker_ok [OF assms(1) Cons.prems assms(3)])
  then obtain r w' where w: "ns_worker nested E d (rs \<noteq> []) n w = Some (r, w')" "advances E w w'" by (auto simp: wp_result)
  have "wp (ns_workers nested E d rs' ns w') (\<lambda>(r, w''). advances E w w'')" for rs'
    using Cons.IH [OF advances_world_ok [OF w(2)], of rs'] by (rule wp_mono) (auto intro: advances_trans [OF w(2)])
  then show ?case by (simp add: w(1))
qed simp

end

lemma updateNSIPsCache_advances:
  assumes "env_ok E" "world_ok E w"
  shows "advances E w (updateNSIPsCache E rs w)"
  using assms(2)
proof (induction rs arbitrary: w)
  case (Cons r rs)
  obtain n ips where r: "r = (n, ips)" by fastforce
  have t: "advances E w (tick w)" by (rule advances_frame [OF Cons.prems]) simp_all
  have x: "list_all rr_typed (Extra (ns_cache_msg E n ips w))"
    by (simp add: ns_cache_msg_def env_ok_question [OF assms(1)])
  have "advances E (tick w) (setCacheCopyByType E n TypeA (ns_cache_msg E n ips w) 300 (tick w))"
    by (rule advances_setCacheCopyByType [OF assms(1) advances_world_ok [OF t] x])
  then have a: "advances E w (setCacheCopyByType E n TypeA (ns_cache_msg E n ips w) 300 (tick w))"
    using t advances_trans by blast
  then show ?case using Cons.IH [OF advances_world_ok [OF a]] advances_trans by (auto simp: r)
qed simp

context ns_resolver
begin

lemma resolveNSIPsConcurrently_ok:
  assumes "env_ok E" "world_ok E w"
  shows "wp (resolveNSIPsConcurrently nested E d ns w) (\<lambda>(ips, w'). advances E w w')"
proof -
  define w1 where "w1 = (if 1 < length ns \<and> shouldDegradeFanout (wGate w)
    then w_recordDegraded E upstreamGatePathNSResolution ''degraded_serial'' (hd ns) w else w)"
  have a1: "advances E w w1" using assms(2) by (simp add: w1_def w_recordDegraded_advances)
  have a2: "advances E w (tick w1)" by (rule advances_same [OF a1]) simp_all
  have "wp (ns_workers nested E (d + 1) [] (worker_order E ns w1) (tick w1)) (\<lambda>(r, w'). advances E (tick w1) w')"
    by (rule ns_workers_ok [OF assms(1) advances_world_ok [OF a2]]) simp
  then obtain rs w2 where n: "ns_workers nested E (d + 1) [] (worker_order E ns w1) (tick w1) = Some (rs, w2)"
    "advances E (tick w1) w2"
    by (auto simp: wp_result)
  have a3: "advances E w w2" using a2 n(2) by (rule advances_trans)
  have a4: "advances E w (updateNSIPsCache E rest w2)" for rest
    using a3 updateNSIPsCache_advances [OF assms(1) advances_world_ok [OF a3]] by (rule advances_trans)
  show ?thesis
    unfolding resolveNSIPsConcurrently_def Let_def w1_def [symmetric]
    using a3 a4 assms(2) n(1) by (cases rs; cases d) simp_all
qed

lemma qu_addresses_ok:
  assumes "env_ok E" "world_ok E w" "list_all rr_typed (Extra rs)"
  shows "wp (qu_addresses nested E d rs w) (\<lambda>(ips, w'). advances E w w')"
proof -
  obtain ips where i: "getIPListFromResponse rs = Some ips"
    using ip_list_defined [OF assms(3)] by (auto simp: getIPListFromResponse_def)
  let ?r = "resolveNSIPs E (getNSNamesFromResponse rs) w"
  have a: "advances E w (snd ?r)" using assms(2) by (rule resolveNSIPs_advances)
  have "wp (resolveNSIPsConcurrently nested E d (getNSNamesFromResponse rs) (snd ?r)) (\<lambda>(ips, w'). advances E (snd ?r) w')"
    by (rule resolveNSIPsConcurrently_ok [OF assms(1) advances_world_ok [OF a]])
  then have "wp (resolveNSIPsConcurrently nested E d (getNSNamesFromResponse rs) (snd ?r)) (\<lambda>(ips, w'). advances E w w')"
    by (rule wp_mono) (auto intro: advances_trans [OF a])
  then show ?thesis using a assms(2) by (simp add: qu_addresses_def i Let_def case_prod_beta)
qed

end

lemma handled_ok_response:
  assumes "state_ok s" "response s = Some rs0" "advances E w w'"
    "list_all rr_typed (Extra rs)" "Question rs = Question rs0" "MsgId rs = MsgId rs0" "Response rs = Response rs0"
    "err = None \<longrightarrow> ret \<in> codes"
  shows "handled_ok E codes s w (ret, err, s\<lparr>response := Some rs\<rparr>, w')"
  using assms by (auto simp: handled_ok_def state_ok_def answers_def)

lemma handled_ok_same:
  assumes "state_ok s" "advances E w w'" "err = None \<longrightarrow> ret \<in> codes"
  shows "handled_ok E codes s w (ret, err, s, w')"
  using assms by (auto simp: handled_ok_def state_ok_def)

text \<open>A state is compared with an earlier one that has the same request and question.\<close>

lemma handled_ok_from:
  assumes "handled_ok E codes s1 w1 (ret, err, s', w')" "advances E w w1" "request s1 = request s" "nsDepth s1 = nsDepth s"
    "Question (the (response s1)) = Question (the (response s))" "MsgId (the (response s1)) = MsgId (the (response s))"
    "Response (the (response s1)) = Response (the (response s))"
  shows "handled_ok E codes s w (ret, err, s', w')"
  using assms by (auto simp: handled_ok_def answers_def intro: advances_trans)

lemma qu_finish_ok:
  assumes e: "env_ok E" and s: "state_ok s" "response s = Some rs" and m: "msg_typed m" and w: "world_ok E w"
  shows "wp (qu_finish E s rs q m w) (handled_ok E {-1, 0} s w)"
proof (cases "Question m")
  case Nil
  then show ?thesis using s w by (simp add: qu_finish_def handled_ok_same)
next
  case (Cons nq qs)
  have x: "list_all rr_typed (Extra m)" using m by (simp add: msg_typed_def)
  define w1 where "w1 = (case Answer m of [] \<Rightarrow> w
    | a # _ \<Rightarrow> setCacheCopyByType E (qName nq) (Qtype nq) m (Ttl (Header a)) w)"
  define w2 where "w2 = (case Ns m of [] \<Rightarrow> w1
    | ns # _ \<Rightarrow> if is_RR_NS ns then setCacheCopy E (Name (Header ns)) m (Ttl (Header ns)) w1 else w1)"
  have a1: "advances E w w1" using advances_setCacheCopyByType [OF e w x] w by (simp add: w1_def split: list.split)
  note w1 = advances_world_ok [OF a1]
  have "advances E w1 w2" using advances_setCacheCopy [OF e w1 x] w1 by (simp add: w2_def split: list.split)
  with a1 have a2: "advances E w w2" by (rule advances_trans)
  show ?thesis
    using s w x a2
    by (simp add: qu_finish_def Cons w1_def [symmetric] w2_def [symmetric] Let_def handled_ok_same handled_ok_response)
qed

lemma qu_retry_ok:
  assumes e: "env_ok E" and s: "state_ok s" "response s = Some rs" and w: "world_ok E w"
  shows "wp (qu_retry E s rs q nq b b2 port h w) (handled_ok E {-1, 0} s w)"
proof -
  define bad where "bad = RcodeToString (eLib E) (Rcode (he_response h))"
  define w1 where "w1 = w_recordFailure E (he_addr h) (emit_on E [UpstreamFailureAdd ''bad_rcode'' bad] w)"
  define alt where "alt = (if he_addr h = b2 then b else b2)"
  define x where "x = exchangeWithUpstreamGate E nq (target_of alt port) upstreamGatePathIterativeRetry w1"
  have a1: "advances E w w1" by (rule advances_frame [OF w]) (simp_all add: w1_def)
  have a2: "advances E w (snd x)"
    using a1 exchangeWithUpstreamGate_advances [OF advances_world_ok [OF a1]] unfolding x_def by (rule advances_trans)
  have same: "handled_ok E {-1, 0} s w (-1, Some er, s, w')"
    if "advances E w w0" "wCache w' = wCache w0" "wGate w' = wGate w0" "wPending w' = wPending w0" for er w0 w'
    using s advances_same [OF that] by (simp add: handled_ok_same)
  show ?thesis
  proof (cases "alt = [] \<or> alt = he_addr h")
    case True
    then show ?thesis using same [OF a1]
      by (simp add: qu_retry_def bad_def [symmetric] w1_def [symmetric] alt_def [symmetric] Let_def)
  next
    case noalt: False
    show ?thesis
    proof (cases "fst x")
      case (Inl err)
      then show ?thesis using noalt same [OF a2]
        by (simp add: qu_retry_def bad_def [symmetric] w1_def [symmetric] alt_def [symmetric] x_def [symmetric] Let_def case_prod_beta)
    next
      case (Inr p)
      obtain m r where p: "p = (m, r)" by fastforce
      have m: "msg_typed m" using Inr p exchangeWithUpstreamGate_typed [OF e] unfolding x_def by blast
      define w2 where "w2 = w_recordLatency E alt r (emit_on E [UpstreamFallbackAdd ''success''] (snd x))"
      have a3: "advances E w w2" by (rule advances_same [OF a2]) (simp_all add: w2_def)
      define s1 where "s1 = s\<lparr>response := Some (take_rcode rs m)\<rparr>"
      have s1: "state_ok s1" "response s1 = Some (take_rcode rs m)" "request s1 = request s" "nsDepth s1 = nsDepth s"
        "Question (the (response s1)) = Question (the (response s))" "MsgId (the (response s1)) = MsgId (the (response s))"
        "Response (the (response s1)) = Response (the (response s))"
        using s by (auto simp: s1_def state_ok_def take_rcode_def)
      have same1: "handled_ok E {-1, 0} s1 w2 (ret, er, s1, w')"
        if "wCache w' = wCache w2" "wGate w' = wGate w2" "wPending w' = wPending w2" "er = None \<longrightarrow> ret \<in> {-1, 0}" for er w' ret
        using that s1(1) advances_frame [OF advances_world_ok [OF a3] that(1-3)] by (simp add: handled_ok_same)
      have "wp (qu_retry E s rs q nq b b2 port h w) (handled_ok E {-1, 0} s1 w2)"
        using noalt Inr p qu_finish_ok [OF e s1(1,2) m advances_world_ok [OF a3]] same1
        unfolding qu_retry_def Let_def bad_def [symmetric] w1_def [symmetric] alt_def [symmetric] x_def [symmetric] case_prod_beta
        by (simp add: w2_def [symmetric] s1_def [symmetric])
      then show ?thesis by (rule wp_mono) (use a3 s1 in \<open>auto elim!: handled_ok_from\<close>)
    qed
  qed
qed

lemma qu_response_ok:
  assumes e: "env_ok E" and s: "state_ok s" "response s = Some rs" and w: "world_ok E w" and h: "msg_typed (he_response h)"
  shows "wp (qu_response E s rs q nq b b2 port h w) (handled_ok E {-1, 0} s w)"
proof -
  define s1 where "s1 = s\<lparr>response := Some (take_rcode rs (he_response h))\<rparr>"
  have s1: "state_ok s1" "response s1 = Some (take_rcode rs (he_response h))" "request s1 = request s" "nsDepth s1 = nsDepth s"
    "Question (the (response s1)) = Question (the (response s))" "MsgId (the (response s1)) = MsgId (the (response s))"
    "Response (the (response s1)) = Response (the (response s))"
    using s by (auto simp: s1_def state_ok_def take_rcode_def)
  have r: "wp (qu_retry E s1 (take_rcode rs (he_response h)) q nq b b2 port h w) (handled_ok E {-1, 0} s w)"
    using qu_retry_ok [OF e s1(1,2) w] by (rule wp_mono) (use w s1 in \<open>auto elim!: handled_ok_from\<close>)
  have same: "handled_ok E {-1, 0} s w (ret, er, s1, w)" if "er = None \<longrightarrow> ret \<in> {-1, 0}" for ret er
    using handled_ok_same [OF s1(1) advances_refl [OF w] that] w s1 by (auto elim!: handled_ok_from)
  show ?thesis
    using qu_finish_ok [OF e s h w] r same by (simp add: qu_response_def Let_def s1_def [symmetric])
qed

sublocale ns_resolver \<subseteq> upstream: state_handler "queryUpstream_handle nested" "{-1, 0}"
proof
  fix E :: "'c env" and s w
  assume e: "env_ok E" and w: "world_ok E w" and s: "state_ok s"
  then obtain rq rs q where r: "request s = Some rq" "response s = Some rs" "Question rq = [q]" "list_all rr_typed (Extra rs)"
    by (elim state_okE)
  have t: "advances E w (tick w)" "advances E w (tick (tick (tick w)))" by (rule advances_frame [OF w], simp_all)+
  let ?nq = "qu_newQuery E q (tick w)"
  have nq: "Question ?nq = [\<lparr>qName = qName q, Qtype = Qtype q, Qclass = ClassINET\<rparr>]"
    by (simp add: qu_newQuery_def env_ok_question [OF e])
  have "wp (qu_addresses nested E (nsDepth s) rs (tick (tick (tick w)))) (\<lambda>(ips, w'). advances E (tick (tick (tick w))) w')"
    by (rule qu_addresses_ok [OF e advances_world_ok [OF t(2)] r(4)])
  then obtain ips w1 where i: "qu_addresses nested E (nsDepth s) rs (tick (tick (tick w))) = Some (ips, w1)"
    "advances E (tick (tick (tick w))) w1"
    by (auto simp: wp_result)
  have a1: "advances E w w1" using t(2) i(2) by (rule advances_trans)
  obtain b b2 er w2 where g: "getBestAddressAndPrefetchIPs E ips w1 = ((b, b2, er), w2)" by (metis prod.exhaust)
  have a2: "advances E w w2"
    by (rule advances_same [OF a1]) (use g in \<open>auto simp: getBestAddressAndPrefetchIPs_def split: if_splits prod.splits\<close>)
  define w3 where "w3 = emit_always [InCounterAdd ''forward_request'' (TypeToString (eLib E) (Qtype q))] w2"
  have a3: "advances E w w3" by (rule advances_same [OF a2]) (simp_all add: w3_def)
  let ?h = "queryHappyEyeballs E ?nq b b2 (getIterPort E) w3"
  have h: "eyeballs_ok E w ?h" by (rule eyeballs_ok_trans [OF a3 queryHappyEyeballs_ok [OF e advances_world_ok [OF a3]]])
  define w4 where "w4 x = emit_always [OutCounterAdd ''forward_response'' (TypeToString (eLib E) (Qtype q))
    (RcodeToString (eLib E) (Rcode (he_response x)))] (w_recordLatency E (he_addr x) (he_rtt x) (snd ?h))" for x :: happyEyeballsResult
  have a4: "advances E w (w4 x)" for x
    by (rule advances_same [of E w "snd ?h"]) (use h in \<open>simp_all add: w4_def eyeballs_ok_def\<close>)
  have resp: "wp (qu_response E s rs q ?nq b b2 (getIterPort E) x (w4 x)) (handled_ok E {-1, 0} s w)" if "fst ?h = Inr x" for x
  proof -
    have "msg_typed (he_response x)" using h that by (simp add: eyeballs_ok_def)
    from qu_response_ok [OF e s r(2) advances_world_ok [OF a4 [of x]] this] show ?thesis
      by (rule wp_mono) (use a4 [of x] in \<open>auto elim!: handled_ok_from\<close>)
  qed
  have same: "handled_ok E {-1, 0} s w (-1, er, s, w')" if "advances E w w'" for er w'
    using s that by (simp add: handled_ok_same)
  have "advances E w (snd ?h)" using h by (simp add: eyeballs_ok_def)
  then show "wp (queryUpstream_handle nested E s w) (handled_ok E {-1, 0} s w)"
    using r same [OF t(1)] same [OF a2] same [of "snd ?h"] resp nq i(1) g
    by (auto simp: queryUpstream_handle_def w3_def [symmetric] w4_def [symmetric] case_prod_beta Let_def split: option.split sum.split)
qed

section \<open>Properties\<close>

lemma gated_exchange_outcome:
  "fst (exchangeWithUpstreamGate E q t p w) = Inr y \<Longrightarrow> \<exists>i. eXchg E i q t = Inr y"
  "fst (exchangeWithUpstreamGate E q t p w) = Inl e \<Longrightarrow> e = ErrGateSaturated \<or> (\<exists>i x. eXchg E i q t = Inl x)"
  by (auto simp: exchangeWithUpstreamGate_def w_exchange_def case_prod_beta Let_def split: if_splits sum.splits)

lemma held_exchange_outcome:
  "fst (exchangeWithHeldUpstreamGate E q t w) = Inr y \<Longrightarrow> \<exists>i. eXchg E i q t = Inr y"
  "fst (exchangeWithHeldUpstreamGate E q t w) = Inl e \<Longrightarrow> \<exists>i x. eXchg E i q t = Inl x"
  by (auto simp: exchangeWithHeldUpstreamGate_def w_exchange_def case_prod_beta Let_def split: sum.splits)

text \<open>What a result of the race says about the network.\<close>

definition eyeballs_sound :: "'c env \<Rightarrow> Msg \<Rightarrow> string set \<Rightarrow> string \<Rightarrow> go_error + happyEyeballsResult \<Rightarrow> bool" where
  "eyeballs_sound E query addrs port r \<longleftrightarrow> (case r of
     Inr x \<Rightarrow> he_addr x \<in> addrs \<and> (\<exists>i. eXchg E i query (target_of (he_addr x) port) = Inr (he_response x, he_rtt x))
   | Inl e \<Rightarrow> e = ErrGateSaturated \<or> (\<forall>a\<in>addrs. \<exists>i x. eXchg E i query (target_of a port) = Inl x))"

lemma single_sound: "eyeballs_sound E query {a} port (fst (queryHappyEyeballs_single E query a port w))"
proof -
  let ?x = "exchangeWithUpstreamGate E query (target_of a port) upstreamGatePathIterative w"
  show ?thesis
    using gated_exchange_outcome [of E query "target_of a port" upstreamGatePathIterative w]
    by (cases "fst ?x") (auto simp: queryHappyEyeballs_single_def eyeballs_sound_def case_prod_beta Let_def)
qed

lemma race_sound:
  assumes "copy_laws (eLib E)"
  shows "eyeballs_sound E query {a, b} port (fst (race E query a b port w))"
proof -
  define as where "as = (if eSecondFirst E (wTick w) then (b, a) else (a, b))"
  define x1 where "x1 = exchangeWithHeldUpstreamGate E query (target_of (fst as) port) (tick w)"
  have o1: "fst x1 = Inr y \<Longrightarrow> \<exists>i. eXchg E i query (target_of (fst as) port) = Inr y"
    "fst x1 = Inl e \<Longrightarrow> \<exists>i x. eXchg E i query (target_of (fst as) port) = Inl x" for y e
    unfolding x1_def by (erule held_exchange_outcome)+
  have as: "{fst as, snd as} = {a, b}" by (auto simp: as_def)
  have "eyeballs_sound E query {fst as, snd as} port (fst (race E query a b port w))"
  proof (cases "fst x1")
    case (Inr y)
    then show ?thesis using o1(1) [OF Inr] assms
      by (cases y) (simp add: race_def as_def [symmetric] x1_def [symmetric] case_prod_beta Let_def eyeballs_sound_def)
  next
    case (Inl e1)
    define x2 where "x2 = exchangeWithHeldUpstreamGate E query (target_of (snd as) port) (race_lost E (fst as) e1 (snd x1))"
    have o2: "fst x2 = Inr y \<Longrightarrow> \<exists>i. eXchg E i query (target_of (snd as) port) = Inr y"
      "fst x2 = Inl e \<Longrightarrow> \<exists>i x. eXchg E i query (target_of (snd as) port) = Inl x" for y e
      unfolding x2_def by (erule held_exchange_outcome)+
    show ?thesis
      using Inl o1(2) [OF Inl] o2 assms
      by (cases "fst x2") (auto simp: race_def as_def [symmetric] x1_def [symmetric] x2_def [symmetric] case_prod_beta Let_def eyeballs_sound_def
          split: prod.splits)
  qed
  then show ?thesis by (simp add: as)
qed

text \<open>
  C11. The race returns only what the network gave: a winner is one of the two addresses, its
  response is one that this address sent to this query, and without a second address the winner
  is the best one; an error other than a full gate means that the best address failed, so no good
  answer of the preferred server is lost.
\<close>

theorem happy_eyeballs_sound:
  assumes "copy_laws (eLib E)"
  shows "case fst (queryHappyEyeballs E query b1 b2 port w) of
      Inr x \<Rightarrow> (he_addr x = b1 \<or> b2 \<noteq> [] \<and> he_addr x = b2)
        \<and> (\<exists>i. eXchg E i query (target_of (he_addr x) port) = Inr (he_response x, he_rtt x))
    | Inl e \<Rightarrow> e = ErrGateSaturated \<or> (\<exists>i x. eXchg E i query (target_of b1 port) = Inl x)"
proof -
  define P where "P r \<longleftrightarrow> (case r of
      Inr x \<Rightarrow> (he_addr x = b1 \<or> b2 \<noteq> [] \<and> he_addr x = b2)
        \<and> (\<exists>i. eXchg E i query (target_of (he_addr x) port) = Inr (he_response x, he_rtt x))
    | Inl e \<Rightarrow> e = ErrGateSaturated \<or> (\<exists>i x. eXchg E i query (target_of b1 port) = Inl x))" for r :: "go_error + happyEyeballsResult"
  have single: "P (fst (queryHappyEyeballs_single E query b1 port w))" for w
    using single_sound [of E query b1 port w] by (auto simp: P_def eyeballs_sound_def split: sum.splits)
  have race: "b2 \<noteq> [] \<Longrightarrow> P (fst (race E query b1 b2 port w))" for w
    using race_sound [OF assms, of query b1 b2 port w] by (auto simp: P_def eyeballs_sound_def split: sum.splits)
  have "P (Inl ErrGateSaturated)" by (simp add: P_def)
  then have "P (fst (queryHappyEyeballs E query b1 b2 port w))"
    using single race by (simp add: queryHappyEyeballs_def case_prod_beta Let_def)
  then show ?thesis by (simp add: P_def)
qed

theorem happy_eyeballs_sound_witness:
  "case fst (queryHappyEyeballs ref_env newMsg ''10.0.0.1'' ''10.0.0.2'' ''53'' ref_world) of Inr x \<Rightarrow> False | Inl e \<Rightarrow> True"
  using happy_eyeballs_sound [where E = ref_env and query = newMsg and ?b1.0 = "''10.0.0.1''" and ?b2.0 = "''10.0.0.2''" and port = "''53''" and w = ref_world]
  by (auto split: sum.splits)

text \<open>The responses a run of the handler sees for its query: the winner's, and what the network
  sends on a retry.\<close>

definition seen_response :: "'c env \<Rightarrow> Msg \<Rightarrow> happyEyeballsResult \<Rightarrow> Msg \<Rightarrow> bool" where
  "seen_response E newQuery winner m \<longleftrightarrow> m = he_response winner \<or> (\<exists>i t r. eXchg E i newQuery t = Inr (m, r))"

text \<open>The keys under which a response to the question may be stored.\<close>

definition cache_scope :: "DnsQuestion \<Rightarrow> Msg \<Rightarrow> string set" where
  "cache_scope q m =
     (case Question m of
        [] \<Rightarrow> {}
      | nq # _ \<Rightarrow> if qName nq \<noteq> qName q then {}
                 else (if Answer m = [] then {} else {getCacheKey (qName q) (Qtype nq)})
                   \<union> (case Ns m of [] \<Rightarrow> {} | ns # _ \<Rightarrow> if is_RR_NS ns then {Name (Header ns)} else {}))"

lemma setCacheCopy_other:
  assumes "gocache_laws (eGC E)" "k' \<noteq> k"
  shows "gcGet (eGC E) t k' (wCache (setCacheCopy E k m x w)) = gcGet (eGC E) t k' (wCache w)"
  using assms by (simp add: setCacheCopy_cache gocache_laws_def)

lemma qu_finish_scope:
  assumes "gocache_laws (eGC E)" "qu_finish E s rs q m w = Some (ret, err, s', w')" "k \<notin> cache_scope q m"
  shows "gcGet (eGC E) t k (wCache w') = gcGet (eGC E) t k (wCache w)"
  using assms(2,3) setCacheCopy_other [OF assms(1)]
  by (auto simp: qu_finish_def cache_scope_def setCacheCopyByType_def Let_def split: list.splits if_splits)

lemma qu_retry_scope:
  assumes "gocache_laws (eGC E)" "qu_retry E s rs q nq b b2 port h w = Some (ret, err, s', w')"
    "\<And>m. seen_response E nq h m \<Longrightarrow> k \<notin> cache_scope q m"
  shows "gcGet (eGC E) t k (wCache w') = gcGet (eGC E) t k (wCache w)"
proof -
  define bad where "bad = RcodeToString (eLib E) (Rcode (he_response h))"
  define w1 where "w1 = w_recordFailure E (he_addr h) (emit_on E [UpstreamFailureAdd ''bad_rcode'' bad] w)"
  define alt where "alt = (if he_addr h = b2 then b else b2)"
  define x where "x = exchangeWithUpstreamGate E nq (target_of alt port) upstreamGatePathIterativeRetry w1"
  have x: "wCache (snd x) = wCache w" by (simp add: x_def w1_def exchangeWithUpstreamGate_cache)
  note unf = qu_retry_def Let_def bad_def [symmetric] w1_def [symmetric] alt_def [symmetric] x_def [symmetric] case_prod_beta
  show ?thesis
  proof (cases "fst x")
    case (Inl e)
    then show ?thesis using assms(2) x unfolding unf by (auto simp: w1_def split: if_splits)
  next
    case (Inr y)
    obtain m r where y: "y = (m, r)" by fastforce
    have "seen_response E nq h m"
      using gated_exchange_outcome(1) [OF Inr [unfolded x_def]] y unfolding seen_response_def by blast
    then have "k \<notin> cache_scope q m" by (rule assms(3))
    note fin = qu_finish_scope [OF assms(1) _ this]
    show ?thesis using assms(2) x Inr y fin unfolding unf by (auto simp: w1_def split: if_splits)
  qed
qed

text \<open>
  C23. What an upstream can put into the cache: after a response, or the response of a retry, was
  processed, every lookup gives what it gave before, unless the key is that of the name asked for
  with a type the response claims, or the owner of the first record of its authority section when
  that is an NS record; and only if the response repeats the name asked for.
\<close>

theorem upstream_cache_scope:
  assumes "gocache_laws (eGC E)" "qu_response E s rs q newQuery b b2 port winner w = Some (ret, err, s', w')"
    "\<forall>m. seen_response E newQuery winner m \<longrightarrow> k \<notin> cache_scope q m"
  shows "gcGet (eGC E) t k (wCache w') = gcGet (eGC E) t k (wCache w)"
proof -
  have "k \<notin> cache_scope q (he_response winner)" using assms(3) by (simp add: seen_response_def)
  note fin = qu_finish_scope [OF assms(1) _ this]
  have retry: "gcGet (eGC E) t k (wCache w'') = gcGet (eGC E) t k (wCache w)"
    if "qu_retry E s0 rs0 q newQuery b b2 port winner w = Some (ret, err, s1, w'')" for s0 rs0 ret err s1 w''
    using qu_retry_scope [OF assms(1) that, of k t] assms(3) by simp
  show ?thesis using assms(2) fin retry by (auto simp: qu_response_def Let_def split: if_splits)
qed

theorem upstream_cache_scope_witness:
  "\<exists>ret err s' w'. qu_response ref_env \<lparr>request = Some newMsg, response = Some newMsg, nsDepth = 0\<rparr> newMsg \<lparr>qName = ''a.'', Qtype = 1, Qclass = 1\<rparr>
      newMsg ''10.0.0.1'' [] ''53'' \<lparr>he_addr = ''10.0.0.1'', he_response = newMsg, he_rtt = 1\<rparr> ref_world = Some (ret, err, s', w')
    \<and> gcGet ref_gocache 0 ''b.:1'' (wCache w') = gcGet ref_gocache 0 ''b.:1'' (wCache ref_world)"
proof -
  let ?s = "\<lparr>request = Some newMsg, response = Some newMsg, nsDepth = 0\<rparr>"
  let ?q = "\<lparr>qName = ''a.'', Qtype = 1, Qclass = 1\<rparr>"
  let ?h = "\<lparr>he_addr = ''10.0.0.1'', he_response = newMsg, he_rtt = 1\<rparr>"
  have r: "qu_response ref_env ?s newMsg ?q newMsg ''10.0.0.1'' [] ''53'' ?h ref_world = Some (-1, Some ErrNoQuestion, ?s, ref_world)"
    by (simp add: qu_response_def qu_finish_def Let_def)
  have "\<forall>m. seen_response ref_env newMsg ?h m \<longrightarrow> ''b.:1'' \<notin> cache_scope ?q m"
    by (simp add: seen_response_def cache_scope_def)
  from upstream_cache_scope [OF _ r this] r show ?thesis by simp
qed

end
