(* ===== verification/State_Machine.thy ===== *)
theory State_Machine
  imports Query_Upstream
begin

text \<open>
  The resolution loop (src/server/state_machine.go) and the traced resolution of
  src/server/resolution_trace.go.  One iteration of the loop of \<open>Change\<close> is \<open>iteration\<close>, a case
  of its switch is one definition.  \<open>Change_level n\<close> allows \<open>n\<close> runs inside one another; the
  state machine calls itself only to resolve a name server, and never from inside such a run, so
  two are enough: \<open>Change_level_stable\<close> shows that more of them give the same result.

  The states share the request and the response by pointer: what one changes, the next one and the
  caller see.  The final \<open>baseState\<close> is therefore part of the result.
\<close>

section \<open>Names, transitions and exits\<close>

definition MaxIterations :: nat where "MaxIterations = 50"

definition stateMetricName :: "int \<Rightarrow> string" where
  "stateMetricName state =
     (if state = 0 then ''state_init'' else if state = 1 then ''hosts_lookup''
      else if state = 2 then ''forward_lookup'' else if state = 3 then ''cache_lookup''
      else if state = 4 then ''classify_resp'' else if state = 5 then ''extract_glue''
      else if state = 6 then ''lookup_ns_cache'' else if state = 7 then ''query_upstream''
      else if state = 8 then ''return_resp'' else ''unknown'')"

definition recordStateTransition :: "'c env \<Rightarrow> state_kind \<Rightarrow> state_kind \<Rightarrow> 'c world \<Rightarrow> 'c world" where
  "recordStateTransition E fr to =
     emit_on E [StateMachineTransitionAdd (stateMetricName (state_num fr)) (stateMetricName (state_num to))]"

definition recordTraceState :: "string \<Rightarrow> 'c world \<Rightarrow> 'c world" where
  "recordTraceState st w = w\<lparr>wTrace := map_option (recordState st) (wTrace w)\<rparr>"

definition recordTraceTerminal :: "string \<Rightarrow> 'c world \<Rightarrow> 'c world" where
  "recordTraceTerminal exit w = w\<lparr>wTrace := map_option (recordTerminal exit) (wTrace w)\<rparr>"

definition recordTerminalExit :: "'c env \<Rightarrow> state_kind \<Rightarrow> string \<Rightarrow> 'c world \<Rightarrow> 'c world" where
  "recordTerminalExit E fr exit w =
     (if \<not> eOn E then recordTraceTerminal exit w
      else recordTraceTerminal exit (emit_always [StateMachineTransitionAdd (stateMetricName (state_num fr)) exit] w))"

section \<open>Following a CNAME\<close>

record machine =
  m_kind :: state_kind
  m_state :: baseState
  m_chain :: "RR list"              \<comment> \<open>\<open>cnameChain\<close>\<close>
  m_visited :: "string list"        \<comment> \<open>\<open>visitedDomains\<close>\<close>

definition isNSRelevantForCNAME :: "dnslib \<Rightarrow> RR list \<Rightarrow> string \<Rightarrow> bool" where
  "isNSRelevantForCNAME L nsRecords cnameTarget =
     (case nsRecords of [] \<Rightarrow> False | ns # _ \<Rightarrow> IsSubDomain L (Name (Header ns)) cnameTarget)"

definition follow_response :: "dnslib \<Rightarrow> string \<Rightarrow> Msg \<Rightarrow> Msg" where
  "follow_response L target rs =
     (let rs = (if \<not> isNSRelevantForCNAME L (Ns rs) target then rs\<lparr>Ns := [], Extra := []\<rparr> else rs)
      in rs\<lparr>Answer := []\<rparr>)"

definition followCNAME :: "'c env \<Rightarrow> machine \<Rightarrow> (go_error option \<times> machine) option" where
  "followCNAME E m =
     (case (request (m_state m), response (m_state m)) of
        (Some rq, Some rs) \<Rightarrow>
          (case find is_RR_CNAME (Answer rs) of
             None \<Rightarrow> Some (None, m)
           | Some cname \<Rightarrow>
               let target = Target cname
               in if target = [] then Some (None, m)
                  else if target \<in> set (m_visited m) then Some (Some (ErrCNAMECycle target), m)
                  else (case Question rq of
                     [] \<Rightarrow> None
                   | q # qs \<Rightarrow>
                       let s = (m_state m)\<lparr>request := Some (rq\<lparr>Question := q\<lparr>qName := target\<rparr> # qs\<rparr>),
                                           response := Some (follow_response (eLib E) target rs)\<rparr>
                       in Some (None, m\<lparr>m_state := s, m_chain := m_chain m @ [RRCopy (eLib E) cname],
                                        m_visited := target # m_visited m\<rparr>)))
      | _ \<Rightarrow> None)"

definition buildFinalResponse :: "Msg \<Rightarrow> DnsQuestion \<Rightarrow> RR list \<Rightarrow> Msg option" where
  "buildFinalResponse resp origQ chain =
     (case Question resp of
        [] \<Rightarrow> None
      | _ # qs \<Rightarrow>
          let resp = resp\<lparr>Question := origQ # qs\<rparr>
          in Some (if 0 < length chain then resp\<lparr>Answer := chain @ Answer resp\<rparr> else resp))"

section \<open>One iteration\<close>

datatype 'c step_result =
    Next machine "'c world"
  | Return "Msg option" "go_error option" baseState "'c world"

definition handler_of :: "'c resolver \<Rightarrow> state_kind \<Rightarrow> 'c env \<Rightarrow> baseState \<Rightarrow> 'c world \<Rightarrow> 'c handled" where
  "handler_of nested k =
     (case k of STATE_INIT \<Rightarrow> stateInit_handle | HOSTS_LOOKUP \<Rightarrow> hostsLookup_handle
      | FORWARD_LOOKUP \<Rightarrow> forwardLookup_handle | CACHE_LOOKUP \<Rightarrow> cacheLookup_handle
      | CLASSIFY_RESP \<Rightarrow> classifyResp_handle | EXTRACT_GLUE \<Rightarrow> extractGlue_handle
      | LOOKUP_NS_CACHE \<Rightarrow> lookupNSCache_handle | QUERY_UPSTREAM \<Rightarrow> queryUpstream_handle nested
      | RETURN_RESP \<Rightarrow> returnResp_handle)"

definition handleState :: "'c resolver \<Rightarrow> 'c env \<Rightarrow> machine \<Rightarrow> 'c world \<Rightarrow> 'c handled" where
  "handleState nested E m w = do {
     (ret, err, s, w) \<leftarrow> handler_of nested (m_kind m) E (m_state m) w;
     Some (ret, map_option (ErrHandleState (state_num (m_kind m))) err, s, w)
   }"

text \<open>The two error exits every case has: the handler failed, or it returned an unknown code.\<close>

definition error_exit :: "'c env \<Rightarrow> machine \<Rightarrow> string \<Rightarrow> go_error \<Rightarrow> 'c world \<Rightarrow> 'c step_result option" where
  "error_exit E m reason err w =
     Some (Return None (Some err) (m_state m) (recordTerminalExit E (m_kind m) ''error_exit'' (emit_on E [StateMachineFailureAdd reason] w)))"

definition go_on :: "'c env \<Rightarrow> machine \<Rightarrow> state_kind \<Rightarrow> 'c world \<Rightarrow> 'c step_result option" where
  "go_on E m k w = Some (Next (m\<lparr>m_kind := k\<rparr>) (recordStateTransition E (m_kind m) k w))"

definition wrong_state :: "'c env \<Rightarrow> machine \<Rightarrow> string \<Rightarrow> 'c world \<Rightarrow> 'c step_result option" where
  "wrong_state E m reason w = error_exit E m reason (ErrWrongState (state_num (m_kind m))) w"

definition servfail_exit :: "'c env \<Rightarrow> machine \<Rightarrow> string \<Rightarrow> 'c world \<Rightarrow> 'c step_result option" where
  "servfail_exit E m reason w =
     (case request (m_state m) of
        None \<Rightarrow> None
      | Some rq \<Rightarrow>
          Some (Return (Some (SetRcode (eLib E) newMsg rq RcodeServerFailure)) None (m_state m)
            (recordTerminalExit E (m_kind m) ''servfail_exit'' (emit_on E [StateMachineFailureAdd reason] w))))"

definition refused_exit :: "'c env \<Rightarrow> machine \<Rightarrow> 'c world \<Rightarrow> 'c step_result option" where
  "refused_exit E m w =
     (case request (m_state m) of
        None \<Rightarrow> None
      | Some rq \<Rightarrow>
          Some (Return (Some (buildRefusedResponse (eLib E) rq)) None (m_state m) (recordTerminalExit E (m_kind m) ''refused_exit'' w)))"

definition case_STATE_INIT :: "'c env \<Rightarrow> machine \<Rightarrow> int \<Rightarrow> 'c world \<Rightarrow> 'c step_result option" where
  "case_STATE_INIT E m ret w =
     (if ret = STATE_INIT_FORMERR
      then Some (Return (response (m_state m)) None (m_state m)
             (recordTerminalExit E (m_kind m) ''formerr_exit'' (emit_on E [StateMachineFailureAdd ''formerr''] w)))
      else go_on E m HOSTS_LOOKUP w)"

definition case_HOSTS_LOOKUP :: "'c env \<Rightarrow> machine \<Rightarrow> int \<Rightarrow> 'c world \<Rightarrow> 'c step_result option" where
  "case_HOSTS_LOOKUP E m ret w =
     (if ret = HOSTS_LOOKUP_HIT then go_on E m RETURN_RESP w
      else if ret = HOSTS_LOOKUP_MISS then go_on E m FORWARD_LOOKUP w
      else wrong_state E m ''hosts_lookup_wrong_state'' w)"

definition case_FORWARD_LOOKUP :: "'c env \<Rightarrow> machine \<Rightarrow> int \<Rightarrow> 'c world \<Rightarrow> 'c step_result option" where
  "case_FORWARD_LOOKUP E m ret w =
     (if ret = FORWARD_LOOKUP_HIT then go_on E m RETURN_RESP w
      else if ret = FORWARD_LOOKUP_MISS then go_on E m CACHE_LOOKUP w
      else if ret = FORWARD_LOOKUP_SERVFAIL then servfail_exit E m ''forward_lookup_servfail'' w
      else if ret = FORWARD_LOOKUP_REFUSED then refused_exit E m w
      else wrong_state E m ''forward_lookup_wrong_state'' w)"

definition case_CACHE_LOOKUP :: "'c env \<Rightarrow> machine \<Rightarrow> int \<Rightarrow> 'c world \<Rightarrow> 'c step_result option" where
  "case_CACHE_LOOKUP E m ret w =
     (if ret = CACHE_LOOKUP_HIT then go_on E m CLASSIFY_RESP w
      else if ret = CACHE_LOOKUP_MISS
      then (case request (m_state m) of
              None \<Rightarrow> None
            | Some rq \<Rightarrow>
                let qname = (case Question rq of [] \<Rightarrow> [] | q # _ \<Rightarrow> qName q);
                    (ok, w) = w_tryAcquireExpensiveRequest E expensivePathIterative qname [] w
                in if \<not> ok then refused_exit E m w else go_on E m EXTRACT_GLUE w)
      else wrong_state E m ''cache_lookup_wrong_state'' w)"

definition case_CLASSIFY_RESP :: "'c env \<Rightarrow> machine \<Rightarrow> int \<Rightarrow> 'c world \<Rightarrow> 'c step_result option" where
  "case_CLASSIFY_RESP E m ret w =
     (if ret = COMMON_ERROR
      then Some (Return (response (m_state m)) None (m_state m) (recordTerminalExit E (m_kind m) ''error_exit'' w))
      else if ret = CLASSIFY_RESP_GET_ANS \<or> ret = CLASSIFY_RESP_GET_NEGATIVE then go_on E m RETURN_RESP w
      else if ret = CLASSIFY_RESP_GET_CNAME
      then do {
        (err, m) \<leftarrow> followCNAME E m;
        (case err of
           Some e \<Rightarrow> error_exit E m ''cname_cycle'' e w
         | None \<Rightarrow> go_on E m CACHE_LOOKUP w)
      }
      else if ret = CLASSIFY_RESP_GET_NS then go_on E m EXTRACT_GLUE w
      else wrong_state E m ''classify_resp_wrong_state'' w)"

definition case_EXTRACT_GLUE :: "'c env \<Rightarrow> machine \<Rightarrow> int \<Rightarrow> 'c world \<Rightarrow> 'c step_result option" where
  "case_EXTRACT_GLUE E m ret w =
     (if ret = EXTRACT_GLUE_EXIST then go_on E m QUERY_UPSTREAM w
      else if ret = EXTRACT_GLUE_NOT_EXIST then go_on E m LOOKUP_NS_CACHE w
      else wrong_state E m ''extract_glue_wrong_state'' w)"

definition case_LOOKUP_NS_CACHE :: "'c env \<Rightarrow> machine \<Rightarrow> int \<Rightarrow> 'c world \<Rightarrow> 'c step_result option" where
  "case_LOOKUP_NS_CACHE E m ret w =
     (if ret = LOOKUP_NS_CACHE_HIT \<or> ret = LOOKUP_NS_CACHE_MISS then go_on E m QUERY_UPSTREAM w
      else wrong_state E m ''lookup_ns_cache_wrong_state'' w)"

definition case_QUERY_UPSTREAM :: "'c env \<Rightarrow> machine \<Rightarrow> int \<Rightarrow> 'c world \<Rightarrow> 'c step_result option" where
  "case_QUERY_UPSTREAM E m ret w =
     (if ret = COMMON_ERROR then servfail_exit E m ''query_upstream_error'' w
      else if ret = QUERY_UPSTREAM_NO_ERROR then go_on E m CLASSIFY_RESP w
      else wrong_state E m ''query_upstream_wrong_state'' w)"

definition case_RETURN_RESP :: "'c env \<Rightarrow> DnsQuestion \<Rightarrow> machine \<Rightarrow> 'c world \<Rightarrow> 'c step_result option" where
  "case_RETURN_RESP E origQ m w =
     (let w = recordTerminalExit E (m_kind m) ''success_exit'' w
      in case response (m_state m) of
           None \<Rightarrow> None
         | Some rs \<Rightarrow> do {
             final \<leftarrow> buildFinalResponse rs origQ (m_chain m);
             Some (Return (Some final) None ((m_state m)\<lparr>response := Some final\<rparr>) w)
           })"

definition iteration :: "'c resolver \<Rightarrow> 'c env \<Rightarrow> DnsQuestion \<Rightarrow> machine \<Rightarrow> 'c world \<Rightarrow> 'c step_result option" where
  "iteration nested E origQ m w = do {
     let name = stateMetricName (state_num (m_kind m));
     let w = emit_on E [StateMachineStageAdd name] (recordTraceState name w);
     (ret, err, s, w) \<leftarrow> handleState nested E m w;
     let m = m\<lparr>m_state := s\<rparr>;
     (case err of
        Some e \<Rightarrow> error_exit E m (name @ ''_handle_error'') e w
      | None \<Rightarrow>
          (case m_kind m of
             STATE_INIT \<Rightarrow> case_STATE_INIT E m ret w
           | HOSTS_LOOKUP \<Rightarrow> case_HOSTS_LOOKUP E m ret w
           | FORWARD_LOOKUP \<Rightarrow> case_FORWARD_LOOKUP E m ret w
           | CACHE_LOOKUP \<Rightarrow> case_CACHE_LOOKUP E m ret w
           | CLASSIFY_RESP \<Rightarrow> case_CLASSIFY_RESP E m ret w
           | EXTRACT_GLUE \<Rightarrow> case_EXTRACT_GLUE E m ret w
           | LOOKUP_NS_CACHE \<Rightarrow> case_LOOKUP_NS_CACHE E m ret w
           | QUERY_UPSTREAM \<Rightarrow> case_QUERY_UPSTREAM E m ret w
           | RETURN_RESP \<Rightarrow> case_RETURN_RESP E origQ m w))
   }"

section \<open>The loop\<close>

type_synonym 'c changed = "(Msg option \<times> go_error option \<times> baseState \<times> 'c world) option"

definition max_iterations_exit :: "'c env \<Rightarrow> machine \<Rightarrow> 'c world \<Rightarrow> 'c changed" where
  "max_iterations_exit E m w =
     Some (None, Some ErrMaxIterations, m_state m,
       recordTerminalExit E (m_kind m) ''max_iterations_exit'' (emit_on E [StateMachineFailureAdd ''max_iterations''] w))"

fun change_loop :: "'c resolver \<Rightarrow> 'c env \<Rightarrow> DnsQuestion \<Rightarrow> nat \<Rightarrow> machine \<Rightarrow> 'c world \<Rightarrow> 'c changed" where
  "change_loop nested E origQ 0 m w = max_iterations_exit E m w"
| "change_loop nested E origQ (Suc n) m w = do {
     r \<leftarrow> iteration nested E origQ m w;
     (case r of
        Next m w \<Rightarrow> change_loop nested E origQ n m w
      | Return res err s w \<Rightarrow> Some (res, err, s, w))
   }"

definition newMachine :: "baseState \<Rightarrow> machine" where
  "newMachine s = \<lparr>m_kind = STATE_INIT, m_state = s, m_chain = [], m_visited = []\<rparr>"

definition original_question :: "Msg \<Rightarrow> DnsQuestion" where
  "original_question rq = (case Question rq of [] \<Rightarrow> \<lparr>qName = [], Qtype = 0, Qclass = 0\<rparr> | q # _ \<Rightarrow> q)"

definition Change_with :: "'c resolver \<Rightarrow> 'c env \<Rightarrow> baseState \<Rightarrow> 'c world \<Rightarrow> 'c changed" where
  "Change_with nested E s w =
     (case request s of
        None \<Rightarrow> None
      | Some rq \<Rightarrow> change_loop nested E (original_question rq) MaxIterations (newMachine s) w)"

definition as_resolver :: "('c env \<Rightarrow> baseState \<Rightarrow> 'c world \<Rightarrow> 'c changed) \<Rightarrow> 'c resolver" where
  "as_resolver f E s w = do { (res, err, s', w') \<leftarrow> f E s w; Some ((res, err), w') }"

primrec Change_level :: "nat \<Rightarrow> 'c env \<Rightarrow> baseState \<Rightarrow> 'c world \<Rightarrow> 'c changed" where
  "Change_level 0 = (\<lambda>E s w. None)"
| "Change_level (Suc n) = Change_with (as_resolver (Change_level n))"

definition Change :: "'c env \<Rightarrow> baseState \<Rightarrow> 'c world \<Rightarrow> 'c changed" where
  "Change = Change_level 2"

section \<open>A traced resolution\<close>

text \<open>\<open>err_text\<close> is \<open>err.Error()\<close>.  The context carries the recorder and a holder without an
  address, which no limiter counts.\<close>

definition TraceDomain ::
  "(go_error \<Rightarrow> string) \<Rightarrow> 'c env \<Rightarrow> string \<Rightarrow> u16 \<Rightarrow> 'c world \<Rightarrow> (Msg option \<times> ResolutionTrace option \<times> go_error option \<times> 'c world) option"
where
  "TraceDomain err_text E domain qtype w = do {
     let fqdn = Fqdn (eLib E) domain;
     let req = SetQuestion (eLib E) (eId E (wTick w)) newMsg fqdn qtype;
     let w = (tick w)\<lparr>wTrace := Some (newResolutionTraceRecorder (eLib E) fqdn qtype),
                      wHolder := Some (newExpensiveRequestHolder NoAddr)\<rparr>;
     (result, err, s, w) \<leftarrow> Change E \<lparr>request = Some req, response = Some newMsg, nsDepth = 0\<rparr> w;
     Some (result, map_option (trace_snapshot (eLib E) result (map_option err_text err)) (wTrace w), err, w)
   }"

section \<open>What an iteration keeps\<close>

lemma record_frame [simp]:
  "wCache (recordStateTransition E a b w) = wCache w" "wGate (recordStateTransition E a b w) = wGate w"
  "wPending (recordStateTransition E a b w) = wPending w"
  "wCache (recordTraceState n w) = wCache w" "wGate (recordTraceState n w) = wGate w" "wPending (recordTraceState n w) = wPending w"
  "wCache (recordTerminalExit E a x w) = wCache w" "wGate (recordTerminalExit E a x w) = wGate w"
  "wPending (recordTerminalExit E a x w) = wPending w"
  by (simp_all add: recordStateTransition_def recordTraceState_def recordTerminalExit_def recordTraceTerminal_def)

text \<open>A state whose response is a reply to its request, with one question.\<close>

definition reply_ok :: "baseState \<Rightarrow> bool" where
  "reply_ok s \<longleftrightarrow> state_ok s \<and> length (Question (the (response s))) = 1 \<and> answers (the (request s)) (the (response s))"

definition machine_ok :: "machine \<Rightarrow> bool" where
  "machine_ok m \<longleftrightarrow> state_ok (m_state m) \<and> (m_kind m \<noteq> STATE_INIT \<longrightarrow> reply_ok (m_state m))"

definition codes_of :: "state_kind \<Rightarrow> int set" where
  "codes_of k = (case k of STATE_INIT \<Rightarrow> {0, 1} | HOSTS_LOOKUP \<Rightarrow> {0, 1} | FORWARD_LOOKUP \<Rightarrow> {0, 1, 2, 3}
     | CACHE_LOOKUP \<Rightarrow> {0, 1} | CLASSIFY_RESP \<Rightarrow> {0, 1, 2, 3} | EXTRACT_GLUE \<Rightarrow> {0, 1}
     | LOOKUP_NS_CACHE \<Rightarrow> {0, 1} | QUERY_UPSTREAM \<Rightarrow> {-1, 0} | RETURN_RESP \<Rightarrow> {0})"

lemma init_reply:
  assumes "env_ok E" "state_ok s" "stateInit_handle E s w = Some (ret, err, s', w')"
  shows "Question (the (response s')) = Question (the (request s)) \<and> answers (the (request s)) (the (response s'))"
proof -
  obtain rq rs q where s: "request s = Some rq" "response s = Some rs" "Question rq = [q]"
    using assms(2) by (elim state_okE)
  have l: "reply_laws (eLib E)" using assms(1) by (simp add: env_ok_def)
  show ?thesis using assms(3) s l
    by (auto simp: stateInit_handle_def answers_def split: if_splits)
qed

context ns_resolver
begin

lemma handler_of_ok:
  assumes "env_ok E" "state_ok s" "world_ok E w"
  shows "wp (handler_of nested k E s w) (handled_ok E (codes_of k) s w)"
  using init_state.handle_ok [OF assms] hosts_state.handle_ok [OF assms] forward_state.handle_ok [OF assms]
    cache_state.handle_ok [OF assms] classify_state.handle_ok [OF assms] glue_state.handle_ok [OF assms]
    nscache_state.handle_ok [OF assms] upstream.handle_ok [OF assms] return_state.handle_ok [OF assms]
  by (cases k) (simp_all add: handler_of_def codes_of_def)

lemma handleState_ok:
  assumes "env_ok E" "machine_ok m" "world_ok E w"
  shows "wp (handleState nested E m w) (\<lambda>(ret, err, s, w'). request s = request (m_state m) \<and> nsDepth s = nsDepth (m_state m)
    \<and> reply_ok s \<and> advances E w w' \<and> (err = None \<longrightarrow> ret \<in> codes_of (m_kind m)))"
proof -
  have s: "state_ok (m_state m)" using assms(2) by (simp add: machine_ok_def)
  obtain ret err s' w' where h: "handler_of nested (m_kind m) E (m_state m) w = Some (ret, err, s', w')"
    "handled_ok E (codes_of (m_kind m)) (m_state m) w (ret, err, s', w')"
    using handler_of_ok [OF assms(1) s assms(3), of "m_kind m"] by (auto simp: wp_result)
  have "length (Question (the (request (m_state m)))) = 1" using s by (auto simp: state_ok_def)
  moreover have "m_kind m = STATE_INIT \<Longrightarrow> stateInit_handle E (m_state m) w = Some (ret, err, s', w')"
    using h(1) by (simp add: handler_of_def)
  ultimately have "reply_ok s'"
    using h(2) assms(2) init_reply [OF assms(1) s] by (auto simp: handled_ok_def machine_ok_def reply_ok_def)
  then show ?thesis using h by (auto simp: handleState_def handled_ok_def)
qed

end

text \<open>What a case of the switch leaves, after a handler left \<open>m\<close> and \<open>w\<close>.\<close>

definition reply_to :: "Msg \<Rightarrow> Msg \<Rightarrow> bool" where
  "reply_to rq m \<longleftrightarrow> answers rq m \<and> length (Question m) = 1"

definition same_client :: "baseState \<Rightarrow> baseState \<Rightarrow> bool" where
  "same_client s s' \<longleftrightarrow> nsDepth s' = nsDepth s \<and> MsgId (the (request s')) = MsgId (the (request s))"

definition result_ok :: "'c env \<Rightarrow> machine \<Rightarrow> 'c world \<Rightarrow> 'c step_result \<Rightarrow> bool" where
  "result_ok E m w r \<longleftrightarrow> (case r of
     Next m' w' \<Rightarrow> advances E w w' \<and> reply_ok (m_state m') \<and> m_kind m' \<noteq> STATE_INIT \<and> same_client (m_state m) (m_state m')
   | Return res err s w' \<Rightarrow> advances E w w' \<and> same_client (m_state m) s \<and> state_ok s
       \<and> (case err of None \<Rightarrow> \<exists>x. res = Some x \<and> reply_to (the (request (m_state m))) x | Some e \<Rightarrow> res = None))"

lemma same_client_refl [simp]: "same_client s s"
  by (simp add: same_client_def)

lemma go_on_ok:
  assumes "world_ok E w" "reply_ok (m_state m')" "k \<noteq> STATE_INIT" "same_client (m_state m) (m_state m')"
  shows "wp (go_on E m' k w) (result_ok E m w)"
proof -
  have "advances E w (recordStateTransition E (m_kind m') k w)" by (rule advances_frame [OF assms(1)]) simp_all
  then show ?thesis using assms by (simp add: go_on_def result_ok_def)
qed

lemma error_exit_ok:
  assumes "world_ok E w" "state_ok (m_state m')" "same_client (m_state m) (m_state m')"
  shows "wp (error_exit E m' reason e w) (result_ok E m w)"
  using assms by (simp add: error_exit_def result_ok_def advances_frame)

lemma reply_ok_request:
  assumes "reply_ok s"
  obtains rq rs q where "request s = Some rq" "response s = Some rs" "Question rq = [q]" "list_all rr_typed (Extra rs)"
    "reply_to rq rs"
  using assms by (auto simp: reply_ok_def state_ok_def reply_to_def length_Suc_conv)

lemma SetRcode_reply:
  assumes "env_ok E" "Question rq \<noteq> []"
  shows "reply_to rq (SetRcode (eLib E) x rq c)"
proof -
  have "reply_laws (eLib E)" using assms(1) by (simp add: env_ok_def)
  then show ?thesis using assms(2) by (simp add: reply_to_def answers_def)
qed

lemma exits_ok:
  assumes "env_ok E" "world_ok E w" "reply_ok (m_state m)"
  shows "wp (servfail_exit E m reason w) (result_ok E m w)" "wp (refused_exit E m w) (result_ok E m w)"
proof -
  obtain rq rs q where s: "request (m_state m) = Some rq" "Question rq = [q]"
    using assms(3) by (elim reply_ok_request)
  have r: "reply_to rq (SetRcode (eLib E) x rq c)" for x c using SetRcode_reply [OF assms(1)] s(2) by simp
  have st: "state_ok (m_state m)" using assms(3) by (simp add: reply_ok_def)
  show "wp (servfail_exit E m reason w) (result_ok E m w)"
    using s r st assms(2) by (simp add: servfail_exit_def result_ok_def advances_frame)
  show "wp (refused_exit E m w) (result_ok E m w)"
    using s r st assms(2) by (simp add: refused_exit_def buildRefusedResponse_def result_ok_def advances_frame)
qed

lemma followCNAME_ok:
  assumes "env_ok E" "reply_ok (m_state m)"
  shows "wp (followCNAME E m) (\<lambda>(err, m'). reply_ok (m_state m') \<and> m_kind m' = m_kind m \<and> same_client (m_state m) (m_state m'))"
proof -
  obtain rq rs q where s: "request (m_state m) = Some rq" "response (m_state m) = Some rs" "Question rq = [q]"
    "list_all rr_typed (Extra rs)" "reply_to rq rs"
    using assms(2) by (elim reply_ok_request)
  then show ?thesis using assms(2)
    by (auto simp: followCNAME_def Let_def same_client_def follow_response_def reply_ok_def state_ok_def answers_def reply_to_def
        split: option.split)
qed

lemma case_CLASSIFY_RESP_ok:
  assumes "env_ok E" "world_ok E w" "reply_ok (m_state m)" "ret \<in> codes_of CLASSIFY_RESP"
  shows "wp (case_CLASSIFY_RESP E m ret w) (result_ok E m w)"
proof -
  obtain err m' where f: "followCNAME E m = Some (err, m')" "reply_ok (m_state m')" "same_client (m_state m) (m_state m')"
    using followCNAME_ok [OF assms(1,3)] by (auto simp: wp_result)
  have st: "state_ok (m_state m')" using f(2) by (simp add: reply_ok_def)
  show ?thesis
    using assms(3,4) f go_on_ok [OF assms(2) assms(3)] go_on_ok [OF assms(2) f(2) _ f(3)] error_exit_ok [OF assms(2) st f(3)]
    by (auto simp: case_CLASSIFY_RESP_def codes_of_def split: option.split)
qed

lemma case_CACHE_LOOKUP_ok:
  assumes "env_ok E" "world_ok E w" "reply_ok (m_state m)" "ret \<in> codes_of CACHE_LOOKUP"
  shows "wp (case_CACHE_LOOKUP E m ret w) (result_ok E m w)"
proof -
  obtain rq rs q where s: "request (m_state m) = Some rq" "Question rq = [q]"
    using assms(3) by (elim reply_ok_request)
  let ?x = "w_tryAcquireExpensiveRequest E expensivePathIterative (qName q) [] w"
  have a: "advances E w (snd ?x)" using assms(2) by (rule w_tryAcquireExpensiveRequest_advances)
  have lift: "wp c (result_ok E m (snd ?x)) \<Longrightarrow> wp c (result_ok E m w)" for c
    by (erule wp_mono) (auto simp: result_ok_def intro: advances_trans [OF a] split: step_result.splits)
  show ?thesis
    using assms(3,4) s go_on_ok [OF assms(2,3)]
      lift [OF go_on_ok [OF advances_world_ok [OF a] assms(3)]] lift [OF exits_ok(2) [OF assms(1) advances_world_ok [OF a] assms(3)]]
    by (auto simp: case_CACHE_LOOKUP_def codes_of_def case_prod_beta Let_def)
qed

lemma case_RETURN_RESP_ok:
  assumes "world_ok E w" "reply_ok (m_state m)"
  shows "wp (case_RETURN_RESP E oq m w) (result_ok E m w)"
proof -
  obtain rq rs q where s: "request (m_state m) = Some rq" "response (m_state m) = Some rs" "Question rq = [q]"
    "list_all rr_typed (Extra rs)" "reply_to rq rs"
    using assms(2) by (elim reply_ok_request)
  obtain y where "Question rs = [y]" using s(5) by (auto simp: reply_to_def length_Suc_conv)
  then show ?thesis using assms(1) s
    by (auto simp: case_RETURN_RESP_def Let_def buildFinalResponse_def result_ok_def same_client_def state_ok_def reply_to_def answers_def
        intro: advances_frame)
qed

lemma simple_cases_ok:
  assumes "env_ok E" "world_ok E w" "reply_ok (m_state m)"
  shows "wp (case_STATE_INIT E m ret w) (result_ok E m w)"
    "ret \<in> codes_of HOSTS_LOOKUP \<Longrightarrow> wp (case_HOSTS_LOOKUP E m ret w) (result_ok E m w)"
    "ret \<in> codes_of FORWARD_LOOKUP \<Longrightarrow> wp (case_FORWARD_LOOKUP E m ret w) (result_ok E m w)"
    "ret \<in> codes_of EXTRACT_GLUE \<Longrightarrow> wp (case_EXTRACT_GLUE E m ret w) (result_ok E m w)"
    "ret \<in> codes_of LOOKUP_NS_CACHE \<Longrightarrow> wp (case_LOOKUP_NS_CACHE E m ret w) (result_ok E m w)"
    "ret \<in> codes_of QUERY_UPSTREAM \<Longrightarrow> wp (case_QUERY_UPSTREAM E m ret w) (result_ok E m w)"
proof -
  note g = go_on_ok [OF assms(2,3)] exits_ok [OF assms]
  obtain rq rs q where s: "request (m_state m) = Some rq" "response (m_state m) = Some rs" "reply_to rq rs"
    using assms(3) by (elim reply_ok_request)
  have "state_ok (m_state m)" using assms(3) by (simp add: reply_ok_def)
  then have "result_ok E m w (Return (response (m_state m)) None (m_state m) (recordTerminalExit E k x (emit_on E es w)))" for k x es
    using s assms(2) by (simp add: result_ok_def advances_frame)
  with g show "wp (case_STATE_INIT E m ret w) (result_ok E m w)" by (simp add: case_STATE_INIT_def)
qed (use go_on_ok [OF assms(2,3)] exits_ok [OF assms] in
  \<open>auto simp: codes_of_def case_HOSTS_LOOKUP_def case_FORWARD_LOOKUP_def case_EXTRACT_GLUE_def case_LOOKUP_NS_CACHE_def case_QUERY_UPSTREAM_def\<close>)

context ns_resolver
begin

lemma iteration_ok:
  assumes "env_ok E" "machine_ok m" "world_ok E w"
  shows "wp (iteration nested E oq m w) (result_ok E m w)"
proof -
  define n where "n = stateMetricName (state_num (m_kind m))"
  define w1 where "w1 = emit_on E [StateMachineStageAdd n] (recordTraceState n w)"
  have a1: "advances E w w1" by (rule advances_frame [OF assms(3)]) (simp_all add: w1_def)
  obtain ret err s w2 where h: "handleState nested E m w1 = Some (ret, err, s, w2)" "request s = request (m_state m)"
    "nsDepth s = nsDepth (m_state m)" "reply_ok s" "advances E w1 w2" "err = None \<longrightarrow> ret \<in> codes_of (m_kind m)"
    using handleState_ok [OF assms(1,2) advances_world_ok [OF a1]] by (auto simp: wp_result)
  note w2 = advances_world_ok [OF h(5)]
  let ?m = "m\<lparr>m_state := s\<rparr>"
  have r: "reply_ok (m_state ?m)" "state_ok (m_state ?m)" using h(4) by (simp_all add: reply_ok_def)
  note ok = simple_cases_ok [OF assms(1) w2 r(1)] case_CLASSIFY_RESP_ok [OF assms(1) w2 r(1)]
    case_CACHE_LOOKUP_ok [OF assms(1) w2 r(1)] case_RETURN_RESP_ok [OF w2 r(1)]
  have "wp (iteration nested E oq m w) (result_ok E ?m w2)"
    unfolding iteration_def Let_def n_def [symmetric] w1_def [symmetric]
    using h(1,6) ok error_exit_ok [OF w2 r(2)] by (cases "m_kind m"; cases err) simp_all
  then show ?thesis
    by (rule wp_mono) (use h(2,3) advances_trans [OF a1 h(5)] in
      \<open>auto simp: result_ok_def same_client_def intro: advances_trans split: step_result.splits option.splits\<close>)
qed

lemma change_loop_ok:
  assumes "env_ok E" "machine_ok m" "world_ok E w"
  shows "wp (change_loop nested E oq n m w) (\<lambda>(res, err, s, w'). result_ok E m w (Return res err s w'))"
  using assms(2,3)
proof (induction n arbitrary: m w)
  case 0
  then show ?case by (simp add: max_iterations_exit_def result_ok_def machine_ok_def advances_frame)
next
  case (Suc n)
  obtain r where r: "iteration nested E oq m w = Some r" "result_ok E m w r"
    using iteration_ok [OF assms(1) Suc.prems, of oq] by (auto simp: wp_result)
  show ?case
  proof (cases r)
    case (Next m' w')
    then have n: "advances E w w'" "reply_ok (m_state m')" "same_client (m_state m) (m_state m')" using r(2) by (simp_all add: result_ok_def)
    then have "machine_ok m'" by (simp add: machine_ok_def reply_ok_def)
    from Suc.IH [OF this advances_world_ok [OF n(1)]] show ?thesis
      by (simp add: r(1) Next) (erule wp_mono, use n in
        \<open>auto simp: result_ok_def same_client_def reply_to_def answers_def intro: advances_trans split: option.splits\<close>)
  qed (use r in simp)
qed

end

section \<open>Runs inside runs\<close>

text \<open>A resolver matters to the loop only through the addresses it finds for name servers.\<close>

definition same_addresses :: "'c resolver \<Rightarrow> 'c resolver \<Rightarrow> 'c env \<Rightarrow> nat \<Rightarrow> bool" where
  "same_addresses n1 n2 E d \<longleftrightarrow>
     (\<forall>rs w. world_ok E w \<longrightarrow> list_all rr_typed (Extra rs) \<longrightarrow> qu_addresses n1 E d rs w = qu_addresses n2 E d rs w)"

lemma same_addresses_inner:
  assumes "0 < d"
  shows "same_addresses n1 n2 E d"
proof -
  have e: "resolveNSIPsConcurrently n1 E d = resolveNSIPsConcurrently n2 E d"
    using assms by (intro ext) (simp add: resolveNSIPsConcurrently_def)
  show ?thesis by (unfold same_addresses_def qu_addresses_def e) simp
qed

lemma handler_of_cong:
  assumes "same_addresses n1 n2 E (nsDepth s)" "world_ok E w" "state_ok s"
  shows "handler_of n1 k E s w = handler_of n2 k E s w"
proof -
  obtain rq rs q where s: "request s = Some rq" "response s = Some rs" "Question rq = [q]" "list_all rr_typed (Extra rs)"
    using assms(3) by (elim state_okE)
  have "world_ok E (tick (tick (tick w)))" using assms(2) by (simp add: world_ok_def)
  then have "qu_addresses n1 E (nsDepth s) rs (tick (tick (tick w))) = qu_addresses n2 E (nsDepth s) rs (tick (tick (tick w)))"
    using assms(1) s(4) by (simp add: same_addresses_def)
  then show ?thesis using s by (simp add: handler_of_def queryUpstream_handle_def Let_def split: state_kind.split option.split)
qed

lemma iteration_cong:
  assumes "same_addresses n1 n2 E (nsDepth (m_state m))" "world_ok E w" "machine_ok m"
  shows "iteration n1 E oq m w = iteration n2 E oq m w"
proof -
  let ?n = "stateMetricName (state_num (m_kind m))"
  have "world_ok E (emit_on E [StateMachineStageAdd ?n] (recordTraceState ?n w))" using assms(2) by (simp add: world_ok_def)
  from handler_of_cong [OF assms(1) this] assms(3) show ?thesis
    by (simp add: iteration_def handleState_def machine_ok_def Let_def)
qed

context ns_resolver
begin

lemma change_loop_cong:
  assumes "env_ok E" "machine_ok m" "world_ok E w" "same_addresses other nested E (nsDepth (m_state m))"
  shows "change_loop other E oq n m w = change_loop nested E oq n m w"
  using assms(2-4)
proof (induction n arbitrary: m w)
  case (Suc n)
  obtain r where r: "iteration nested E oq m w = Some r" "result_ok E m w r"
    using iteration_ok [OF assms(1) Suc.prems(1,2), of oq] by (auto simp: wp_result)
  have i: "iteration other E oq m w = Some r" using iteration_cong [OF Suc.prems(3,2,1), of oq] r(1) by simp
  show ?case
  proof (cases r)
    case (Next m' w')
    then have n: "advances E w w'" "machine_ok m'" "nsDepth (m_state m') = nsDepth (m_state m)"
      using r(2) by (simp_all add: result_ok_def same_client_def machine_ok_def reply_ok_def)
    with Suc.IH [OF n(2) advances_world_ok [OF n(1)]] Suc.prems(3) show ?thesis by (simp add: r(1) i Next)
  qed (simp add: r(1) i)
qed simp

lemma Change_with_cong:
  assumes "env_ok E" "state_ok s" "world_ok E w" "same_addresses other nested E (nsDepth s)"
  shows "Change_with other E s w = Change_with nested E s w"
  using change_loop_cong [OF assms(1) _ assms(3), of "newMachine s"] assms(2,4)
  by (auto simp: Change_with_def newMachine_def machine_ok_def split: option.split)

lemma Change_with_ok:
  assumes "env_ok E" "state_ok s" "world_ok E w"
  shows "wp (Change_with nested E s w) (\<lambda>(res, err, s', w'). result_ok E (newMachine s) w (Return res err s' w'))"
  using change_loop_ok [OF assms(1) _ assms(3), of "newMachine s"] assms(2)
  by (auto simp: Change_with_def newMachine_def machine_ok_def elim!: state_okE)

lemma ns_workers_cong:
  assumes "env_ok E" "world_ok E w" "0 < d"
    "\<And>s w. state_ok s \<Longrightarrow> 0 < nsDepth s \<Longrightarrow> world_ok E w \<Longrightarrow> other E s w = nested E s w"
  shows "ns_workers other E d rs ns w = ns_workers nested E d rs ns w"
  using assms(2)
proof (induction ns arbitrary: rs w)
  case (Cons n ns)
  have ok: "world_ok E (tick (tick w))" using Cons.prems by (simp add: world_ok_def)
  have "state_ok \<lparr>request = Some (ns_query E n (tick w)), response = Some newMsg, nsDepth = d\<rparr>"
    by (simp add: state_ok_def ns_query_def env_ok_question [OF assms(1)])
  from assms(4) [OF this _ ok] assms(3) have e: "ns_worker other E d (rs \<noteq> []) n w = ns_worker nested E d (rs \<noteq> []) n w"
    by (simp add: ns_worker_def Let_def)
  obtain r w' where w: "ns_worker nested E d (rs \<noteq> []) n w = Some (r, w')" "advances E w w'"
    using ns_worker_ok [OF assms(1) Cons.prems assms(3), of "rs \<noteq> []" n] by (auto simp: wp_result)
  show ?case using Cons.IH [OF advances_world_ok [OF w(2)]] by (simp add: e w(1))
qed simp

lemma same_addresses_resolver:
  assumes "env_ok E" "\<And>s w. state_ok s \<Longrightarrow> 0 < nsDepth s \<Longrightarrow> world_ok E w \<Longrightarrow> other E s w = nested E s w"
  shows "same_addresses other nested E d"
proof -
  have "resolveNSIPsConcurrently other E d ns w = resolveNSIPsConcurrently nested E d ns w" if "world_ok E w" for ns w
  proof -
    define w1 where "w1 = (if 1 < length ns \<and> shouldDegradeFanout (wGate w)
      then w_recordDegraded E upstreamGatePathNSResolution ''degraded_serial'' (hd ns) w else w)"
    have "world_ok E w1" using that advances_world_ok [OF w_recordDegraded_advances [OF that]] by (simp add: w1_def)
    then have "world_ok E (tick w1)" by (simp add: world_ok_def)
    from ns_workers_cong [where other = other, OF assms(1) this _ assms(2)] show ?thesis
      unfolding resolveNSIPsConcurrently_def Let_def w1_def [symmetric] by simp
  qed
  then show ?thesis using advances_world_ok [OF resolveNSIPs_advances, of E]
    by (auto simp: same_addresses_def qu_addresses_def case_prod_beta Let_def intro!: Option.bind_cong)
qed

end

text \<open>Inside a run that resolves a name server no further run starts, so any resolver will do.\<close>

lemma no_run_inside: "ns_resolver (\<lambda>E s w. Some ((None, Some ErrMaxIterations), w))"
  by unfold_locales simp

lemma Change_level_inner:
  assumes "env_ok E" "state_ok s" "0 < nsDepth s" "world_ok E w"
  shows "Change_level (Suc n) E s w = Change_with (\<lambda>E s w. Some ((None, Some ErrMaxIterations), w)) E s w"
  using ns_resolver.Change_with_cong [OF no_run_inside assms(1,2,4) same_addresses_inner [OF assms(3)]] by simp

interpretation inner_run: ns_resolver "as_resolver (Change_level (Suc n))"
proof
  fix E :: "'c env" and s w
  assume a: "env_ok E" "state_ok s" "0 < nsDepth s" "world_ok E w"
  obtain res err s' w' where "Change_level (Suc n) E s w = Some (res, err, s', w')" "result_ok E (newMachine s) w (Return res err s' w')"
    using ns_resolver.Change_with_ok [OF no_run_inside a(1,2,4)] Change_level_inner [OF a, of n] by (auto simp: wp_result)
  then show "wp (as_resolver (Change_level (Suc n)) E s w) (\<lambda>((m, err), w'). advances E w w' \<and> (err = None \<longrightarrow> m \<noteq> None))"
    by (auto simp: as_resolver_def result_ok_def split: option.splits)
qed

lemma Change_level_stable_outer:
  assumes "env_ok E" "state_ok s" "world_ok E w"
  shows "Change_level (Suc (Suc n)) E s w = Change E s w"
proof -
  have "as_resolver (Change_level (Suc n)) E s w = as_resolver (Change_level (Suc 0)) E s w"
    if "state_ok s" "0 < nsDepth s" "world_ok E w" for s w
    by (simp only: as_resolver_def Change_level_inner [OF assms(1) that])
  then have "same_addresses (as_resolver (Change_level (Suc n))) (as_resolver (Change_level (Suc 0))) E (nsDepth s)"
    by (rule inner_run.same_addresses_resolver [OF assms(1)])
  from inner_run.Change_with_cong [OF assms this] show ?thesis by (simp add: Change_def numeral_2_eq_2)
qed

lemma Change_ok:
  assumes "env_ok E" "state_ok s" "world_ok E w"
  shows "wp (Change E s w) (\<lambda>(res, err, s', w'). result_ok E (newMachine s) w (Return res err s' w'))"
  using inner_run.Change_with_ok [OF assms, of 0] by (simp add: Change_def numeral_2_eq_2)

end
