(* ===== verification/Resolution.thy ===== *)
theory Resolution
  imports State_Machine
begin

text \<open>
  The properties of a whole resolution, on the loop \<open>Change\<close> of State_Machine: it always ends
  with a reply or an error, the CNAME chain it follows has no repetition, the hosts file, the
  forwarding zones and the cache answer without iterating, and every slot of the gate comes back.
\<close>

section \<open>Reachable machines\<close>

inductive reaches :: "'c resolver \<Rightarrow> 'c env \<Rightarrow> DnsQuestion \<Rightarrow> machine \<Rightarrow> 'c world \<Rightarrow> machine \<Rightarrow> 'c world \<Rightarrow> bool"
  for nested E oq m0 w0
where
  reaches_start: "reaches nested E oq m0 w0 m0 w0"
| reaches_step: "reaches nested E oq m0 w0 m w \<Longrightarrow> iteration nested E oq m w = Some (Next m' w') \<Longrightarrow> reaches nested E oq m0 w0 m' w'"

text \<open>The chain holds CNAME records with distinct targets, which are the visited names, and the
  name being resolved is the target of the last one, at first the name asked for.\<close>

definition chain_ok :: "DnsQuestion \<Rightarrow> machine \<Rightarrow> bool" where
  "chain_ok q m \<longleftrightarrow> list_all is_RR_CNAME (m_chain m) \<and> distinct (map Target (m_chain m))
     \<and> set (m_visited m) = set (map Target (m_chain m))
     \<and> (\<exists>rq. request (m_state m) = Some rq
          \<and> Question rq = [q\<lparr>qName := (if m_chain m = [] then qName q else Target (last (m_chain m)))\<rparr>])"

lemma find_holds: "find P xs = Some x \<Longrightarrow> P x"
  by (induction xs) (auto split: if_splits)

lemma followCNAME_cases:
  assumes "request (m_state m) = Some rq" "Question rq = [y]" "followCNAME E m = Some (err, m')"
  obtains "m' = m"
  | rs c where "m' = m\<lparr>m_state := (m_state m)\<lparr>request := Some (rq\<lparr>Question := [y\<lparr>qName := Target c\<rparr>]\<rparr>),
      response := Some (follow_response (eLib E) (Target c) rs)\<rparr>,
      m_chain := m_chain m @ [RRCopy (eLib E) c], m_visited := Target c # m_visited m\<rparr>"
    "is_RR_CNAME c" "Target c \<notin> set (m_visited m)"
proof (cases "response (m_state m)")
  case None
  then show ?thesis using assms by (simp add: followCNAME_def)
next
  case (Some rs)
  show ?thesis
  proof (cases "find is_RR_CNAME (Answer rs)")
    case None
    then show ?thesis using assms Some that(1) by (simp add: followCNAME_def)
  next
    case c: (Some c)
    show ?thesis
    proof (cases "Target c = [] \<or> Target c \<in> set (m_visited m)")
      case True
      then show ?thesis using assms Some c that(1) by (auto simp: followCNAME_def Let_def split: if_splits)
    next
      case False
      then show ?thesis using assms Some c by (intro that(2) [of c rs]) (simp_all add: followCNAME_def Let_def find_holds [OF c])
    qed
  qed
qed

lemma followCNAME_chain:
  assumes "copy_laws (eLib E)" "chain_ok q m" "followCNAME E m = Some (err, m')"
  shows "chain_ok q m'"
proof -
  define n where "n = (if m_chain m = [] then qName q else Target (last (m_chain m)))"
  obtain rq where rq: "request (m_state m) = Some rq" "Question rq = [q\<lparr>qName := n\<rparr>]"
    using assms(2) by (auto simp: chain_ok_def n_def)
  have c: "RRCopy (eLib E) r = r" for r using assms(1) by simp
  from followCNAME_cases [OF rq assms(3)] show ?thesis
  proof cases
    case (2 rs c)
    with assms(2) show ?thesis by (simp add: chain_ok_def \<open>\<And>r. RRCopy (eLib E) r = r\<close>)
  qed (use assms(2) in simp)
qed

lemma go_on_Next: "go_on E m k w = Some (Next m' w') \<longleftrightarrow> m' = m\<lparr>m_kind := k\<rparr> \<and> w' = recordStateTransition E (m_kind m) k w"
  by (auto simp: go_on_def)

lemma exits_not_Next [simp]:
  "error_exit E m r e w \<noteq> Some (Next m' w')" "wrong_state E m r w \<noteq> Some (Next m' w')"
  "servfail_exit E m r w \<noteq> Some (Next m' w')" "refused_exit E m w \<noteq> Some (Next m' w')"
  "case_RETURN_RESP E oq m w \<noteq> Some (Next m' w')"
  by (auto simp: error_exit_def wrong_state_def servfail_exit_def refused_exit_def case_RETURN_RESP_def Let_def
      split: option.splits bind_splits)

lemma chain_ok_kind [simp]: "chain_ok q (m\<lparr>m_kind := k\<rparr>) = chain_ok q m"
  by (simp add: chain_ok_def)

lemma classify_chain:
  assumes "copy_laws (eLib E)" "chain_ok q m" "case_CLASSIFY_RESP E m ret w = Some (Next m' w')"
  shows "chain_ok q m'"
  using assms(2,3) followCNAME_chain [OF assms(1,2)]
  by (auto simp: case_CLASSIFY_RESP_def go_on_Next split: if_splits bind_splits option.splits)

lemma case_chain:
  assumes "chain_ok q m"
  shows "case_STATE_INIT E m ret w = Some (Next m' w') \<Longrightarrow> chain_ok q m'"
    "case_HOSTS_LOOKUP E m ret w = Some (Next m' w') \<Longrightarrow> chain_ok q m'"
    "case_FORWARD_LOOKUP E m ret w = Some (Next m' w') \<Longrightarrow> chain_ok q m'"
    "case_CACHE_LOOKUP E m ret w = Some (Next m' w') \<Longrightarrow> chain_ok q m'"
    "case_EXTRACT_GLUE E m ret w = Some (Next m' w') \<Longrightarrow> chain_ok q m'"
    "case_LOOKUP_NS_CACHE E m ret w = Some (Next m' w') \<Longrightarrow> chain_ok q m'"
    "case_QUERY_UPSTREAM E m ret w = Some (Next m' w') \<Longrightarrow> chain_ok q m'"
  using assms
  by (auto simp: case_STATE_INIT_def case_HOSTS_LOOKUP_def case_FORWARD_LOOKUP_def case_CACHE_LOOKUP_def case_EXTRACT_GLUE_def
      case_LOOKUP_NS_CACHE_def case_QUERY_UPSTREAM_def go_on_Next Let_def split: if_splits option.splits prod.splits)

context ns_resolver
begin

lemma iteration_chain:
  assumes "env_ok E" "machine_ok m" "world_ok E w" "chain_ok q m" "iteration nested E oq m w = Some (Next m' w')"
  shows "chain_ok q m'"
proof -
  define n where "n = stateMetricName (state_num (m_kind m))"
  define w1 where "w1 = emit_on E [StateMachineStageAdd n] (recordTraceState n w)"
  have a1: "advances E w w1" by (rule advances_frame [OF assms(3)]) (simp_all add: w1_def)
  obtain ret err s w2 where h: "handleState nested E m w1 = Some (ret, err, s, w2)" "request s = request (m_state m)"
    using handleState_ok [OF assms(1,2) advances_world_ok [OF a1]] by (auto simp: wp_result)
  have ok: "chain_ok q (m\<lparr>m_state := s\<rparr>)" using assms(4) h(2) by (auto simp: chain_ok_def)
  have laws: "copy_laws (eLib E)" using assms(1) by (simp add: env_ok_def)
  show ?thesis
    using assms(5) h(1) case_chain [OF ok] classify_chain [OF laws ok]
    unfolding iteration_def Let_def n_def [symmetric] w1_def [symmetric]
    by (cases err; cases "m_kind m") simp_all
qed

lemma reaches_ok:
  assumes "reaches nested E oq m0 w0 m w" "env_ok E" "machine_ok m0" "world_ok E w0" "chain_ok q m0"
  shows "machine_ok m \<and> world_ok E w \<and> chain_ok q m"
  using assms(1)
proof induction
  case reaches_start
  then show ?case using assms by simp
next
  case (reaches_step m w m' w')
  then have i: "result_ok E m w (Next m' w')" using iteration_ok [OF assms(2), of m w oq] by (auto simp: wp_result)
  moreover have "chain_ok q m'" using iteration_chain [OF assms(2), of m w q oq m' w'] reaches_step by blast
  ultimately show ?case by (auto simp: result_ok_def machine_ok_def reply_ok_def intro: advances_world_ok)
qed

end

section \<open>Properties\<close>

text \<open>An example request for the concrete environment.\<close>

definition example_state :: "string \<Rightarrow> baseState" where
  "example_state n = \<lparr>request = Some (newMsg\<lparr>MsgId := 9, Question := [\<lparr>qName = n, Qtype = 1, Qclass = 1\<rparr>]\<rparr>),
     response = Some newMsg, nsDepth = 0\<rparr>"

lemma ref_ok [simp]: "env_ok ref_env" "world_ok ref_env ref_world" "state_ok (example_state n)"
proof -
  show "env_ok ref_env" by (simp add: env_ok_def)
  have "gcGet ref_gocache t k [] = None" for t k by (simp add: ref_gocache_def)
  then show "world_ok ref_env ref_world" by (simp add: world_ok_def ref_world_def cache_clean_def cache_typed_def)
qed (simp add: state_ok_def example_state_def)

text \<open>
  C1. A resolution always ends, without a panic, with exactly one of a reply and an error: for
  every network, clock, schedule and cache, a request with one question leads to a reply that
  carries the id of the request, the response bit and one question, or to an error; the cache
  stays free of OPT records, and the slots of the gate that no racer holds are as many as before.
\<close>

theorem change_total:
  assumes "env_ok E" "world_ok E w" "request s = Some rq" "response s = Some rs" "length (Question rq) = 1"
    "list_all rr_typed (Extra rs)"
  shows "\<exists>res err s' w'. Change E s w = Some (res, err, s', w')
    \<and> (case err of
         None \<Rightarrow> \<exists>m. res = Some m \<and> MsgId m = MsgId rq \<and> Response m \<and> length (Question m) = 1
       | Some _ \<Rightarrow> res = None)
    \<and> cache_clean (eGC E) (wCache w')
    \<and> gateInflight (wGate w') - int (wPending w') = gateInflight (wGate w) - int (wPending w)"
proof -
  have "state_ok s" using assms by (simp add: state_ok_def)
  from Change_ok [OF assms(1) this assms(2)] obtain res err s' w' where
    "Change E s w = Some (res, err, s', w')" "result_ok E (newMachine s) w (Return res err s' w')" by (auto simp: wp_result)
  then show ?thesis using assms(3)
    by (auto simp: result_ok_def newMachine_def reply_to_def answers_def advances_def world_ok_def gate_balance_def split: option.splits)
qed

theorem change_total_witness:
  "\<exists>res err s' w'. Change ref_env (example_state ''a.'') ref_world = Some (res, err, s', w') \<and> (res = None \<longleftrightarrow> err \<noteq> None)"
  using change_total [of ref_env ref_world "example_state ''a.''"
      "newMsg\<lparr>MsgId := 9, Question := [\<lparr>qName = ''a.'', Qtype = 1, Qclass = 1\<rparr>]\<rparr>" newMsg]
  by (force simp: example_state_def split: option.splits)

text \<open>
  C9. Runs never nest more than two deep: a resolution that may start any larger number of runs
  inside one another gives the same result as one with two, whatever the name servers answer.
\<close>

theorem nested_runs_bounded:
  assumes "env_ok E" "world_ok E w" "request s = Some rq" "response s = Some rs" "length (Question rq) = 1"
    "list_all rr_typed (Extra rs)"
  shows "Change_level (n + 2) E s w = Change E s w"
  using Change_level_stable_outer [OF assms(1) _ assms(2), of s n] assms(3-) by (simp add: state_ok_def)

theorem nested_runs_bounded_witness: "Change_level 7 ref_env (example_state ''a.'') ref_world = Change ref_env (example_state ''a.'') ref_world"
  using nested_runs_bounded [of ref_env ref_world "example_state ''a.''"
      "newMsg\<lparr>MsgId := 9, Question := [\<lparr>qName = ''a.'', Qtype = 1, Qclass = 1\<rparr>]\<rparr>" newMsg 5]
  by (simp add: example_state_def)

text \<open>A cache that maps one name to another, and the run up to the second lookup.\<close>

fun machine_run :: "'c resolver \<Rightarrow> 'c env \<Rightarrow> DnsQuestion \<Rightarrow> nat \<Rightarrow> machine \<Rightarrow> 'c world \<Rightarrow> (machine \<times> 'c world) option" where
  "machine_run nested E oq 0 m w = Some (m, w)"
| "machine_run nested E oq (Suc n) m w =
     (case machine_run nested E oq n m w of
        None \<Rightarrow> None
      | Some (m, w) \<Rightarrow> (case iteration nested E oq m w of Some (Next m w) \<Rightarrow> Some (m, w) | _ \<Rightarrow> None))"

lemma machine_run_reaches: "machine_run nested E oq n m w = Some (m', w') \<Longrightarrow> reaches nested E oq m w m' w'"
  by (induction n arbitrary: m' w') (auto intro: reaches.intros split: option.splits step_result.splits)

definition cname_world :: "(string \<times> Msg \<times> int) list world" where
  "cname_world = ref_world\<lparr>wCache := [(''a.:1'', newMsg\<lparr>Answer := [RR_CNAME \<lparr>Name = ''a.'', Rrtype = 5, Class = 1, Ttl = 60\<rparr> ''b.'']\<rparr>, 100)]\<rparr>"

lemma cname_run:
  "case machine_run (as_resolver (Change_level 1)) ref_env \<lparr>qName = ''a.'', Qtype = 1, Qclass = 1\<rparr> 5 (newMachine (example_state ''a.'')) cname_world
   of None \<Rightarrow> False | Some (m, w) \<Rightarrow> map Target (m_chain m) = [''b.'']"
  by code_simp

lemma cname_world_ok: "world_ok ref_env cname_world"
proof -
  have "gcGet ref_gocache t k (wCache cname_world) = Some m \<Longrightarrow> Extra m = []" for t k m
    by (auto simp: ref_gocache_def cname_world_def split: if_splits)
  then show ?thesis by (auto simp: world_ok_def cache_clean_def cache_typed_def cname_world_def ref_world_def)
qed

lemma example_question:
  "request (example_state n) = Some (newMsg\<lparr>MsgId := 9, Question := [\<lparr>qName = n, Qtype = 1, Qclass = 1\<rparr>]\<rparr>)"
  "original_question (newMsg\<lparr>MsgId := 9, Question := [q]\<rparr>) = q"
  by (simp_all add: example_state_def original_question_def)

text \<open>
  C8. CNAME chains are followed without repetition: in every state the resolution reaches, the
  chain collected so far consists of CNAME records with distinct targets, and the name being
  resolved is the target of the last of them, or the name the client asked for while the chain is
  empty; type and class never change.
\<close>

theorem cname_chain_distinct:
  assumes "env_ok E" "world_ok E w0" "state_ok s" "Question (the (request s)) = [q]"
    "reaches (as_resolver (Change_level 1)) E (original_question (the (request s))) (newMachine s) w0 m w"
  shows "list_all is_RR_CNAME (m_chain m) \<and> distinct (map Target (m_chain m))
    \<and> Question (the (request (m_state m))) = [q\<lparr>qName := (if m_chain m = [] then qName q else Target (last (m_chain m)))\<rparr>]"
proof -
  have "chain_ok q (newMachine s)" "machine_ok (newMachine s)"
    using assms(3,4) by (auto simp: chain_ok_def newMachine_def machine_ok_def state_ok_def)
  then have "chain_ok q m"
    using inner_run.reaches_ok [of 0 E _ "newMachine s" w0 m w q] assms(1,2,5) by simp
  then show ?thesis by (auto simp: chain_ok_def)
qed

theorem cname_chain_distinct_witness:
  "\<exists>m w. reaches (as_resolver (Change_level 1)) ref_env \<lparr>qName = ''a.'', Qtype = 1, Qclass = 1\<rparr> (newMachine (example_state ''a.'')) cname_world m w
    \<and> map Target (m_chain m) = [''b.''] \<and> Question (the (request (m_state m))) = [\<lparr>qName = ''b.'', Qtype = 1, Qclass = 1\<rparr>]"
proof -
  obtain m w where r: "machine_run (as_resolver (Change_level 1)) ref_env \<lparr>qName = ''a.'', Qtype = 1, Qclass = 1\<rparr> 5
      (newMachine (example_state ''a.'')) cname_world = Some (m, w)" "map Target (m_chain m) = [''b.'']"
    using cname_run by (auto split: option.splits)
  have "reaches (as_resolver (Change_level 1)) ref_env \<lparr>qName = ''a.'', Qtype = 1, Qclass = 1\<rparr> (newMachine (example_state ''a.'')) cname_world m w"
    by (rule machine_run_reaches [OF r(1)])
  moreover have "Question (the (request (m_state m))) = [\<lparr>qName = ''b.'', Qtype = 1, Qclass = 1\<rparr>]"
    using cname_chain_distinct [of ref_env cname_world "example_state ''a.''" "\<lparr>qName = ''a.'', Qtype = 1, Qclass = 1\<rparr>" m w]
      calculation r(2)
    by (auto simp: example_question cname_world_ok map_eq_Cons_conv)
  ultimately show ?thesis using r(2) by (intro exI [of _ m] exI [of _ w] conjI)
qed

text \<open>The first iterations of a run, one equation per state.\<close>

lemma MaxIterations_Suc: "MaxIterations = Suc (Suc (Suc (Suc (Suc (Suc 44)))))"
  by (simp add: MaxIterations_def)

lemma change_loop_Next:
  "iteration nested E oq m w = Some (Next m' w') \<Longrightarrow> change_loop nested E oq (Suc n) m w = change_loop nested E oq n m' w'"
  by simp

lemma change_loop_Return:
  "iteration nested E oq m w = Some (Return res err s w') \<Longrightarrow> change_loop nested E oq (Suc n) m w = Some (res, err, s, w')"
  by simp

definition untouched :: "'c world \<Rightarrow> 'c world \<Rightarrow> bool" where
  "untouched w w' \<longleftrightarrow> wCache w' = wCache w \<and> wGate w' = wGate w \<and> wPending w' = wPending w \<and> wPool w' = wPool w
     \<and> wLimiter w' = wLimiter w \<and> wHolder w' = wHolder w \<and> wBpfCalls w' = wBpfCalls w"

lemma untouched_refl [simp]: "untouched w w"
  and untouched_trans: "untouched w w1 \<Longrightarrow> untouched w1 w2 \<Longrightarrow> untouched w w2"
  by (simp_all add: untouched_def)

lemma untouched_records [simp]:
  "untouched w (emit_on E es w') = untouched w w'" "untouched w (recordTraceState n w') = untouched w w'"
  "untouched w (recordStateTransition E a b w') = untouched w w'" "untouched w (recordTerminalExit E a x w') = untouched w w'"
  "untouched w (tick w') = untouched w w'" "untouched w (emit_always es w') = untouched w w'"
  by (simp_all add: untouched_def recordTraceState_def recordStateTransition_def recordTerminalExit_def recordTraceTerminal_def)

definition well_formed :: "Msg \<Rightarrow> DnsQuestion \<Rightarrow> bool" where
  "well_formed rq q \<longleftrightarrow> Question rq = [q] \<and> \<not> Response rq \<and> Opcode rq = OpcodeQuery"

lemma init_iteration:
  assumes "m_kind m = STATE_INIT" "request (m_state m) = Some rq" "response (m_state m) = Some rs" "well_formed rq q"
  shows "\<exists>w'. iteration nested E oq m w = Some (Next (m\<lparr>m_kind := HOSTS_LOOKUP,
    m_state := (m_state m)\<lparr>response := Some (SetReply (eLib E) rs rq)\<rparr>\<rparr>) w') \<and> untouched w w'"
  using assms
  by (simp add: iteration_def handleState_def handler_of_def stateInit_handle_def well_formed_def case_STATE_INIT_def go_on_def Let_def)

lemma hosts_iteration:
  assumes "m_kind m = HOSTS_LOOKUP" "hostsLookup_handle E (m_state m) (emit_on E [StateMachineStageAdd (stateMetricName 1)]
      (recordTraceState (stateMetricName 1) w)) = Some (ret, None, s, w1)" "ret \<in> {0, 1}"
  shows "\<exists>w'. iteration nested E oq m w = Some (Next (m\<lparr>m_kind := (if ret = 0 then RETURN_RESP else FORWARD_LOOKUP), m_state := s\<rparr>) w')
    \<and> (\<forall>w0. untouched w0 w' = untouched w0 w1)"
  using assms by (auto simp: iteration_def handleState_def handler_of_def case_HOSTS_LOOKUP_def go_on_def Let_def)

lemma return_iteration:
  assumes "m_kind m = RETURN_RESP" "request (m_state m) = Some rq" "response (m_state m) = Some rs" "Question rs = [y]"
  shows "\<exists>w'. iteration nested E oq m w = Some (Return (Some (rs\<lparr>Question := [oq], Answer := m_chain m @ Answer rs\<rparr>)) None
    ((m_state m)\<lparr>response := Some (rs\<lparr>Question := [oq], Answer := m_chain m @ Answer rs\<rparr>)\<rparr>) w') \<and> (\<forall>w0. untouched w0 w' = untouched w0 w)"
  using assms
  by (simp add: iteration_def handleState_def handler_of_def returnResp_handle_def case_RETURN_RESP_def buildFinalResponse_def Let_def)

lemma Change_start:
  assumes "request s = Some rq" "response s = Some rs" "well_formed rq q"
  shows "\<exists>w1. Change E s w = change_loop (as_resolver (Change_level (Suc 0))) E q (Suc (Suc (Suc (Suc (Suc 44)))))
      (newMachine s\<lparr>m_kind := HOSTS_LOOKUP, m_state := s\<lparr>response := Some (SetReply (eLib E) rs rq)\<rparr>\<rparr>) w1 \<and> untouched w w1"
proof -
  obtain w1 where i: "iteration (as_resolver (Change_level (Suc 0))) E q (newMachine s) w = Some (Next (newMachine s\<lparr>m_kind := HOSTS_LOOKUP,
    m_state := s\<lparr>response := Some (SetReply (eLib E) rs rq)\<rparr>\<rparr>) w1)" "untouched w w1"
    using init_iteration [of "newMachine s" rq rs q "as_resolver (Change_level (Suc 0))" E q w] assms by (auto simp: newMachine_def)
  have "original_question rq = q" using assms(3) by (simp add: original_question_def well_formed_def)
  then have "Change E s w = change_loop (as_resolver (Change_level (Suc 0))) E q (Suc (Suc (Suc (Suc (Suc (Suc 44)))))) (newMachine s) w"
    using assms(1) by (simp add: Change_def numeral_2_eq_2 Change_with_def MaxIterations_Suc)
  then show ?thesis using i(2) by (intro exI [of _ w1]) (simp only: change_loop_Next [OF i(1)] simp_thms)
qed

definition hosts_key :: "DnsQuestion \<Rightarrow> string" where
  "hosts_key q = qName q @ '':'' @ nat_digits (unat (Qtype q))"

text \<open>
  The hosts file is authoritative: a name with an entry for the type is answered with that
  entry, a name with entries of other types only gets an empty answer, both with the code for
  success and the authoritative bit, under the question asked; the cache, the gate, the pool, the
  limiter and the network are not touched.
\<close>

lemma hosts_answer:
  assumes "env_ok E" "request s = Some rq" "response s = Some newMsg" "well_formed rq q"
    "hostsMap (eSnap E) \<noteq> []" "map_of (hostsMap (eSnap E)) (hosts_key q) \<noteq> None \<or> qName q \<in> set (hostsNames (eSnap E))"
  shows "\<exists>m s' w'. Change E s w = Some (Some m, None, s', w') \<and> untouched w w' \<and> Question m = [q]
    \<and> MsgId m = MsgId rq \<and> Rcode m = RcodeSuccess \<and> Authoritative m \<and> Ns m = [] \<and> Extra m = []
    \<and> Answer m = (case map_of (hostsMap (eSnap E)) (hosts_key q) of Some cached \<Rightarrow> Answer cached | None \<Rightarrow> [])"
proof -
  let ?n = "as_resolver (Change_level (Suc 0))"
  let ?rs = "SetReply (eLib E) newMsg rq"
  let ?m = "newMachine s\<lparr>m_kind := HOSTS_LOOKUP, m_state := s\<lparr>response := Some ?rs\<rparr>\<rparr>"
  obtain w1 where c: "Change E s w = change_loop ?n E q (Suc (Suc (Suc (Suc (Suc 44))))) ?m w1" "untouched w w1"
    using Change_start [OF assms(2,3,4)] by blast
  have laws: "reply_laws (eLib E)" "copy_laws (eLib E)" using assms(1) by (simp_all add: env_ok_def)
  have q: "Question rq = [q]" using assms(4) by (simp add: well_formed_def)
  have copies: "map (RRCopy (eLib E)) xs = xs" for xs using laws(2) by (simp add: map_idI)
  define rs' where "rs' = ?rs\<lparr>Answer := (case map_of (hostsMap (eSnap E)) (hosts_key q) of Some cached \<Rightarrow> Answer cached | None \<Rightarrow> []),
    Authoritative := True, Rcode := RcodeSuccess\<rparr>"
  have h: "hostsLookup_handle E (s\<lparr>response := Some ?rs\<rparr>) w2 = Some (0, None, s\<lparr>response := Some rs'\<rparr>, w2)" for w2
    using assms(2,5,6) q laws by (auto simp: hostsLookup_handle_def rs'_def hosts_key_def copies Let_def split: option.split)
  obtain w2 where i: "iteration ?n E q ?m w1 = Some (Next (?m\<lparr>m_kind := RETURN_RESP, m_state := s\<lparr>response := Some rs'\<rparr>\<rparr>) w2)" "untouched w w2"
    using hosts_iteration [of ?m E w1 0 "s\<lparr>response := Some rs'\<rparr>" _ ?n q] h c(2) by auto
  have "Question rs' = [q]" using q laws by (simp add: rs'_def)
  then obtain w3 where r: "iteration ?n E q (?m\<lparr>m_kind := RETURN_RESP, m_state := s\<lparr>response := Some rs'\<rparr>\<rparr>) w2
      = Some (Return (Some (rs'\<lparr>Question := [q]\<rparr>)) None (s\<lparr>response := Some (rs'\<lparr>Question := [q]\<rparr>)\<rparr>) w3)" "untouched w w3"
    using return_iteration [of "?m\<lparr>m_kind := RETURN_RESP, m_state := s\<lparr>response := Some rs'\<rparr>\<rparr>" rq rs' q ?n E q w2] assms(2) i(2)
    by (auto simp: newMachine_def)
  have "Change E s w = Some (Some (rs'\<lparr>Question := [q]\<rparr>), None, s\<lparr>response := Some (rs'\<lparr>Question := [q]\<rparr>)\<rparr>, w3)"
    by (simp only: c(1) change_loop_Next [OF i(1)] change_loop_Return [OF r(1)])
  then show ?thesis using r(2) laws q by (simp add: rs'_def)
qed

definition hosts_env :: "(string \<times> Msg \<times> int) list env" where
  "hosts_env = ref_env\<lparr>eSnap := \<lparr>hostsMap = [(''a.:1'', newMsg\<lparr>Answer := [RR_A \<lparr>Name = ''a.'', Rrtype = 1, Class = 1, Ttl = 60\<rparr> (Some (10, 0, 0, 1))]\<rparr>)],
     hostsNames = [''a.''], forwardZones = []\<rparr>\<rparr>"

lemma hosts_answer_example:
  "\<exists>m s' w'. Change hosts_env (example_state ''a.'') ref_world = Some (Some m, None, s', w')
    \<and> Answer m = [RR_A \<lparr>Name = ''a.'', Rrtype = 1, Class = 1, Ttl = 60\<rparr> (Some (10, 0, 0, 1))]"
proof -
  let ?q = "\<lparr>qName = ''a.'', Qtype = 1, Qclass = 1\<rparr>"
  have e: "env_ok hosts_env" by (simp add: hosts_env_def env_ok_def)
  have k: "hosts_key ?q = ''a.:1''" by code_simp
  show ?thesis
    using hosts_answer [OF e, of "example_state ''a.''" _ ?q ref_world]
    by (auto simp: example_state_def well_formed_def hosts_env_def k)
qed

section \<open>Forwarding\<close>

text \<open>What a gated exchange does not touch.\<close>

definition keeps_store :: "'c world \<Rightarrow> 'c world \<Rightarrow> bool" where
  "keeps_store w w' \<longleftrightarrow> wCache w' = wCache w \<and> wPool w' = wPool w \<and> wBpfCalls w' = wBpfCalls w"

lemma keeps_store_refl [simp]: "keeps_store w w"
  and keeps_store_trans: "keeps_store w w1 \<Longrightarrow> keeps_store w1 w2 \<Longrightarrow> keeps_store w w2"
  and keeps_store_untouched: "untouched w w' \<Longrightarrow> keeps_store w w'"
  by (simp_all add: keeps_store_def untouched_def)

lemma keeps_store_records [simp]:
  "keeps_store w (emit_on E es w') = keeps_store w w'" "keeps_store w (recordTraceState n w') = keeps_store w w'"
  "keeps_store w (recordStateTransition E a b w') = keeps_store w w'" "keeps_store w (recordTerminalExit E a x w') = keeps_store w w'"
  "keeps_store w (tick w') = keeps_store w w'" "keeps_store w (emit_always es w') = keeps_store w w'"
  "keeps_store w (w_gate_release E w') = keeps_store w w'" "keeps_store w (drain_one E w') = keeps_store w w'"
  "keeps_store w (w'\<lparr>wGate := g\<rparr>) = keeps_store w w'"
  "keeps_store w (snd (w_tryAcquireExpensiveRequest E p qn z w')) = keeps_store w w'"
  by (simp_all add: keeps_store_def recordTraceState_def recordStateTransition_def recordTerminalExit_def recordTraceTerminal_def
      w_gate_release_def drain_one_def w_tryAcquireExpensiveRequest_def case_prod_beta Let_def)

lemma exchange_keeps_store [simp]: "keeps_store w (snd (exchangeWithUpstreamGate E q t p w')) = keeps_store w w'"
proof -
  have "keeps_store w ((drain_one E ^^ n) w1) = keeps_store w w1" for n w1 by (induction n) simp_all
  then have "keeps_store w (snd (w_tryAcquire E p x w')) = keeps_store w w'" for x
    by (simp add: w_tryAcquire_def drain_racers_def case_prod_beta Let_def)
  then show ?thesis by (simp add: exchangeWithUpstreamGate_def w_exchange_def case_prod_beta Let_def)
qed

lemma exchange_result:
  "fst (exchangeWithUpstreamGate E q t p w) = Inr y \<Longrightarrow> \<exists>i. eXchg E i q t = Inr y"
  by (auto simp: exchangeWithUpstreamGate_def w_exchange_def case_prod_beta Let_def split: if_splits sum.splits)

definition from_upstream :: "'c env \<Rightarrow> Msg \<Rightarrow> Msg \<Rightarrow> Msg \<Rightarrow> string list \<Rightarrow> Msg \<Rightarrow> bool" where
  "from_upstream E rq rs query ups rs' \<longleftrightarrow>
     (\<exists>u\<in>set ups. \<exists>i resp rtt. eXchg E i query u = Inr (resp, rtt) \<and> rs' = forward_response rq rs resp)"

lemma from_upstream_Cons: "from_upstream E rq rs query ups rs' \<Longrightarrow> from_upstream E rq rs query (u # ups) rs'"
  unfolding from_upstream_def by (meson list.set_intros(2))

lemma forward_loop_result:
  "case forward_loop E rq rs query ups w of (ret, rs', w') \<Rightarrow> keeps_store w w'
    \<and> (ret = FORWARD_LOOKUP_SERVFAIL \<and> rs' = rs \<or> ret = FORWARD_LOOKUP_HIT \<and> from_upstream E rq rs query ups rs')"
proof (induction ups arbitrary: w)
  case (Cons u ups)
  let ?x = "exchangeWithUpstreamGate E query u upstreamGatePathForward w"
  show ?case
  proof (cases "fst ?x")
    case (Inl err)
    then show ?thesis
      using Cons.IH [of "snd ?x"] keeps_store_trans [of w "snd ?x"]
      by (auto simp: case_prod_beta Let_def intro: from_upstream_Cons)
  next
    case (Inr y)
    from exchange_result [OF this] obtain i where "eXchg E i query u = Inr y" by blast
    then show ?thesis using Inr by (cases y) (auto simp: case_prod_beta Let_def from_upstream_def)
  qed
qed simp

text \<open>The reply to a forwarded request.\<close>

definition forwarded :: "'c env \<Rightarrow> ForwardZone \<Rightarrow> Msg \<Rightarrow> bool" where
  "forwarded E z m \<longleftrightarrow> (\<exists>u\<in>set (fzUpstreams z). \<exists>i query resp rtt. eXchg E i query u = Inr (resp, rtt)
     \<and> Rcode m = Rcode resp \<and> Answer m = Answer resp \<and> Ns m = Ns resp \<and> Extra m = Extra resp)"

lemma forwardLookup_result:
  assumes "request s = Some rq" "response s = Some rs" "Question rq = [q]"
    "forward_match (eLib E) (forwardZones (eSnap E)) (qName q) = Some z"
  shows "\<exists>ret rs' w'. forwardLookup_handle E s w = Some (ret, None, s\<lparr>response := Some rs'\<rparr>, w') \<and> keeps_store w w'
    \<and> (ret \<in> {FORWARD_LOOKUP_SERVFAIL, FORWARD_LOOKUP_REFUSED}
       \<or> ret = FORWARD_LOOKUP_HIT \<and> forwarded E z rs' \<and> MsgId rs' = MsgId rq \<and> Response rs' \<and> Question rs' = Question rs)"
proof -
  define query where "query = (SetQuestion (eLib E) (eId E (wTick w)) newMsg (qName q) (Qtype q))\<lparr>RecursionDesired := True, MsgId := eId E (Suc (wTick w))\<rparr>"
  define x where "x = w_tryAcquireExpensiveRequest E expensivePathForward (qName q) (fzZone z) (tick (tick w))"
  have x: "keeps_store w (snd x)" by (simp add: x_def)
  have s: "s\<lparr>response := Some rs\<rparr> = s" using assms(2) by simp
  have n: "forwardZones (eSnap E) \<noteq> []" using assms(4) by (auto simp: forward_match_def)
  obtain ret rs' w' where l: "forward_loop E rq rs query (fzUpstreams z) (snd x) = (ret, rs', w')" by (metis prod_cases3)
  have f: "keeps_store (snd x) w'" "ret = FORWARD_LOOKUP_SERVFAIL \<or> ret = FORWARD_LOOKUP_HIT \<and> from_upstream E rq rs query (fzUpstreams z) rs'"
    using forward_loop_result [where E = E and rq = rq and rs = rs and query = query and ups = "fzUpstreams z" and w = "snd x"] l by auto
  show ?thesis
  proof (cases "fst x")
    case True
    then have "forwardLookup_handle E s w = Some (ret, None, s\<lparr>response := Some rs'\<rparr>, w')"
      using assms n l by (simp add: forwardLookup_handle_def query_def [symmetric] x_def [symmetric] case_prod_beta Let_def)
    moreover have "ret = FORWARD_LOOKUP_HIT \<Longrightarrow> forwarded E z rs' \<and> MsgId rs' = MsgId rq \<and> Response rs' \<and> Question rs' = Question rs"
      using f(2) unfolding forwarded_def from_upstream_def by (fastforce simp: forward_response_def setMsgHdr_def)
    ultimately show ?thesis using f keeps_store_trans [OF x f(1)] by blast
  next
    case False
    then have "forwardLookup_handle E s w = Some (FORWARD_LOOKUP_REFUSED, None, s\<lparr>response := Some rs\<rparr>, snd x)"
      using assms n s by (simp add: forwardLookup_handle_def query_def [symmetric] x_def [symmetric] case_prod_beta Let_def)
    then show ?thesis using x by blast
  qed
qed

definition hosts_miss :: "'c env \<Rightarrow> DnsQuestion \<Rightarrow> bool" where
  "hosts_miss E q \<longleftrightarrow> hostsMap (eSnap E) = []
     \<or> map_of (hostsMap (eSnap E)) (hosts_key q) = None \<and> qName q \<notin> set (hostsNames (eSnap E))"

text \<open>A request the hosts file does not answer reaches the forwarding zones.\<close>

lemma Change_forward:
  assumes "request s = Some rq" "response s = Some rs" "well_formed rq q" "hosts_miss E q"
  shows "\<exists>w1. Change E s w = change_loop (as_resolver (Change_level (Suc 0))) E q (Suc (Suc (Suc (Suc 44))))
      (newMachine s\<lparr>m_kind := FORWARD_LOOKUP, m_state := s\<lparr>response := Some (SetReply (eLib E) rs rq)\<rparr>\<rparr>) w1 \<and> untouched w w1"
proof -
  let ?n = "as_resolver (Change_level (Suc 0))"
  let ?s = "s\<lparr>response := Some (SetReply (eLib E) rs rq)\<rparr>"
  let ?m = "newMachine s\<lparr>m_kind := HOSTS_LOOKUP, m_state := ?s\<rparr>"
  obtain w1 where c: "Change E s w = change_loop ?n E q (Suc (Suc (Suc (Suc (Suc 44))))) ?m w1" "untouched w w1"
    using Change_start [OF assms(1,2,3), of E w] by auto
  have h: "hostsLookup_handle E ?s w2 = Some (1, None, ?s, w2)" for w2
    using assms(1,3,4) by (auto simp: hostsLookup_handle_def hosts_miss_def well_formed_def hosts_key_def Let_def)
  obtain w2 where i: "iteration ?n E q ?m w1 = Some (Next (?m\<lparr>m_kind := FORWARD_LOOKUP, m_state := ?s\<rparr>) w2)" "untouched w w2"
    using hosts_iteration [of ?m E w1 1 ?s _ ?n q] h c(2) by auto
  have "?m\<lparr>m_kind := FORWARD_LOOKUP, m_state := ?s\<rparr> = newMachine s\<lparr>m_kind := FORWARD_LOOKUP, m_state := ?s\<rparr>" by simp
  then show ?thesis using i(2) by (intro exI [of _ w2]) (simp only: c(1) change_loop_Next [OF i(1)] simp_thms)
qed

text \<open>
  C10. A forwarded name never falls back to iteration and is never cached: when the hosts file has
  no answer and a forwarding zone matches, the reply is exactly what an upstream of that zone
  sent, under the id and the question of the client, or an empty SERVFAIL or REFUSED; the cache,
  the kernel cache and the address pool do not change.
\<close>

theorem forward_never_cached:
  assumes "env_ok E" "request s = Some rq" "response s = Some newMsg" "well_formed rq q" "hosts_miss E q"
    "forward_match (eLib E) (forwardZones (eSnap E)) (qName q) = Some z"
  shows "\<exists>m s' w'. Change E s w = Some (Some m, None, s', w') \<and> MsgId m = MsgId rq \<and> Response m \<and> Question m = [q]
    \<and> wCache w' = wCache w \<and> wBpfCalls w' = wBpfCalls w \<and> wPool w' = wPool w
    \<and> (forwarded E z m \<or> Rcode m \<in> {RcodeServerFailure, RcodeRefused} \<and> Answer m = [] \<and> Ns m = [] \<and> Extra m = [])"
proof -
  let ?n = "as_resolver (Change_level (Suc 0))"
  let ?s = "s\<lparr>response := Some (SetReply (eLib E) newMsg rq)\<rparr>"
  let ?m = "newMachine s\<lparr>m_kind := FORWARD_LOOKUP, m_state := ?s\<rparr>"
  obtain w1 where c: "Change E s w = change_loop ?n E q (Suc (Suc (Suc (Suc 44)))) ?m w1" "keeps_store w w1"
    using Change_forward [OF assms(2,3,4,5), of w] keeps_store_untouched by auto
  have laws: "reply_laws (eLib E)" using assms(1) by (simp add: env_ok_def)
  have q: "Question rq = [q]" using assms(4) by (simp add: well_formed_def)
  define w2 where "w2 = emit_on E [StateMachineStageAdd (stateMetricName 2)] (recordTraceState (stateMetricName 2) w1)"
  obtain ret rs' w3 where f: "forwardLookup_handle E ?s w2 = Some (ret, None, s\<lparr>response := Some rs'\<rparr>, w3)" "keeps_store w2 w3"
    "ret \<in> {2, 3} \<or> ret = 0 \<and> forwarded E z rs' \<and> MsgId rs' = MsgId rq \<and> Response rs' \<and> Question rs' = [q]"
    using forwardLookup_result [of ?s rq "SetReply (eLib E) newMsg rq" q E z w2] assms(2,6) q laws by auto
  have k: "keeps_store w w3" using c(2) f(2) keeps_store_trans [of w w2 w3] by (simp add: w2_def)
  have it: "iteration ?n E q ?m w1 = case_FORWARD_LOOKUP E (?m\<lparr>m_state := s\<lparr>response := Some rs'\<rparr>\<rparr>) ret w3"
    using f(1) by (simp add: iteration_def handleState_def handler_of_def Let_def w2_def)
  have step: "change_loop ?n E q (Suc k) ?m w1 = (case_FORWARD_LOOKUP E (?m\<lparr>m_state := s\<lparr>response := Some rs'\<rparr>\<rparr>) ret w3
      \<bind> (\<lambda>r. case r of Next m w \<Rightarrow> change_loop ?n E q k m w | Return res err s w \<Rightarrow> Some (res, err, s, w)))" for k
    by (simp only: change_loop.simps(2) it)
  consider "ret = 2" | "ret = 3" | "ret = 0" "forwarded E z rs'" "MsgId rs' = MsgId rq" "Response rs'" "Question rs' = [q]" using f(3) by auto
  then show ?thesis
  proof cases
    case 3
    let ?r = "?m\<lparr>m_kind := RETURN_RESP, m_state := s\<lparr>response := Some rs'\<rparr>\<rparr>"
    obtain w4 where r: "iteration ?n E q ?r (recordStateTransition E FORWARD_LOOKUP RETURN_RESP w3) = Some (Return (Some (rs'\<lparr>Question := [q]\<rparr>)) None
        (s\<lparr>response := Some (rs'\<lparr>Question := [q]\<rparr>)\<rparr>) w4)" "untouched w3 w4"
      using return_iteration [of ?r rq rs' q ?n E q "recordStateTransition E FORWARD_LOOKUP RETURN_RESP w3"] assms(2) 3
      by (auto simp: newMachine_def)
    have "Change E s w = Some (Some (rs'\<lparr>Question := [q]\<rparr>), None, s\<lparr>response := Some (rs'\<lparr>Question := [q]\<rparr>)\<rparr>, w4)"
      using step [of "Suc (Suc (Suc 44))"] change_loop_Return [OF r(1), of "Suc (Suc 44)"] c(1) 3(1) by (simp add: case_FORWARD_LOOKUP_def go_on_def newMachine_def)
    then show ?thesis using 3 keeps_store_trans [OF k keeps_store_untouched [OF r(2)]] by (auto simp: keeps_store_def forwarded_def)
  qed (use c(1) step [of "Suc (Suc (Suc 44))"] k assms(2) q laws in
      \<open>auto simp: case_FORWARD_LOOKUP_def servfail_exit_def refused_exit_def buildRefusedResponse_def newMachine_def
        keeps_store_def recordTerminalExit_def recordTraceTerminal_def\<close>)
qed

definition forward_env :: "(string \<times> Msg \<times> int) list env" where
  "forward_env = ref_env\<lparr>eSnap := \<lparr>hostsMap = [], hostsNames = [], forwardZones = [\<lparr>fzZone = ''a.'', fzUpstreams = [''10.0.0.1:53'']\<rparr>]\<rparr>,
     eXchg := (\<lambda>_ _ _. Inr (newMsg, 5))\<rparr>"

theorem forward_never_cached_witness:
  "\<exists>m s' w'. Change forward_env (example_state ''a.'') ref_world = Some (Some m, None, s', w') \<and> MsgId m = 9 \<and> wCache w' = []"
proof -
  let ?q = "\<lparr>qName = ''a.'', Qtype = 1, Qclass = 1\<rparr>"
  have e: "env_ok forward_env" by (auto simp: forward_env_def env_ok_def msg_typed_def)
  have "forward_match (eLib forward_env) (forwardZones (eSnap forward_env)) ''a.'' = Some \<lparr>fzZone = ''a.'', fzUpstreams = [''10.0.0.1:53'']\<rparr>"
    by code_simp
  then show ?thesis
    using forward_never_cached [OF e, of "example_state ''a.''" _ ?q "\<lparr>fzZone = ''a.'', fzUpstreams = [''10.0.0.1:53'']\<rparr>" ref_world]
    by (auto simp: example_state_def well_formed_def hosts_miss_def forward_env_def ref_world_def)
qed

section \<open>Answers from the cache\<close>

lemma forward_miss_iteration:
  assumes "m_kind m = FORWARD_LOOKUP" "request (m_state m) = Some rq" "response (m_state m) = Some rs" "Question rq = [q]"
    "forward_match (eLib E) (forwardZones (eSnap E)) (qName q) = None"
  shows "\<exists>w'. iteration nested E oq m w = Some (Next (m\<lparr>m_kind := CACHE_LOOKUP\<rparr>) w') \<and> untouched w w'"
proof -
  have "m_state m\<lparr>response := Some rs\<rparr> = m_state m" using assms(3) by simp
  then show ?thesis using assms
    by (simp add: iteration_def handleState_def handler_of_def forwardLookup_handle_def case_FORWARD_LOOKUP_def go_on_def Let_def)
qed

text \<open>What a cached message adds to the response.\<close>

definition with_cached :: "Msg \<Rightarrow> Msg \<Rightarrow> Msg" where
  "with_cached rs c = (if Answer c \<noteq> [] then rs\<lparr>Answer := Answer rs @ Answer c\<rparr> else rs\<lparr>Rcode := Rcode c, Ns := Ns rs @ Ns c\<rparr>)"

lemma cache_hit_iteration:
  assumes "m_kind m = CACHE_LOOKUP" "request (m_state m) = Some rq" "response (m_state m) = Some rs" "Question rq = [q]"
    "\<forall>i. gcGet (eGC E) (eNow E i) (getCacheKey (qName q) (Qtype q)) (wCache w) = Some c" "Answer c \<noteq> [] \<or> hasSOAInAuthority c"
  shows "\<exists>w'. iteration nested E oq m w = Some (Next (m\<lparr>m_kind := CLASSIFY_RESP, m_state := (m_state m)\<lparr>response := Some (with_cached rs c)\<rparr>\<rparr>) w')
    \<and> untouched w w'"
proof -
  let ?w = "emit_on E [StateMachineStageAdd (stateMetricName 3)] (recordTraceState (stateMetricName 3) w)"
  let ?g = "getCacheCopy E (getCacheKey (qName q) (Qtype q)) ?w"
  have f: "fst ?g = Some (shallowCopyMsg c)"
    using assms(5) by (simp add: getCacheCopy_def getCache_def Let_def)
  have u: "untouched w (snd ?g)" by (simp add: untouched_def recordTraceState_def)
  have h: "hasSOAInAuthority (shallowCopyMsg c) = hasSOAInAuthority c" by (simp add: hasSOAInAuthority_def)
  show ?thesis
    using assms(1-4,6) f u h
    by (auto simp: iteration_def handleState_def handler_of_def cacheLookup_handle_def getCacheCopyByType_def case_CACHE_LOOKUP_def go_on_def
        with_cached_def case_prod_beta Let_def)
qed

lemma Change_classify:
  assumes "request s = Some rq" "response s = Some rs" "well_formed rq q" "hosts_miss E q"
    "forward_match (eLib E) (forwardZones (eSnap E)) (qName q) = None"
    "\<forall>i. gcGet (eGC E) (eNow E i) (getCacheKey (qName q) (Qtype q)) (wCache w) = Some c" "Answer c \<noteq> [] \<or> hasSOAInAuthority c"
  shows "\<exists>w1. Change E s w = change_loop (as_resolver (Change_level (Suc 0))) E q (Suc (Suc 44))
      (newMachine s\<lparr>m_kind := CLASSIFY_RESP, m_state := s\<lparr>response := Some (with_cached (SetReply (eLib E) rs rq) c)\<rparr>\<rparr>) w1 \<and> untouched w w1"
proof -
  let ?n = "as_resolver (Change_level (Suc 0))"
  let ?s = "s\<lparr>response := Some (SetReply (eLib E) rs rq)\<rparr>"
  let ?f = "newMachine s\<lparr>m_kind := FORWARD_LOOKUP, m_state := ?s\<rparr>"
  let ?c = "newMachine s\<lparr>m_kind := CACHE_LOOKUP, m_state := ?s\<rparr>"
  have q: "Question rq = [q]" using assms(3) by (simp add: well_formed_def)
  obtain w1 where c: "Change E s w = change_loop ?n E q (Suc (Suc (Suc (Suc 44)))) ?f w1" "untouched w w1"
    using Change_forward [OF assms(1-4), of w] by auto
  obtain w2 where i2: "iteration ?n E q ?f w1 = Some (Next ?c w2)" "untouched w1 w2"
    using forward_miss_iteration [of ?f rq "SetReply (eLib E) rs rq" q E ?n q w1] assms(1,5) q by auto
  have "wCache w2 = wCache w" using c(2) i2(2) by (simp add: untouched_def)
  then obtain w3 where i3: "iteration ?n E q ?c w2
      = Some (Next (newMachine s\<lparr>m_kind := CLASSIFY_RESP, m_state := s\<lparr>response := Some (with_cached (SetReply (eLib E) rs rq) c)\<rparr>\<rparr>) w3)" "untouched w2 w3"
    using cache_hit_iteration [of ?c rq "SetReply (eLib E) rs rq" q E w2 c ?n q] assms(1,6,7) q by auto
  show ?thesis
    using untouched_trans [OF c(2) untouched_trans [OF i2(2) i3(2)]]
    by (intro exI [of _ w3]) (simp only: c(1) change_loop_Next [OF i2(1)] change_loop_Next [OF i3(1)] simp_thms)
qed

lemma classify_iteration:
  assumes "m_kind m = CLASSIFY_RESP" "classifyResp_handle E (m_state m) (emit_on E [StateMachineStageAdd (stateMetricName 4)]
      (recordTraceState (stateMetricName 4) w)) = Some (ret, None, m_state m, w1)" "ret \<in> {0, 3}"
  shows "\<exists>w'. iteration nested E oq m w = Some (Next (m\<lparr>m_kind := RETURN_RESP\<rparr>) w') \<and> (\<forall>w0. untouched w0 w' = untouched w0 w1)
    \<and> wCache w' = wCache w1"
  using assms by (auto simp: iteration_def handleState_def handler_of_def case_CLASSIFY_RESP_def go_on_def Let_def)

text \<open>The last two iterations: the response in CLASSIFY_RESP is final.\<close>

lemma Change_return:
  assumes "Change E s w = change_loop n E q (Suc (Suc 44)) (newMachine s\<lparr>m_kind := CLASSIFY_RESP, m_state := s\<lparr>response := Some rs\<rparr>\<rparr>) w1"
    "request s = Some rq" "Question rs = [y]" "ret \<in> {0, 3}"
    "classifyResp_handle E (s\<lparr>response := Some rs\<rparr>) (emit_on E [StateMachineStageAdd (stateMetricName 4)]
      (recordTraceState (stateMetricName 4) w1)) = Some (ret, None, s\<lparr>response := Some rs\<rparr>, w2)"
  shows "\<exists>s' w'. Change E s w = Some (Some (rs\<lparr>Question := [q]\<rparr>), None, s', w') \<and> untouched w2 w'"
proof -
  let ?m = "newMachine s\<lparr>m_kind := CLASSIFY_RESP, m_state := s\<lparr>response := Some rs\<rparr>\<rparr>"
  obtain w3 where i: "iteration n E q ?m w1 = Some (Next (newMachine s\<lparr>m_kind := RETURN_RESP, m_state := s\<lparr>response := Some rs\<rparr>\<rparr>) w3)"
    "untouched w2 w3"
    using classify_iteration [of ?m E w1 ret w2 n q] assms(4,5) by auto
  obtain w4 where r: "iteration n E q (newMachine s\<lparr>m_kind := RETURN_RESP, m_state := s\<lparr>response := Some rs\<rparr>\<rparr>) w3
      = Some (Return (Some (rs\<lparr>Question := [q]\<rparr>)) None (s\<lparr>response := Some (rs\<lparr>Question := [q]\<rparr>)\<rparr>) w4)" "untouched w2 w4"
    using return_iteration [of "newMachine s\<lparr>m_kind := RETURN_RESP, m_state := s\<lparr>response := Some rs\<rparr>\<rparr>" rq rs y n E q w3] assms(2,3) i(2)
    by (auto simp: newMachine_def)
  show ?thesis
    using r(2) by (intro exI) (simp only: assms(1) change_loop_Next [OF i(1)] change_loop_Return [OF r(1)] simp_thms)
qed

text \<open>
  C13. A cached answer is served without the network: when neither the hosts file nor a forwarding
  zone answers and the cache holds a message with a record of the type asked for, the reply is the
  cached answer section under the question asked, and the cache, the gate, the pool and the limiter
  do not change.
\<close>

theorem cached_answer_served:
  assumes "env_ok E" "request s = Some rq" "response s = Some newMsg" "well_formed rq q" "hosts_miss E q"
    "forward_match (eLib E) (forwardZones (eSnap E)) (qName q) = None"
    "\<forall>i. gcGet (eGC E) (eNow E i) (getCacheKey (qName q) (Qtype q)) (wCache w) = Some c"
    "list_ex (\<lambda>rr. Rrtype (Header rr) = Qtype q) (Answer c)"
  shows "\<exists>m s' w'. Change E s w = Some (Some m, None, s', w') \<and> Answer m = Answer c \<and> Question m = [q] \<and> MsgId m = MsgId rq
    \<and> Rcode m = RcodeSuccess \<and> untouched w w'"
proof -
  let ?rs = "SetReply (eLib E) newMsg rq"
  have laws: "reply_laws (eLib E)" using assms(1) by (simp add: env_ok_def)
  have q: "Question rq = [q]" using assms(4) by (simp add: well_formed_def)
  have ne: "Answer c \<noteq> []" using assms(8) by auto
  obtain w1 where c: "Change E s w = change_loop (as_resolver (Change_level (Suc 0))) E q (Suc (Suc 44))
      (newMachine s\<lparr>m_kind := CLASSIFY_RESP, m_state := s\<lparr>response := Some (with_cached ?rs c)\<rparr>\<rparr>) w1" "untouched w w1"
    using Change_classify [OF assms(2-7)] ne by auto
  have "classifyResp_handle E (s\<lparr>response := Some (with_cached ?rs c)\<rparr>) w2 = Some (0, None, s\<lparr>response := Some (with_cached ?rs c)\<rparr>, w2)" for w2
    using assms(2,8) q ne laws by (simp add: classifyResp_handle_def with_cached_def)
  from Change_return [OF c(1) assms(2) _ _ this, of q] obtain s' w' where
    "Change E s w = Some (Some (with_cached ?rs c\<lparr>Question := [q]\<rparr>), None, s', w')" "untouched w1 w'"
    using q laws by (auto simp: with_cached_def ne untouched_def recordTraceState_def)
  then show ?thesis using laws ne untouched_trans [OF c(2)] by (auto simp: with_cached_def)
qed

lemma soa_found:
  assumes "extractSOAFromAuthority m = (Some soa, ttl)"
  shows "ttl \<noteq> 0" "hasSOAInAuthority m"
proof -
  have "soa_scan rrs = Some (soa, ttl) \<Longrightarrow> ttl \<noteq> 0 \<and> hasSOA rrs" for rrs
    by (induction rrs) (auto simp: Let_def DefaultNegativeCacheTTL_def split: if_splits RR.splits)
  then show "ttl \<noteq> 0" "hasSOAInAuthority m"
    using assms by (auto simp: extractSOAFromAuthority_def hasSOAInAuthority_def split: option.splits)
qed

text \<open>Caches with a positive and with a negative entry.\<close>

definition cached_world :: "Msg \<Rightarrow> (string \<times> Msg \<times> int) list world" where
  "cached_world c = ref_world\<lparr>wCache := [(''a.:1'', c, 100)]\<rparr>"

definition positive_msg :: Msg where
  "positive_msg = newMsg\<lparr>Answer := [RR_A \<lparr>Name = ''a.'', Rrtype = 1, Class = 1, Ttl = 60\<rparr> (Some (10, 0, 0, 1))]\<rparr>"

definition negative_msg :: Msg where
  "negative_msg = newMsg\<lparr>Rcode := 3, Ns := [RR_SOA \<lparr>Name = ''.'', Rrtype = 6, Class = 1, Ttl = 60\<rparr>
     \<lparr>SOA_Ns = [], SOA_Mbox = [], SOA_Serial = 0, SOA_Refresh = 0, SOA_Retry = 0, SOA_Expire = 0, Minttl = 30\<rparr>]\<rparr>"

lemma cached_world_get: "gcGet (eGC ref_env) (eNow ref_env i) (getCacheKey ''a.'' 1) (wCache (cached_world c)) = Some c"
proof -
  have "getCacheKey ''a.'' 1 = ''a.:1''" by code_simp
  then show ?thesis by (simp add: ref_gocache_def cached_world_def) (simp add: ref_env_def)
qed

theorem cached_answer_served_witness:
  "\<exists>m s' w'. Change ref_env (example_state ''a.'') (cached_world positive_msg) = Some (Some m, None, s', w') \<and> Answer m = Answer positive_msg"
  using cached_answer_served [of ref_env "example_state ''a.''" _ "\<lparr>qName = ''a.'', Qtype = 1, Qclass = 1\<rparr>" "cached_world positive_msg" positive_msg]
    cached_world_get
  by (auto simp: example_state_def well_formed_def hosts_miss_def forward_match_def positive_msg_def)



section \<open>Malformed requests and the gate\<close>

lemma Change_formerr:
  assumes "request s = Some rq" "response s = Some newMsg" "length (Question rq) \<noteq> 1 \<or> Response rq \<or> Opcode rq \<noteq> OpcodeQuery"
    and m: "m = SetRcode (eLib E) newMsg rq RcodeFormatError"
  shows "\<exists>w'. Change E s w = Some (Some m, None, s\<lparr>response := Some m\<rparr>, w') \<and> untouched w w'"
proof -
  let ?n = "as_resolver (Change_level (Suc 0))"
  obtain w' where i: "iteration ?n E (original_question rq) (newMachine s) w = Some (Return (Some m) None (s\<lparr>response := Some m\<rparr>) w')"
    "untouched w w'"
    using assms(1-3)
    by (simp add: newMachine_def iteration_def handleState_def handler_of_def stateInit_handle_def case_STATE_INIT_def Let_def m)
  have "Change E s w = change_loop ?n E (original_question rq) (Suc (Suc (Suc (Suc (Suc (Suc 44)))))) (newMachine s) w"
    using assms(1) by (simp add: Change_def numeral_2_eq_2 Change_with_def MaxIterations_Suc)
  then have "Change E s w = Some (Some m, None, s\<lparr>response := Some m\<rparr>, w')" by (simp only: change_loop_Return [OF i(1)])
  with i(2) show ?thesis by blast
qed

text \<open>
  C24. A malformed request is answered with FORMERR at once: unless the request has exactly one
  question, is not a response and has the opcode QUERY, the resolution ends in its first state
  with a reply that carries the id of the request and the code FORMERR; nothing else happens.
\<close>

theorem malformed_formerr:
  assumes "env_ok E" "request s = Some rq" "response s = Some newMsg"
    "length (Question rq) \<noteq> 1 \<or> Response rq \<or> Opcode rq \<noteq> OpcodeQuery"
  shows "\<exists>m s' w'. Change E s w = Some (Some m, None, s', w') \<and> Rcode m = RcodeFormatError \<and> MsgId m = MsgId rq \<and> Response m
    \<and> Answer m = [] \<and> Ns m = [] \<and> Extra m = [] \<and> untouched w w'"
proof -
  have "reply_laws (eLib E)" using assms(1) by (simp add: env_ok_def)
  then show ?thesis using Change_formerr [OF assms(2-4) refl, of E w] by fastforce
qed

theorem malformed_formerr_witness:
  "\<exists>m s' w'. Change ref_env \<lparr>request = Some newMsg, response = Some newMsg, nsDepth = 0\<rparr> ref_world = Some (Some m, None, s', w') \<and> Rcode m = 1"
  using malformed_formerr [of ref_env "\<lparr>request = Some newMsg, response = Some newMsg, nsDepth = 0\<rparr>" newMsg ref_world] by auto

lemma drain_pending: "wPending ((drain_one E ^^ n) w) = wPending w - n"
  by (induction n) (simp_all add: drain_one_def)

lemma drain_balance: "world_ok E w \<Longrightarrow> advances E w ((drain_one E ^^ n) w)"
proof (induction n)
  case (Suc n)
  then have a: "advances E w ((drain_one E ^^ n) w)" by simp
  then show ?case using drain_one_advances [OF advances_world_ok [OF a]] by (simp add: advances_trans)
qed simp

text \<open>
  C12. Every slot of the gate comes back: once the racers that a resolution left running have ended,
  the gate counts as many requests in flight as it did before the resolution, racers of earlier
  resolutions not counted.
\<close>

theorem racers_return_slots:
  assumes "env_ok E" "world_ok E w" "state_ok s" "Change E s w = Some (res, err, s', w')" "wPending w' \<le> n"
  shows "gateInflight (wGate ((drain_one E ^^ n) w')) = gateInflight (wGate w) - int (wPending w)"
proof -
  have a: "advances E w w'" using Change_ok [OF assms(1,3,2)] assms(4) by (simp add: result_ok_def)
  have "advances E w' ((drain_one E ^^ n) w')" by (rule drain_balance [OF advances_world_ok [OF a]])
  then show ?thesis using a drain_pending [where E = E and n = n and w = w'] assms(5) by (simp add: advances_def gate_balance_def)
qed

theorem racers_return_slots_witness:
  "\<exists>res err s' w'. Change ref_env (example_state ''a.'') ref_world = Some (res, err, s', w')
    \<and> gateInflight (wGate ((drain_one ref_env ^^ wPending w') w')) = 0"
proof -
  obtain res err s' w' where c: "Change ref_env (example_state ''a.'') ref_world = Some (res, err, s', w')"
    using Change_ok [of ref_env "example_state ''a.''" ref_world] by (auto simp: wp_result)
  have "gateInflight (wGate ref_world) = 0" "wPending ref_world = 0" by (simp_all add: ref_world_def)
  with racers_return_slots [OF _ _ _ c order.refl] c show ?thesis by simp
qed

end
