(* ===== verification/Runtime_State.thy ===== *)
theory Runtime_State
  imports Go_Prelude
begin

text \<open>
  The phase the process reports on its readiness endpoint (src/monitor/runtime_state.go and the
  handler of src/monitor/metric.go) and the counters of requests in flight (src/monitor/diag.go).

  Every operation holds the mutex for its whole body, except \<open>SetRuntimeServingPhase\<close>, which reads
  under the mutex, releases it and takes it again to write.  \<open>life_step\<close> interleaves the three
  goroutines that change the phase at this granularity: the one that starts the listeners and later
  shuts the server down, and the one that warms the cache up.
\<close>

section \<open>The phase\<close>

datatype RuntimePhase = RuntimePhaseColdStart | RuntimePhaseWarming | RuntimePhaseSteady | RuntimePhaseShuttingDown

fun phase_text :: "RuntimePhase \<Rightarrow> string" where
  "phase_text RuntimePhaseColdStart = ''cold-start''"
| "phase_text RuntimePhaseWarming = ''warming''"
| "phase_text RuntimePhaseSteady = ''steady''"
| "phase_text RuntimePhaseShuttingDown = ''shutting-down''"

record RuntimeStateSnapshot =
  Readiness :: bool
  Phase :: RuntimePhase

record runtimeState =
  ready :: bool
  phase :: RuntimePhase
  warmupDone :: bool

definition ResetRuntimeState :: "runtimeState \<Rightarrow> runtimeState" where
  "ResetRuntimeState st = st\<lparr>ready := False, phase := RuntimePhaseColdStart, warmupDone := False\<rparr>"

definition SetRuntimeState :: "bool \<Rightarrow> RuntimePhase \<Rightarrow> runtimeState \<Rightarrow> runtimeState" where
  "SetRuntimeState r p st =
     (let st = st\<lparr>ready := r, phase := p\<rparr>
      in if p = RuntimePhaseColdStart then st\<lparr>warmupDone := False\<rparr> else st)"

text \<open>The first half of \<open>SetRuntimeServingPhase\<close> decides on the phase, the second half is a call of
  \<open>SetRuntimeState\<close>.\<close>

definition serving_phase :: "bool \<Rightarrow> runtimeState \<Rightarrow> RuntimePhase" where
  "serving_phase warmupEnabled st =
     (if warmupEnabled \<and> \<not> warmupDone st then RuntimePhaseWarming else RuntimePhaseSteady)"

definition SetRuntimeServingPhase :: "bool \<Rightarrow> runtimeState \<Rightarrow> RuntimeStateSnapshot \<times> runtimeState" where
  "SetRuntimeServingPhase warmupEnabled st =
     (let p = serving_phase warmupEnabled st
      in (\<lparr>Readiness = True, Phase = p\<rparr>, SetRuntimeState True p st))"

definition MarkRuntimeShuttingDown :: "runtimeState \<Rightarrow> RuntimeStateSnapshot \<times> runtimeState" where
  "MarkRuntimeShuttingDown st =
     (\<lparr>Readiness = False, Phase = RuntimePhaseShuttingDown\<rparr>, SetRuntimeState False RuntimePhaseShuttingDown st)"

definition MarkRuntimeWarmupComplete :: "runtimeState \<Rightarrow> (RuntimeStateSnapshot \<times> bool) \<times> runtimeState" where
  "MarkRuntimeWarmupComplete st =
     (let st = st\<lparr>warmupDone := True\<rparr>
      in if \<not> ready st \<or> phase st \<noteq> RuntimePhaseWarming
         then ((\<lparr>Readiness = ready st, Phase = phase st\<rparr>, False), st)
         else let st = st\<lparr>phase := RuntimePhaseSteady\<rparr>
              in ((\<lparr>Readiness = ready st, Phase = phase st\<rparr>, True), st))"

definition RuntimeState :: "runtimeState \<Rightarrow> RuntimeStateSnapshot" where
  "RuntimeState st = \<lparr>Readiness = ready st, Phase = phase st\<rparr>"

text \<open>The status code and the body of the readiness endpoint.\<close>

definition readinessHandler :: "runtimeState \<Rightarrow> int \<times> string" where
  "readinessHandler st =
     (let state = RuntimeState st
      in (if Readiness state then 200 else 503,
          ''ready='' @ (if Readiness state then ''true'' else ''false'') @ [CHR 0x0A] @ ''phase='' @ phase_text (Phase state) @ [CHR 0x0A]))"

section \<open>Requests in flight\<close>

record diag =
  dnsInFlight :: int
  totalDNSRequests :: u64
  lastDNSStartUnix :: int
  lastDNSDoneUnix :: int

text \<open>The closure that \<open>DNSRequestStarted\<close> returns keeps a \<open>sync.Once\<close>: the flag says whether it has run.\<close>

definition DNSRequestStarted :: "int \<Rightarrow> diag \<Rightarrow> bool \<times> diag" where
  "DNSRequestStarted now d =
     (False, d\<lparr>lastDNSStartUnix := now, totalDNSRequests := totalDNSRequests d + 1, dnsInFlight := dnsInFlight d + 1\<rparr>)"

definition request_done :: "int \<Rightarrow> bool \<times> diag \<Rightarrow> bool \<times> diag" where
  "request_done now = (\<lambda>(once, d).
     if once then (once, d) else (True, d\<lparr>lastDNSDoneUnix := now, dnsInFlight := dnsInFlight d - 1\<rparr>))"

section \<open>Interleavings of the life cycle\<close>

datatype serve_pc = NotServing | Decided RuntimePhase | Serving

datatype warm_pc = WarmupRunning | WarmupMarked | WarmupPanicked

text \<open>\<open>raced\<close> records that the warmup ended between the two halves of \<open>SetRuntimeServingPhase\<close> after
  the first half had chosen the phase \<open>warming\<close>.\<close>

record life =
  l_state :: runtimeState
  l_serve :: serve_pc
  l_warm :: warm_pc
  l_down :: bool
  l_raced :: bool

definition initial_state :: runtimeState where
  "initial_state = \<lparr>ready = False, phase = RuntimePhaseColdStart, warmupDone = False\<rparr>"

definition life_start :: life where
  "life_start = \<lparr>l_state = ResetRuntimeState initial_state, l_serve = NotServing, l_warm = WarmupRunning, l_down = False, l_raced = False\<rparr>"

inductive life_step :: "bool \<Rightarrow> life \<Rightarrow> life \<Rightarrow> bool" for enabled where
  decide: "l_serve s = NotServing \<Longrightarrow> \<not> l_down s \<Longrightarrow>
     life_step enabled s (s\<lparr>l_serve := Decided (serving_phase enabled (l_state s))\<rparr>)"
| serve: "l_serve s = Decided p \<Longrightarrow>
     life_step enabled s (s\<lparr>l_serve := Serving, l_state := SetRuntimeState True p (l_state s)\<rparr>)"
| warm: "enabled \<Longrightarrow> l_warm s = WarmupRunning \<Longrightarrow>
     life_step enabled s (s\<lparr>l_warm := WarmupMarked, l_state := snd (MarkRuntimeWarmupComplete (l_state s)),
       l_raced := (l_serve s = Decided RuntimePhaseWarming)\<rparr>)"
| warm_panic: "enabled \<Longrightarrow> l_warm s = WarmupRunning \<Longrightarrow> life_step enabled s (s\<lparr>l_warm := WarmupPanicked\<rparr>)"
| down: "l_serve s \<in> {NotServing, Serving} \<Longrightarrow> \<not> l_down s \<Longrightarrow>
     life_step enabled s (s\<lparr>l_down := True, l_state := snd (MarkRuntimeShuttingDown (l_state s))\<rparr>)"

inductive life_reach :: "bool \<Rightarrow> life \<Rightarrow> bool" for enabled where
  start: "life_reach enabled life_start"
| step: "life_reach enabled s \<Longrightarrow> life_step enabled s t \<Longrightarrow> life_reach enabled t"

inductive_cases life_stepE: "life_step enabled s t"

section \<open>Lemmas\<close>

lemma request_done_once: "request_done t (request_done t' x) = request_done t' x"
  by (simp add: request_done_def split: prod.splits)

lemma request_in_flight: "dnsInFlight (snd (request_done t (DNSRequestStarted now d))) = dnsInFlight d"
  by (simp add: request_done_def DNSRequestStarted_def)

lemma SetRuntimeServingPhase_atomic:
  "snd (SetRuntimeServingPhase e st) = SetRuntimeState True (serving_phase e st) st"
  by (simp add: SetRuntimeServingPhase_def Let_def)

text \<open>What the phase says in every state: whether the server serves, and whether the warmup has ended.\<close>

definition life_inv :: "bool \<Rightarrow> life \<Rightarrow> bool" where
  "life_inv enabled s \<longleftrightarrow>
     (ready (l_state s) \<longleftrightarrow> l_serve s = Serving \<and> \<not> l_down s)
     \<and> (warmupDone (l_state s) \<longleftrightarrow> l_warm s = WarmupMarked)
     \<and> (l_warm s = WarmupMarked \<longrightarrow> enabled)
     \<and> (l_down s \<longrightarrow> l_serve s \<in> {NotServing, Serving})
     \<and> phase (l_state s) =
         (if l_down s then RuntimePhaseShuttingDown
          else if l_serve s \<noteq> Serving then RuntimePhaseColdStart
          else if enabled \<and> (l_warm s \<noteq> WarmupMarked \<or> l_raced s) then RuntimePhaseWarming
          else RuntimePhaseSteady)
     \<and> (l_raced s \<longrightarrow> l_warm s = WarmupMarked)
     \<and> (\<forall>p. l_serve s = Decided p \<longrightarrow>
          p = (if enabled \<and> (l_warm s \<noteq> WarmupMarked \<or> l_raced s) then RuntimePhaseWarming else RuntimePhaseSteady))
     \<and> (l_serve s = NotServing \<longrightarrow> \<not> l_raced s)"

lemma life_inv_start: "life_inv enabled life_start"
  by (simp add: life_inv_def life_start_def ResetRuntimeState_def)

lemma life_inv_step: "life_step enabled s t \<Longrightarrow> life_inv enabled s \<Longrightarrow> life_inv enabled t"
  by (induction rule: life_step.induct)
    (auto simp: life_inv_def serving_phase_def SetRuntimeState_def MarkRuntimeWarmupComplete_def MarkRuntimeShuttingDown_def Let_def
      split: if_splits)

lemma life_reach_inv: "life_reach enabled s \<Longrightarrow> life_inv enabled s"
  by (induction rule: life_reach.induct) (auto intro: life_inv_start life_inv_step)

section \<open>Properties\<close>

text \<open>
  C21. Under every interleaving of starting, warming up and shutting down, the readiness endpoint
  answers 200 exactly while the server serves, and the phase is exact: cold start before serving,
  shutting down afterwards, and in between \<open>steady\<close> if there is no warmup or it has ended outside
  the gap of \<open>SetRuntimeServingPhase\<close>, and \<open>warming\<close> otherwise.
\<close>

theorem runtime_phase_exact:
  assumes "life_reach enabled s"
  shows "fst (readinessHandler (l_state s)) = (if l_serve s = Serving \<and> \<not> l_down s then 200 else 503)
    \<and> phase (l_state s) =
        (if l_down s then RuntimePhaseShuttingDown
         else if l_serve s \<noteq> Serving then RuntimePhaseColdStart
         else if \<not> enabled \<or> (l_warm s = WarmupMarked \<and> \<not> l_raced s) then RuntimePhaseSteady
         else RuntimePhaseWarming)"
  using life_reach_inv [OF assms] by (auto simp: life_inv_def readinessHandler_def RuntimeState_def)

text \<open>The three steps in the two orders.\<close>

definition good_run :: life where
  "good_run = \<lparr>l_state = \<lparr>ready = True, phase = RuntimePhaseSteady, warmupDone = True\<rparr>,
     l_serve = Serving, l_warm = WarmupMarked, l_down = False, l_raced = False\<rparr>"

definition raced_run :: life where
  "raced_run = \<lparr>l_state = \<lparr>ready = True, phase = RuntimePhaseWarming, warmupDone = True\<rparr>,
     l_serve = Serving, l_warm = WarmupMarked, l_down = False, l_raced = True\<rparr>"

lemmas life_defs = life_start_def initial_state_def ResetRuntimeState_def serving_phase_def SetRuntimeState_def
  MarkRuntimeWarmupComplete_def good_run_def raced_run_def

definition decided_run :: life where
  "decided_run = life_start\<lparr>l_serve := Decided RuntimePhaseWarming\<rparr>"

lemma decided_reach: "life_reach True decided_run"
  using life_reach.step [OF life_reach.start life_step.decide [of life_start True]] by (simp add: life_defs decided_run_def)

lemma good_reach: "life_reach True good_run"
proof -
  have "life_reach True (decided_run\<lparr>l_serve := Serving, l_state := SetRuntimeState True RuntimePhaseWarming (l_state decided_run)\<rparr>)"
    by (rule life_reach.step [OF decided_reach life_step.serve]) (simp add: decided_run_def)
  from life_reach.step [OF this life_step.warm] show ?thesis by (simp add: life_defs decided_run_def)
qed

lemma raced_reach: "life_reach True raced_run"
proof -
  have "life_reach True (decided_run\<lparr>l_warm := WarmupMarked, l_state := snd (MarkRuntimeWarmupComplete (l_state decided_run)), l_raced := True\<rparr>)"
    using life_reach.step [OF decided_reach life_step.warm] by (simp add: decided_run_def life_start_def)
  from life_reach.step [OF this life_step.serve] show ?thesis by (simp add: life_defs decided_run_def)
qed

theorem runtime_phase_exact_witness: "life_reach True good_run \<and> phase (l_state good_run) = RuntimePhaseSteady"
  using runtime_phase_exact [OF good_reach] good_reach by (simp add: good_run_def)

lemma raced_stays:
  "(life_step True)\<^sup>*\<^sup>* raced_run s \<Longrightarrow> s = raced_run \<or> l_down s"
proof (induction rule: rtranclp_induct)
  case (step s t)
  from step.hyps(2) show ?case by (rule life_stepE) (use step.IH in \<open>auto simp: raced_run_def\<close>)
qed simp

text \<open>
  C22. The warmup can end without the phase ever becoming \<open>steady\<close>: when it ends between the read and
  the write of \<open>SetRuntimeServingPhase\<close>, the server reports \<open>warming\<close> in every later state until it
  is shut down, although the warmup is marked as done.
\<close>

theorem warming_phase_stuck:
  "\<exists>s. life_reach True s \<and> l_serve s = Serving \<and> warmupDone (l_state s) \<and> \<not> l_down s
     \<and> (\<forall>t. (life_step True)\<^sup>*\<^sup>* s t \<longrightarrow> l_down t \<or> phase (l_state t) = RuntimePhaseWarming)"
proof (intro exI conjI allI impI)
  show "life_reach True raced_run" by (rule raced_reach)
  show "l_down t \<or> phase (l_state t) = RuntimePhaseWarming" if "(life_step True)\<^sup>*\<^sup>* raced_run t" for t
    using raced_stays [OF that] by (auto simp: raced_run_def)
qed (simp_all add: raced_run_def)

theorem warming_phase_stuck_witness:
  "\<exists>s. life_reach True s \<and> phase (l_state s) = RuntimePhaseWarming \<and> warmupDone (l_state s) \<and> ready (l_state s)"
proof -
  obtain s where s: "life_reach True s" "l_serve s = Serving" "warmupDone (l_state s)" "\<not> l_down s"
      "\<forall>t. (life_step True)\<^sup>*\<^sup>* s t \<longrightarrow> l_down t \<or> phase (l_state t) = RuntimePhaseWarming"
    using warming_phase_stuck by blast
  then have "phase (l_state s) = RuntimePhaseWarming" by blast
  with s life_reach_inv [OF s(1)] show ?thesis by (auto simp: life_inv_def)
qed

end
