(* ===== verification/Warmup.thy ===== *)
theory Warmup
  imports Resolution Runtime_State
begin

text \<open>
  The warmup of the cache at start (src/server/warmup.go, src/server/tld_config.go and
  \<open>warmupNSOnStartup\<close> of src/server/server.go).  The goroutines of the warmup run one after the
  other, in an order the scheduler chooses.  \<open>slot i\<close> says whether the i-th domain gets a slot of the
  semaphore before the deadline; a semaphore without capacity never gives one, because only a
  running query takes a value out of it.
\<close>

section \<open>Configuration\<close>

record WarmupConfig =
  wcEnabled :: bool
  wcTimeout :: int
  wcDuration :: int
  wcConcurrency :: int
  wcTLDs :: "string list"

definition LoadTLDList :: "string list \<Rightarrow> string list" where
  "LoadTLDList customTLDs = (if 0 < length customTLDs then customTLDs else DefaultCuratedTLDs)"

definition calcOptimalConcurrency :: "int \<Rightarrow> int" where
  "calcOptimalConcurrency numCPU = (let concurrency = numCPU * 2 in if 8 < concurrency then 8 else concurrency)"

definition DefaultWarmupConfig :: "int \<Rightarrow> WarmupConfig" where
  "DefaultWarmupConfig numCPU =
     \<lparr>wcEnabled = True, wcTimeout = 5 * 1000000000, wcDuration = 5 * 1000000000,
      wcConcurrency = calcOptimalConcurrency numCPU, wcTLDs = DefaultCuratedTLDs\<rparr>"

section \<open>Warming up\<close>

record WarmupStats =
  stTotal :: int
  stSucceeded :: int
  stFailed :: int

text \<open>The query carries neither a holder nor a trace.\<close>

definition queryNSRecords :: "'c env \<Rightarrow> string \<Rightarrow> 'c world \<Rightarrow> (bool \<times> 'c world) option" where
  "queryNSRecords E domain w = do {
     let queryMsg = (SetQuestion (eLib E) (eId E (wTick w)) newMsg domain TypeNS)\<lparr>RecursionDesired := True\<rparr>;
     let w = (tick w)\<lparr>wHolder := None, wTrace := None\<rparr>;
     (result, err, s, w) \<leftarrow> Change E \<lparr>request = Some queryMsg, response = Some newMsg, nsDepth = 0\<rparr> w;
     Some (err = None, w)
   }"

text \<open>A query that panics is recovered and counts as failed.\<close>

fun warm_queries :: "'c env \<Rightarrow> string list \<Rightarrow> 'c world \<Rightarrow> int \<times> int \<times> 'c world" where
  "warm_queries E [] w = (0, 0, w)"
| "warm_queries E (d # ds) w =
     (case queryNSRecords E d w of
        None \<Rightarrow> (let (s, f, w) = warm_queries E ds w in (s, f + 1, w))
      | Some (ok, w) \<Rightarrow> (let (s, f, w) = warm_queries E ds w in if ok then (s + 1, f, w) else (s, f + 1, w)))"

definition warm_domains :: "dnslib \<Rightarrow> WarmupConfig \<Rightarrow> string list" where
  "warm_domains L cfg = ''.'' # map (Fqdn L) (wcTLDs cfg)"

definition launched :: "int \<Rightarrow> (nat \<Rightarrow> bool) \<Rightarrow> string list \<Rightarrow> string list" where
  "launched concurrency slot domains = map snd (filter (\<lambda>(i, _). 0 < concurrency \<and> slot i) (enumerate 0 domains))"

definition WarmupNSRecords :: "'c env \<Rightarrow> (nat \<Rightarrow> bool) \<Rightarrow> WarmupConfig \<Rightarrow> 'c world \<Rightarrow> (WarmupStats \<times> 'c world) option" where
  "WarmupNSRecords E slot cfg w =
     (let domains = warm_domains (eLib E) cfg
      in if wcConcurrency cfg < 0 then None
         else let run = launched (wcConcurrency cfg) slot domains;
                  (succeeded, failed, w') = warm_queries E (worker_order E run w) (tick w)
              in Some (\<lparr>stTotal = int (length domains), stSucceeded = succeeded,
                        stFailed = failed + (int (length domains) - int (length run))\<rparr>, w'))"

text \<open>A panic of the warmup is recovered: the phase is not changed.\<close>

definition warmupNSOnStartup :: "'c env \<Rightarrow> (nat \<Rightarrow> bool) \<Rightarrow> WarmupConfig \<Rightarrow> 'c world \<Rightarrow> runtimeState \<Rightarrow> 'c world \<times> runtimeState" where
  "warmupNSOnStartup E slot cfg w st =
     (case WarmupNSRecords E slot cfg w of
        None \<Rightarrow> (w, st)
      | Some (stats, w) \<Rightarrow> (w, snd (MarkRuntimeWarmupComplete st)))"

section \<open>Lemmas\<close>

lemma world_ok_context [simp]:
  "world_ok E (w\<lparr>wHolder := h, wTrace := t\<rparr>) = world_ok E w" "world_ok E (tick w) = world_ok E w"
  by (simp_all add: world_ok_def)

lemma advances_context [simp]:
  "advances E (w\<lparr>wHolder := h, wTrace := t\<rparr>) w' = advances E w w'" "advances E (tick w) w' = advances E w w'"
  by (simp_all add: advances_def gate_balance_def)

lemma queryNSRecords_ok:
  assumes "env_ok E" "world_ok E w"
  shows "\<exists>ok w'. queryNSRecords E d w = Some (ok, w') \<and> advances E w w'"
proof -
  let ?s = "\<lparr>request = Some ((SetQuestion (eLib E) (eId E (wTick w)) newMsg d TypeNS)\<lparr>RecursionDesired := True\<rparr>),
    response = Some newMsg, nsDepth = 0\<rparr>"
  let ?w = "(tick w)\<lparr>wHolder := None, wTrace := None\<rparr>"
  have q: "question_laws (eLib E)" using assms(1) by (simp add: env_ok_def)
  have "state_ok ?s" by (simp add: state_ok_def q)
  from Change_ok [OF assms(1) this, of ?w] assms(2) show ?thesis
    by (auto simp: queryNSRecords_def wp_result result_ok_def)
qed

lemma warm_queries_ok:
  assumes "env_ok E" "world_ok E w"
  shows "case warm_queries E ds w of (s, f, w') \<Rightarrow> 0 \<le> s \<and> 0 \<le> f \<and> s + f = int (length ds) \<and> advances E w w'"
  using assms(2)
proof (induction ds arbitrary: w)
  case (Cons d ds)
  obtain ok w1 where q: "queryNSRecords E d w = Some (ok, w1)" "advances E w w1"
    using queryNSRecords_ok [OF assms(1) Cons.prems] by blast
  have "case warm_queries E ds w1 of (s, f, w') \<Rightarrow> 0 \<le> s \<and> 0 \<le> f \<and> s + f = int (length ds) \<and> advances E w1 w'"
    by (rule Cons.IH [OF advances_world_ok [OF q(2)]])
  then show ?case using q advances_trans [OF q(2)] by (auto split: prod.splits)
qed simp

lemma launched_length: "length (launched c slot ds) \<le> length ds" "c = 0 \<Longrightarrow> launched c slot ds = []"
  by (simp_all add: launched_def) (metis length_enumerate length_filter_le)

lemma worker_order_length [simp]: "length (worker_order E xs w) = length xs"
  by (simp add: worker_order_def Let_def) (metis size_mset)

section \<open>Properties\<close>

text \<open>
  C38. The warmup accounts for every domain, whatever the network answers and whenever the deadline
  comes: with a concurrency that is not negative it ends, the domains are the root and the
  configured ones, each counts exactly once as succeeded or failed, nothing succeeds without
  capacity, the phase moves on, and the slots of the gate stay balanced.  With a negative concurrency the channel
  cannot be made: the panic is recovered and neither the cache nor the phase changes.
\<close>

theorem warmup_accounts:
  assumes "env_ok E" "world_ok E w"
  shows "if wcConcurrency cfg < 0
    then WarmupNSRecords E slot cfg w = None \<and> warmupNSOnStartup E slot cfg w st = (w, st)
    else \<exists>stats w'. WarmupNSRecords E slot cfg w = Some (stats, w')
      \<and> warmupNSOnStartup E slot cfg w st = (w', snd (MarkRuntimeWarmupComplete st))
      \<and> stTotal stats = 1 + int (length (wcTLDs cfg))
      \<and> 0 \<le> stSucceeded stats \<and> 0 \<le> stFailed stats \<and> stSucceeded stats + stFailed stats = stTotal stats
      \<and> (wcConcurrency cfg = 0 \<longrightarrow> stSucceeded stats = 0)
      \<and> cache_clean (eGC E) (wCache w') \<and> gate_balance w' = gate_balance w"
proof (cases "wcConcurrency cfg < 0")
  case True
  then show ?thesis by (simp add: WarmupNSRecords_def warmupNSOnStartup_def)
next
  case False
  let ?ds = "warm_domains (eLib E) cfg"
  let ?run = "launched (wcConcurrency cfg) slot ?ds"
  obtain s f w' where q: "warm_queries E (worker_order E ?run w) (tick w) = (s, f, w')" by (metis prod_cases3)
  have ok: "0 \<le> s" "0 \<le> f" "s + f = int (length ?run)" "advances E w w'"
    using warm_queries_ok [of E "tick w" "worker_order E ?run w"] assms q by simp_all
  have len: "length ?run \<le> length ?ds" by (rule launched_length)
  have z: "wcConcurrency cfg = 0 \<Longrightarrow> s = 0" using ok launched_length(2) [of "wcConcurrency cfg" slot ?ds] by simp
  have "WarmupNSRecords E slot cfg w =
      Some (\<lparr>stTotal = int (length ?ds), stSucceeded = s, stFailed = f + (int (length ?ds) - int (length ?run))\<rparr>, w')"
    using False q by (simp add: WarmupNSRecords_def Let_def)
  with False ok len z show ?thesis by (simp add: warmupNSOnStartup_def advances_def world_ok_def) (simp add: warm_domains_def)
qed

theorem warmup_accounts_witness:
  "\<exists>stats w'. WarmupNSRecords ref_env (\<lambda>i. i \<noteq> 1) \<lparr>wcEnabled = True, wcTimeout = 1, wcDuration = 1, wcConcurrency = 2, wcTLDs = [''com'', ''net'']\<rparr> ref_world
      = Some (stats, w') \<and> stTotal stats = 3 \<and> stSucceeded stats + stFailed stats = 3"
  using warmup_accounts [of ref_env ref_world "\<lparr>wcEnabled = True, wcTimeout = 1, wcDuration = 1, wcConcurrency = 2, wcTLDs = [''com'', ''net'']\<rparr>"
      "\<lambda>i. i \<noteq> 1" initial_state]
  by auto

end
