(* ===== verification/Go_IP.thy ===== *)
theory Go_IP
  imports Go_Net
begin

text \<open>
  \<open>net.ParseIP\<close> for both address families, following the parser of package \<open>net/netip\<close> it
  calls: the first dot, colon or percent sign decides the family; an IPv6 address is up to eight
  groups of at most four hexadecimal digits, at most one ellipsis standing for one or more zero
  groups, and an optional IPv4 tail.  The result is the sixteen-byte form.  An address with a zone
  is not an address for \<open>net.ParseIP\<close>.
\<close>

definition hex_val :: "char \<Rightarrow> nat option" where
  "hex_val c =
     (let n = (of_char c :: nat)
      in if 48 \<le> n \<and> n \<le> 57 then Some (n - 48)
         else if 97 \<le> n \<and> n \<le> 102 then Some (n - 87)
         else if 65 \<le> n \<and> n \<le> 70 then Some (n - 55) else None)"

text \<open>The value and the length of the leading hexadecimal digits, and the rest.\<close>

fun hex_run :: "nat \<Rightarrow> nat \<Rightarrow> string \<Rightarrow> (nat \<times> nat \<times> string) option" where
  "hex_run acc off [] = Some (acc, off, [])"
| "hex_run acc off (c # s) =
     (case hex_val c of
        None \<Rightarrow> Some (acc, off, c # s)
      | Some d \<Rightarrow>
          let acc = acc * 16 + d
          in if 3 < off then None else if 65535 < acc then None else hex_run acc (off + 1) s)"

lemma hex_run_length: "hex_run acc off s = Some (a, n, r) \<Longrightarrow> length r + n = length s + off"
  by (induction acc off s rule: hex_run.induct) (auto simp: Let_def split: option.splits if_splits)

text \<open>The loop over the groups: where the ellipsis stands, and the bytes so far.\<close>

function v6_groups :: "nat option \<Rightarrow> u8 list \<Rightarrow> string \<Rightarrow> (nat option \<times> u8 list) option" where
  "v6_groups ell bs s =
     (if 16 \<le> length bs then (if s = [] then Some (ell, bs) else None)
      else case hex_run 0 0 s of
        None \<Rightarrow> None
      | Some (acc, off, rest) \<Rightarrow>
          if off = 0 then None
          else if rest \<noteq> [] \<and> hd rest = CHR ''.''
          then (if ell = None \<and> length bs \<noteq> 12 then None
                else if 16 < length bs + 4 then None
                else case ParseIPv4 s of
                       None \<Rightarrow> None
                     | Some (a, b, c, d) \<Rightarrow> Some (ell, bs @ [a, b, c, d]))
          else let bs = bs @ [of_nat (acc div 256), of_nat (acc mod 256)]
               in if rest = [] then Some (ell, bs)
                  else if hd rest \<noteq> CHR '':'' \<or> length rest = 1 then None
                  else if hd (tl rest) = CHR '':''
                  then (if ell \<noteq> None then None
                        else if tl (tl rest) = [] then Some (Some (length bs), bs)
                        else v6_groups (Some (length bs)) bs (tl (tl rest)))
                  else v6_groups ell bs (tl rest))"
  by pat_completeness auto
termination
  by (relation "measure (\<lambda>(ell, bs, s). length s)") (auto dest!: hex_run_length)

declare v6_groups.simps [simp del]

definition parseIPv6 :: "string \<Rightarrow> u8 list option" where
  "parseIPv6 s =
     (if CHR ''%'' \<in> set s then None
      else let (ell, s) = (if take 2 s = ''::'' then (Some 0, drop 2 s) else (None, s))
           in if ell \<noteq> None \<and> s = [] then Some (replicate 16 0)
              else case v6_groups ell [] s of
                None \<Rightarrow> None
              | Some (e, bs) \<Rightarrow>
                  if length bs < 16
                  then (case e of
                          None \<Rightarrow> None
                        | Some i \<Rightarrow> Some (take i bs @ replicate (16 - length bs) 0 @ drop i bs))
                  else if e \<noteq> None then None else Some bs)"

definition net_ParseIP :: "string \<Rightarrow> u8 list option" where
  "net_ParseIP s =
     (case find (\<lambda>c. c \<in> {CHR ''.'', CHR '':'', CHR ''%''}) s of
        None \<Rightarrow> None
      | Some c \<Rightarrow>
          if c = CHR ''.''
          then (case ParseIPv4 s of None \<Rightarrow> None | Some (a, b, c, d) \<Rightarrow> Some (replicate 10 0 @ [255, 255, a, b, c, d]))
          else if c = CHR '':'' then parseIPv6 s else None)"

definition ip_To4 :: "u8 list option \<Rightarrow> ipv4 option" where
  "ip_To4 ip =
     (case ip of
        None \<Rightarrow> None
      | Some bs \<Rightarrow>
          if length bs = 16 \<and> take 12 bs = replicate 10 0 @ [255, 255]
          then Some (bs ! 12, bs ! 13, bs ! 14, bs ! 15) else None)"

section \<open>Lemmas\<close>

lemma v6_groups_length: "v6_groups ell bs s = Some (e, r) \<Longrightarrow> length bs \<le> 16 \<Longrightarrow> even (length bs) \<Longrightarrow> length r \<le> 16"
proof (induction ell bs s rule: v6_groups.induct)
  case (1 ell bs s)
  show ?case
  proof (cases "16 \<le> length bs")
    case True
    then show ?thesis using "1.prems" by (auto simp: v6_groups.simps [of ell bs s] split: if_splits)
  next
    case False
    then have l: "length bs + 2 \<le> 16" using "1.prems"(3) by presburger
    obtain acc off rest where h: "hex_run 0 0 s = Some (acc, off, rest)"
      using "1.prems"(1) False by (auto simp: v6_groups.simps [of ell bs s] split: option.splits)
    show ?thesis
      using "1.prems" False l "1.IH" [OF False h refl refl]
      by (auto simp: v6_groups.simps [of ell bs s] h Let_def split: if_splits option.splits)
  qed
qed

lemma net_ParseIP_length: "net_ParseIP s = Some bs \<Longrightarrow> length bs = 16"
  by (auto simp: net_ParseIP_def parseIPv6_def Let_def dest!: v6_groups_length [where bs = "[]", simplified]
      split: option.splits if_splits prod.splits)

lemma net_ParseIP_String: "net_ParseIP (IP_String (Some (a, b, c, d))) = Some (replicate 10 0 @ [255, 255, a, b, c, d])"
proof -
  have "find (\<lambda>c. c \<in> {CHR ''.'', CHR '':'', CHR ''%''}) (s @ CHR ''.'' # t) = Some CHR ''.''" if "list_all is_digit s" for s t
    using that by (induction s) (auto simp: is_digit_def)
  moreover have "list_all is_digit (nat_digits n)" for n using nat_digits_digits by (auto simp: list_all_iff)
  ultimately have "find (\<lambda>c. c \<in> {CHR ''.'', CHR '':'', CHR ''%''}) (IP_String (Some (a, b, c, d))) = Some CHR ''.''" by simp
  then show ?thesis using ParseIPv4_String [of "(a, b, c, d)"] by (simp add: net_ParseIP_def)
qed

end
