(* ===== verification/Hosts_Forward.thy ===== *)
theory Hosts_Forward
  imports Dns_Cache Go_IP
begin

text \<open>
  The static records and the forwarding zones as they are compiled when a server is made
  (src/server/hosts_config.go, src/server/forward_config.go and the snapshot of
  src/server/state_shared.go).  \<open>host_answers\<close> says what the records of a name and type are;
  the compiled map is shown to hold exactly these.
\<close>

section \<open>Static records\<close>

record HostEntry =
  hostName :: string
  hostType :: string
  hostValue :: string
  hostTTL :: u32

definition defaultHostsTTL :: u32 where "defaultHostsTTL = 60"

definition buildHostRR :: "dnslib \<Rightarrow> string \<Rightarrow> string \<Rightarrow> string \<Rightarrow> u32 \<Rightarrow> RR option" where
  "buildHostRR L fqdn rrType value ttl =
     (let t = strings_ToUpper rrType
      in if t = ''A'' then
           Some (RR_A \<lparr>Name = fqdn, Rrtype = TypeA, Class = ClassINET, Ttl = ttl\<rparr> (ip_To4 (net_ParseIP value)))
         else if t = ''AAAA'' then
           Some (RR_AAAA \<lparr>Name = fqdn, Rrtype = TypeAAAA, Class = ClassINET, Ttl = ttl\<rparr>
             (case net_ParseIP value of None \<Rightarrow> [] | Some bs \<Rightarrow> bs))
         else if t = ''CNAME'' then
           Some (RR_CNAME \<lparr>Name = fqdn, Rrtype = TypeCNAME, Class = ClassINET, Ttl = ttl\<rparr> (Fqdn L value))
         else None)"

definition host_type :: "dnslib \<Rightarrow> HostEntry \<Rightarrow> u16" where
  "host_type L h = (case StringToType L (strings_ToUpper (hostType h)) of None \<Rightarrow> 0 | Some t \<Rightarrow> t)"

definition host_ttl :: "HostEntry \<Rightarrow> u32" where
  "host_ttl h = (if hostTTL h = 0 then defaultHostsTTL else hostTTL h)"

definition hosts_map_key :: "string \<Rightarrow> u16 \<Rightarrow> string" where
  "hosts_map_key fqdn qtype = fqdn @ '':'' @ nat_digits (unat qtype)"

definition compile_host :: "dnslib \<Rightarrow> HostEntry \<Rightarrow> (string \<times> Msg) list \<times> string list \<Rightarrow> (string \<times> Msg) list \<times> string list" where
  "compile_host L h = (\<lambda>(hostsMap, hostsNames).
     (let fqdn = Fqdn L (hostName h);
          hostsNames = List.insert fqdn hostsNames
      in case buildHostRR L fqdn (hostType h) (hostValue h) (host_ttl h) of
           None \<Rightarrow> (hostsMap, hostsNames)
         | Some rr \<Rightarrow>
             let key = hosts_map_key fqdn (host_type L h)
             in (case map_of hostsMap key of
                   Some existing \<Rightarrow> (AList.update key (existing\<lparr>Answer := Answer existing @ [rr]\<rparr>) hostsMap, hostsNames)
                 | None \<Rightarrow> (AList.update key (newMsg\<lparr>Authoritative := True, Answer := [rr]\<rparr>) hostsMap, hostsNames))))"

definition compileHostsEntries :: "dnslib \<Rightarrow> HostEntry list \<Rightarrow> (string \<times> Msg) list \<times> string list" where
  "compileHostsEntries L hosts = fold (compile_host L) hosts ([], [])"

section \<open>Forwarding zones\<close>

definition zone_longer :: "ForwardZone \<Rightarrow> ForwardZone \<Rightarrow> bool" where
  "zone_longer a b = (length (fzZone b) < length (fzZone a))"

definition sortForwardZones :: "(ForwardZone list \<Rightarrow> ForwardZone list) \<Rightarrow> dnslib \<Rightarrow> ForwardZone list \<Rightarrow> ForwardZone list" where
  "sortForwardZones srt L zones =
     (if length zones = 0 then []
      else srt (map (\<lambda>z. z\<lparr>fzZone := Fqdn L (fzZone z)\<rparr>) zones))"

definition setGlobalHostsAndForward :: "(string \<times> Msg) list \<Rightarrow> string list \<Rightarrow> ForwardZone list \<Rightarrow> hostsForwardSnapshot" where
  "setGlobalHostsAndForward hm hn fz = \<lparr>hostsMap = hm, hostsNames = hn, forwardZones = fz\<rparr>"

section \<open>The compiled map\<close>

text \<open>The records the configuration gives for a name and a type, in the order of the file.\<close>

definition host_record :: "dnslib \<Rightarrow> HostEntry \<Rightarrow> RR option" where
  "host_record L h = buildHostRR L (Fqdn L (hostName h)) (hostType h) (hostValue h) (host_ttl h)"

definition host_answers :: "dnslib \<Rightarrow> HostEntry list \<Rightarrow> string \<Rightarrow> u16 \<Rightarrow> RR list" where
  "host_answers L hosts n t =
     List.map_filter (\<lambda>h. if Fqdn L (hostName h) = n \<and> host_type L h = t then host_record L h else None) hosts"

definition compiled_answer :: "RR list \<Rightarrow> Msg option" where
  "compiled_answer rrs = (if rrs = [] then None else Some (newMsg\<lparr>Authoritative := True, Answer := rrs\<rparr>))"

lemma hosts_map_key_inject: "hosts_map_key n t = hosts_map_key n' t' \<longleftrightarrow> n = n' \<and> t = t'"
proof
  assume "hosts_map_key n t = hosts_map_key n' t'"
  then have "n = n' \<and> nat_digits (unat t) = nat_digits (unat t')"
    using last_sep_unique [OF colon_not_digit colon_not_digit, of n "unat t" n' "unat t'"] by (simp add: hosts_map_key_def)
  then show "n = n' \<and> t = t'" by (metis digits_val_nat_digits word_unat_eq_iff)
qed simp

lemma compile_fold:
  assumes "\<And>n t. map_of hm (hosts_map_key n t) = compiled_answer (acc n t)"
  shows "map_of (fst (fold (compile_host L) hosts (hm, hn))) (hosts_map_key n t) = compiled_answer (acc n t @ host_answers L hosts n t)
    \<and> set (snd (fold (compile_host L) hosts (hm, hn))) = set hn \<union> set (map (\<lambda>h. Fqdn L (hostName h)) hosts)"
  using assms
proof (induction hosts arbitrary: hm hn acc)
  case Nil
  then show ?case by (simp add: host_answers_def List.map_filter_def)
next
  case (Cons h hosts)
  let ?k = "hosts_map_key (Fqdn L (hostName h)) (host_type L h)"
  obtain hm' hn' where c: "compile_host L h (hm, hn) = (hm', hn')" by fastforce
  have names: "set hn' = insert (Fqdn L (hostName h)) (set hn)"
    using c by (auto simp: compile_host_def Let_def split: option.splits)
  define acc' where "acc' = (\<lambda>n t. acc n t @ host_answers L [h] n t)"
  have m: "map_of hm' (hosts_map_key n t) = compiled_answer (acc' n t)" for n t
  proof (cases "host_record L h")
    case None
    then have "hm' = hm" using c by (auto simp: compile_host_def host_record_def Let_def)
    then show ?thesis using None Cons.prems [of n t] by (simp add: acc'_def host_answers_def List.map_filter_def)
  next
    case (Some rr)
    have ans: "acc' n t = acc n t @ (if Fqdn L (hostName h) = n \<and> host_type L h = t then [rr] else [])"
      by (simp add: acc'_def host_answers_def List.map_filter_def Some)
    show ?thesis
      using c Some Cons.prems [of "Fqdn L (hostName h)" "host_type L h"] Cons.prems [of n t]
      by (auto simp: compile_host_def host_record_def ans Let_def update_conv' hosts_map_key_inject compiled_answer_def split: option.splits if_splits)
  qed
  have "acc' n t @ host_answers L hosts n t = acc n t @ host_answers L (h # hosts) n t"
    by (simp add: acc'_def host_answers_def List.map_filter_def)
  with Cons.IH [of hm' acc' hn', OF m] names show ?case by (simp add: c)
qed

lemma compiled_hosts:
  "map_of (fst (compileHostsEntries L hosts)) (hosts_map_key n t) = compiled_answer (host_answers L hosts n t)"
  "set (snd (compileHostsEntries L hosts)) = set (map (\<lambda>h. Fqdn L (hostName h)) hosts)"
  using compile_fold [of "[]" "\<lambda>_ _. []" L hosts "[]" n t] by (simp_all add: compileHostsEntries_def compiled_answer_def)

section \<open>Properties\<close>

text \<open>
  C26. A forwarding zone with the longest suffix wins: among the zones of the configuration whose
  suffix the name has, the one that is used has no shorter suffix than any other, whatever order
  the sort gives to zones of the same length; and if no zone is used, no zone matches.
\<close>

theorem forward_longest_match:
  assumes "sort_slice_ok zone_longer srt"
  shows "case find (\<lambda>z. IsSubDomain L (fzZone z) q) (sortForwardZones srt L zones) of
      Some z \<Rightarrow> IsSubDomain L (fzZone z) q \<and> (\<exists>z0\<in>set zones. z = z0\<lparr>fzZone := Fqdn L (fzZone z0)\<rparr>)
        \<and> (\<forall>z0\<in>set zones. IsSubDomain L (Fqdn L (fzZone z0)) q \<longrightarrow> length (Fqdn L (fzZone z0)) \<le> length (fzZone z))
    | None \<Rightarrow> \<forall>z0\<in>set zones. \<not> IsSubDomain L (Fqdn L (fzZone z0)) q"
proof -
  let ?f = "\<lambda>z. z\<lparr>fzZone := Fqdn L (fzZone z)\<rparr>"
  define s where "s = sortForwardZones srt L zones"
  have set_s: "set s = ?f ` set zones" using assms by (auto simp: s_def sortForwardZones_def)
  have srt_s: "sorted_wrt (\<lambda>a b. length (fzZone b) \<le> length (fzZone a)) s"
    using assms by (auto simp: s_def sortForwardZones_def sort_slice_ok_def zone_longer_def not_less)
  have first: "z' \<in> set xs \<Longrightarrow> P z' \<Longrightarrow> length (fzZone z') \<le> length (fzZone z)"
    if "find P xs = Some z" "sorted_wrt (\<lambda>a b. length (fzZone b) \<le> length (fzZone a)) xs" for P xs z z'
    using that by (induction xs) (auto split: if_splits)
  show ?thesis
  proof (cases "find (\<lambda>z. IsSubDomain L (fzZone z) q) s")
    case None
    then have "\<forall>z\<in>set s. \<not> IsSubDomain L (fzZone z) q" by (simp add: find_None_iff)
    then show ?thesis using None set_s by (auto simp: s_def [symmetric])
  next
    case (Some z)
    then have z: "IsSubDomain L (fzZone z) q" "z \<in> set s" by (auto simp: find_Some_iff)
    then show ?thesis using Some first [OF Some srt_s] set_s by (fastforce simp: s_def [symmetric])
  qed
qed

definition example_zones :: "ForwardZone list" where
  "example_zones = [\<lparr>fzZone = ''b.'', fzUpstreams = []\<rparr>, \<lparr>fzZone = ''a.b.'', fzUpstreams = []\<rparr>]"

theorem forward_longest_match_witness:
  "\<exists>z. find (\<lambda>z. IsSubDomain ref_dnslib (fzZone z) ''a.b.'') (sortForwardZones (go_insertion_sort zone_longer) ref_dnslib example_zones) = Some z
    \<and> 4 \<le> length (fzZone z)"
proof -
  have ok: "sort_slice_ok zone_longer (go_insertion_sort zone_longer)"
    by (rule go_insertion_sort_ok) (auto simp: zone_longer_def)
  have m: "IsSubDomain ref_dnslib (Fqdn ref_dnslib ''a.b.'') ''a.b.''" "length (Fqdn ref_dnslib ''a.b.'') = 4" by code_simp+
  have z: "\<lparr>fzZone = ''a.b.'', fzUpstreams = []\<rparr> \<in> set example_zones" by (simp add: example_zones_def)
  show ?thesis
    using forward_longest_match [OF ok, where L = ref_dnslib and q = "''a.b.''" and zones = example_zones] m z
    by (force split: option.splits)
qed

end
