(* ===== verification/Go_Base64.thy ===== *)
theory Go_Base64
  imports Go_Prelude
begin

text \<open>
  \<open>base64.StdEncoding\<close> of Go's standard library: the standard alphabet with padding.  The
  decoder skips line ends and, as the library's non-strict decoder does, ignores the unused bits
  before the padding.
\<close>

definition b64_char :: "nat \<Rightarrow> char" where
  "b64_char n = ''ABCDEFGHIJKLMNOPQRSTUVWXYZabcdefghijklmnopqrstuvwxyz0123456789+/'' ! n"

definition b64_val :: "char \<Rightarrow> nat option" where
  "b64_val c =
     (let n = (of_char c :: nat)
      in if 65 \<le> n \<and> n \<le> 90 then Some (n - 65)
         else if 97 \<le> n \<and> n \<le> 122 then Some (n - 71)
         else if 48 \<le> n \<and> n \<le> 57 then Some (n + 4)
         else if n = 43 then Some 62 else if n = 47 then Some 63 else None)"

fun b64_encode :: "u8 list \<Rightarrow> string" where
  "b64_encode [] = []"
| "b64_encode [a] = [b64_char (unat a div 4), b64_char (unat a mod 4 * 16), CHR ''='', CHR ''='']"
| "b64_encode [a, b] =
     [b64_char (unat a div 4), b64_char (unat a mod 4 * 16 + unat b div 16), b64_char (unat b mod 16 * 4), CHR ''='']"
| "b64_encode (a # b # c # rest) =
     b64_char (unat a div 4) # b64_char (unat a mod 4 * 16 + unat b div 16)
     # b64_char (unat b mod 16 * 4 + unat c div 64) # b64_char (unat c mod 64) # b64_encode rest"

definition b64_byte1 :: "nat \<Rightarrow> nat \<Rightarrow> u8" where "b64_byte1 x y = of_nat (x * 4 + y div 16)"
definition b64_byte2 :: "nat \<Rightarrow> nat \<Rightarrow> u8" where "b64_byte2 y z = of_nat (y mod 16 * 16 + z div 4)"
definition b64_byte3 :: "nat \<Rightarrow> nat \<Rightarrow> u8" where "b64_byte3 z v = of_nat (z mod 4 * 64 + v)"

fun b64_quads :: "string \<Rightarrow> u8 list option" where
  "b64_quads [] = Some []"
| "b64_quads (p # q # r # s # rest) =
     (case (b64_val p, b64_val q) of
        (Some x, Some y) \<Rightarrow>
          if s = CHR ''='' \<and> rest = []
          then if r = CHR ''='' then Some [b64_byte1 x y]
               else (case b64_val r of None \<Rightarrow> None | Some z \<Rightarrow> Some [b64_byte1 x y, b64_byte2 y z])
          else (case (b64_val r, b64_val s, b64_quads rest) of
                  (Some z, Some v, Some bs) \<Rightarrow> Some (b64_byte1 x y # b64_byte2 y z # b64_byte3 z v # bs)
                | _ \<Rightarrow> None)
      | _ \<Rightarrow> None)"
| "b64_quads _ = None"

definition b64_decode :: "string \<Rightarrow> u8 list option" where
  "b64_decode s = b64_quads (filter (\<lambda>c. of_char c \<noteq> (10 :: nat) \<and> of_char c \<noteq> (13 :: nat)) s)"

section \<open>Round trip\<close>

definition b64_ok :: "nat \<Rightarrow> bool" where
  "b64_ok n = (b64_val (b64_char n) = Some n \<and> b64_char n \<noteq> CHR ''='' \<and> of_char (b64_char n) \<noteq> (10 :: nat)
     \<and> of_char (b64_char n) \<noteq> (13 :: nat))"

lemma b64_all: "list_all b64_ok [0..<64]"
  by code_simp

lemma b64_char_facts [simp]:
  assumes "n < 64"
  shows "b64_val (b64_char n) = Some n" "b64_char n \<noteq> CHR ''=''" "of_char (b64_char n) \<noteq> (10 :: nat)" "of_char (b64_char n) \<noteq> (13 :: nat)"
proof -
  have "b64_ok n" using b64_all assms by (auto simp: list_all_iff)
  then show "b64_val (b64_char n) = Some n" "b64_char n \<noteq> CHR ''=''" "of_char (b64_char n) \<noteq> (10 :: nat)" "of_char (b64_char n) \<noteq> (13 :: nat)"
    by (simp_all add: b64_ok_def)
qed

lemma unat_u8: "unat (a :: u8) < 256"
  using unsigned_less [of a, where ?'a = nat] by simp

lemma b64_ranges [simp]:
  fixes a b :: u8
  shows "unat a div 4 < 64" "unat a mod 4 * 16 < 64" "unat a mod 4 * 16 + unat b div 16 < 64" "unat b mod 16 * 4 < 64"
    "unat a mod 16 * 4 + unat b div 64 < 64" "unat a mod 64 < 64"
proof -
  show "unat a div 4 < 64" using unat_u8 [of a] by simp
  show "unat a mod 4 * 16 < 64" "unat b mod 16 * 4 < 64" "unat a mod 64 < 64" by simp_all
  have "unat b div 16 < 16" "unat b div 64 < 4" using unat_u8 [of b] by simp_all
  moreover have "unat a mod 4 * 16 \<le> 3 * 16" "unat a mod 16 * 4 \<le> 15 * 4" by simp_all
  ultimately show "unat a mod 4 * 16 + unat b div 16 < 64" "unat a mod 16 * 4 + unat b div 64 < 64" by linarith+
qed

lemma b64_bytes [simp]:
  fixes a b c :: u8
  shows "b64_byte1 (unat a div 4) (unat a mod 4 * 16) = a"
    "b64_byte1 (unat a div 4) (unat a mod 4 * 16 + unat b div 16) = a"
    "b64_byte2 (unat a mod 4 * 16 + unat b div 16) (unat b mod 16 * 4) = b"
    "b64_byte2 (unat a mod 4 * 16 + unat b div 16) (unat b mod 16 * 4 + unat c div 64) = b"
    "b64_byte3 (unat b mod 16 * 4 + unat c div 64) (unat c mod 64) = c"
proof -
  have r: "unat b div 16 < 16" "unat c div 64 < 4" using unat_u8 [of b] unat_u8 [of c] by simp_all
  have d: "(unat a mod 4 * 16 + unat b div 16) div 16 = unat a mod 4" "(unat a mod 4 * 16 + unat b div 16) mod 16 = unat b div 16"
    "(unat b mod 16 * 4 + unat c div 64) div 4 = unat b mod 16" "(unat b mod 16 * 4 + unat c div 64) mod 4 = unat c div 64"
    using r by simp_all
  show "b64_byte1 (unat a div 4) (unat a mod 4 * 16) = a" by (simp add: b64_byte1_def flip: of_nat_add of_nat_mult)
  show "b64_byte1 (unat a div 4) (unat a mod 4 * 16 + unat b div 16) = a" by (simp only: b64_byte1_def d) simp
  show "b64_byte2 (unat a mod 4 * 16 + unat b div 16) (unat b mod 16 * 4) = b" by (simp only: b64_byte2_def d) simp
  show "b64_byte2 (unat a mod 4 * 16 + unat b div 16) (unat b mod 16 * 4 + unat c div 64) = b" by (simp only: b64_byte2_def d) simp
  show "b64_byte3 (unat b mod 16 * 4 + unat c div 64) (unat c mod 64) = c" by (simp only: b64_byte3_def d) simp
qed

lemma b64_quads_encode: "b64_quads (b64_encode bs) = Some bs"
  by (induction bs rule: b64_encode.induct) simp_all

lemma b64_encode_lines: "filter (\<lambda>c. of_char c \<noteq> (10 :: nat) \<and> of_char c \<noteq> (13 :: nat)) (b64_encode bs) = b64_encode bs"
  by (induction bs rule: b64_encode.induct) simp_all

lemma b64_roundtrip: "b64_decode (b64_encode bs) = Some bs"
  by (simp add: b64_decode_def b64_encode_lines b64_quads_encode)

end
