(* ===== verification/Snapshot.thy ===== *)
theory Snapshot
  imports Dns_Cache Go_Base64
begin

text \<open>
  Saving the cache on shutdown and restoring it at start (src/server/snapshot.go).  A file is
  modelled by the value its JSON text encodes: a structure of strings and numbers always marshals,
  cache keys are ASCII (the dns package escapes other bytes of a name) and come back unchanged, and
  a text that does not parse is \<open>Corrupt\<close>.  The base64 text of a message is modelled in full.  Whether the
  directory and the file can be written are arguments.
\<close>

record SnapshotConfig =
  snapEnabled :: bool
  snapFile :: string

record snapshotEntry =
  se_Key :: string
  se_MsgB64 :: string
  se_SavedAt :: int

datatype disk_file = Absent | Unreadable | Corrupt | Entries "snapshotEntry list"

type_synonym disk = "string \<Rightarrow> disk_file"

datatype snap_error = ErrMkdir | ErrWrite | ErrRead | ErrJSON

definition unix :: "int \<Rightarrow> int" where "unix ns = ns div 1000000000"

section \<open>Saving\<close>

definition pack_entry :: "dnslib \<Rightarrow> int \<Rightarrow> string \<times> Msg \<times> int \<Rightarrow> snapshotEntry option" where
  "pack_entry L now = (\<lambda>(key, msg, _).
     (case MsgPack L msg of
        None \<Rightarrow> None
      | Some wire \<Rightarrow> Some \<lparr>se_Key = key, se_MsgB64 = b64_encode wire, se_SavedAt = now\<rparr>))"

definition save_events :: "string \<Rightarrow> int \<Rightarrow> int \<Rightarrow> metric_event list" where
  "save_events result saved skipped =
     [SnapshotOperationAdd ''save'' result, SnapshotEntriesAdd ''save'' ''saved'' saved,
      SnapshotEntriesAdd ''save'' ''skipped_non_dns'' 0, SnapshotEntriesAdd ''save'' ''skipped_pack_error'' skipped,
      SnapshotDurationObserve ''save'' result]"

definition SaveSnapshot :: "'c env \<Rightarrow> bool \<Rightarrow> bool \<Rightarrow> SnapshotConfig \<Rightarrow> disk \<Rightarrow> 'c world \<Rightarrow> snap_error option \<times> disk \<times> 'c world" where
  "SaveSnapshot E mkdir_ok write_ok cfg d w =
     (if \<not> snapEnabled cfg \<or> snapFile cfg = [] then (None, d, w)
      else let now = unix (eNow E (wTick w));
               items = gcItems (eGC E) (eNow E (wTick w)) (wCache w);
               entries = List.map_filter (pack_entry (eLib E) now) items;
               skipped = int (length items) - int (length entries);
               w = tick w
           in if \<not> mkdir_ok then (Some ErrMkdir, d, emit_on E (save_events ''failure'' 0 skipped) w)
              else if \<not> write_ok then (Some ErrWrite, d, emit_on E (save_events ''failure'' 0 skipped) w)
              else (None, d(snapFile cfg := Entries entries),
                    emit_on E (save_events ''success'' (int (length entries)) skipped) w))"

section \<open>Loading\<close>

text \<open>The scan over the records: None before the first record that has not expired.\<close>

fun ttl_scan :: "int \<Rightarrow> RR list \<Rightarrow> u32 option \<Rightarrow> u32 option" where
  "ttl_scan elapsed [] acc = acc"
| "ttl_scan elapsed (rr # rrs) acc =
     (if uint (Ttl (Header rr)) \<le> elapsed then ttl_scan elapsed rrs acc
      else let remaining = (word_of_int (uint (Ttl (Header rr)) - elapsed) :: u32)
           in ttl_scan elapsed rrs
                (case acc of None \<Rightarrow> Some remaining | Some m \<Rightarrow> Some (if remaining < m then remaining else m)))"

definition remainingTTL :: "Msg \<Rightarrow> int \<Rightarrow> int \<Rightarrow> u32" where
  "remainingTTL msg savedAt now =
     (let elapsed = int64 (now - savedAt);
          elapsed = (if elapsed < 0 then 0 else elapsed)
      in case ttl_scan elapsed (Answer msg @ Ns msg @ Extra msg) None of None \<Rightarrow> 0 | Some m \<Rightarrow> m)"

datatype loaded = Imported | SkippedExpired | SkippedCorrupt

definition load_entry :: "'c env \<Rightarrow> int \<Rightarrow> snapshotEntry \<Rightarrow> 'c world \<Rightarrow> loaded \<times> 'c world" where
  "load_entry E now entry w =
     (case b64_decode (se_MsgB64 entry) of
        None \<Rightarrow> (SkippedCorrupt, w)
      | Some wire \<Rightarrow>
          (case MsgUnpack (eLib E) wire of
             None \<Rightarrow> (SkippedCorrupt, w)
           | Some msg \<Rightarrow>
               let minTTL = remainingTTL msg (se_SavedAt entry) now
               in if minTTL = 0 then (SkippedExpired, w)
                  else (Imported, setCacheCopy E (se_Key entry) msg minTTL w)))"

fun load_entries :: "'c env \<Rightarrow> int \<Rightarrow> snapshotEntry list \<Rightarrow> 'c world \<Rightarrow> loaded list \<times> 'c world" where
  "load_entries E now [] w = ([], w)"
| "load_entries E now (e # es) w =
     (let (r, w) = load_entry E now e w; (rs, w) = load_entries E now es w in (r # rs, w))"

definition load_events :: "string \<Rightarrow> loaded list \<Rightarrow> metric_event list" where
  "load_events result rs =
     [SnapshotOperationAdd ''load'' result, SnapshotEntriesAdd ''load'' ''imported'' (int (count_list rs Imported)),
      SnapshotEntriesAdd ''load'' ''skipped_expired'' (int (count_list rs SkippedExpired)),
      SnapshotEntriesAdd ''load'' ''skipped_corrupt'' (int (count_list rs SkippedCorrupt)),
      SnapshotDurationObserve ''load'' result]"

definition LoadSnapshot :: "'c env \<Rightarrow> SnapshotConfig \<Rightarrow> disk \<Rightarrow> 'c world \<Rightarrow> int \<times> snap_error option \<times> 'c world" where
  "LoadSnapshot E cfg d w =
     (if \<not> snapEnabled cfg \<or> snapFile cfg = [] then (0, None, w)
      else (case d (snapFile cfg) of
              Absent \<Rightarrow> (0, None, emit_on E (load_events ''not_found'' []) w)
            | Unreadable \<Rightarrow> (0, Some ErrRead, emit_on E (load_events ''failure'' []) w)
            | Corrupt \<Rightarrow> (0, Some ErrJSON, emit_on E (load_events ''failure'' []) w)
            | Entries es \<Rightarrow>
                let (rs, w) = load_entries E (unix (eNow E (wTick w))) es (tick w)
                in (int (count_list rs Imported), None, emit_on E (load_events ''success'' rs) w)))"

section \<open>Lemmas\<close>

text \<open>The remaining lifetimes of the records that have not expired.\<close>

definition alive_ttls :: "int \<Rightarrow> Msg \<Rightarrow> int list" where
  "alive_ttls elapsed m =
     map (\<lambda>r. uint (Ttl (Header r)) - elapsed) (filter (\<lambda>r. elapsed < uint (Ttl (Header r))) (Answer m @ Ns m @ Extra m))"


lemma uint_remaining:
  assumes "0 \<le> e" "e < uint (t :: u32)"
  shows "uint (t - word_of_int e) = uint t - e"
proof -
  have "e < 2 ^ 32" using assms uint_lt2p [of t] by simp
  then have "uint (word_of_int e :: u32) = e" using assms by (simp add: unsigned_of_int take_bit_int_eq_self)
  then show ?thesis using assms by (simp add: uint_minus_simple_alt [THEN iffD1] word_le_def)
qed

lemma Min_insert_smaller:
  fixes x y :: int
  assumes "finite S"
  shows "x < y \<Longrightarrow> min y (Min (insert x S)) = Min (insert x S)" "\<not> x < y \<Longrightarrow> min y (Min (insert x S)) = Min (insert y S)"
  using assms by (cases "S = {}"; auto simp: min_def)+

lemma ttl_scan_min:
  assumes "0 \<le> e"
  shows "map_option uint (ttl_scan e rs acc) =
    (let l = (case acc of None \<Rightarrow> [] | Some a \<Rightarrow> [uint a]) @ map (\<lambda>r. uint (Ttl (Header r)) - e) (filter (\<lambda>r. e < uint (Ttl (Header r))) rs)
     in if l = [] then None else Some (Min (set l)))"
proof (induction rs arbitrary: acc)
  case (Cons r rs)
  let ?rest = "(\<lambda>x. uint (Ttl (Header x)) - e) ` {x \<in> set rs. e < uint (Ttl (Header x))}"
  show ?case
  proof (cases "e < uint (Ttl (Header r))")
    case True
    then show ?thesis
      using uint_remaining [OF assms True] Min_insert_smaller [of ?rest "uint (Ttl (Header r)) - e"]
      by (cases acc) (simp_all add: Cons.IH Let_def word_less_def)
  next
    case False
    then show ?thesis by (simp add: Cons.IH Let_def)
  qed
qed (simp split: option.split)

lemma remainingTTL_min:
  assumes "e = max 0 (int64 (now - savedAt))"
  shows "uint (remainingTTL m savedAt now) = (if alive_ttls e m = [] then 0 else Min (set (alive_ttls e m)))"
proof -
  have e: "(if int64 (now - savedAt) < 0 then 0 else int64 (now - savedAt)) = e" "0 \<le> e" using assms by auto
  have scan: "remainingTTL m savedAt now = (case ttl_scan e (Answer m @ Ns m @ Extra m) None of None \<Rightarrow> 0 | Some x \<Rightarrow> x)"
    by (simp add: remainingTTL_def e(1))
  show ?thesis
    using ttl_scan_min [OF e(2), of "Answer m @ Ns m @ Extra m" None]
    unfolding scan Let_def option.case append_Nil alive_ttls_def [symmetric]
    by (cases "ttl_scan e (Answer m @ Ns m @ Extra m) None") (auto split: if_splits)
qed


text \<open>What \<open>Items\<close> of the cache library promises: the unexpired entries, each key once.\<close>

definition items_laws :: "'c gocache \<Rightarrow> bool" where
  "items_laws C \<longleftrightarrow>
     (\<forall>t c. distinct (map fst (gcItems C t c))
        \<and> (\<forall>k m. gcGet C t k c = Some m \<longleftrightarrow> (\<exists>e. (k, m, e) \<in> set (gcItems C t c))))"

lemma items_laws_get:
  assumes "items_laws C"
  shows "gcGet C t k c = Some m \<longleftrightarrow> (\<exists>e. (k, m, e) \<in> set (gcItems C t c))" "distinct (map fst (gcItems C t c))"
  using assms by (simp_all add: items_laws_def)

lemma ref_items_laws [simp]: "items_laws ref_gocache"
proof -
  have "distinct (map fst (filter P (AList.clearjunk c)))" for P and c :: "(string \<times> Msg \<times> int) list"
    by (rule distinct_map_filter) (rule distinct_clearjunk)
  moreover have "gcGet ref_gocache t k c = Some m \<longleftrightarrow> (\<exists>e. (k, m, e) \<in> set (gcItems ref_gocache t c))"
    for k m t and c :: "(string \<times> Msg \<times> int) list"
    by (auto simp: ref_gocache_def map_of_eq_Some_iff [OF distinct_clearjunk, symmetric] map_of_clearjunk
        split: option.splits if_splits)
  ultimately show ?thesis
    by (simp add: items_laws_def) (simp add: ref_gocache_def)
qed

text \<open>A message that packs unpacks to itself; the compression flag is not part of the wire form.\<close>

definition wire_ok :: "dnslib \<Rightarrow> Msg \<Rightarrow> bool" where
  "wire_ok L m \<longleftrightarrow> (case MsgPack L m of None \<Rightarrow> True | Some b \<Rightarrow> MsgUnpack L b = Some (m\<lparr>Compress := False\<rparr>))"

lemma setCacheCopy_tick: "wTick w < wTick (setCacheCopy E k m x w)"
  by (simp add: setCacheCopy_def setCache_def syncToBPFMap_def Let_def split: list.split option.split)

lemma load_entry_tick: "wTick w \<le> wTick (snd (load_entry E now e w))"
  by (auto simp: load_entry_def Let_def intro: less_imp_le [OF setCacheCopy_tick] split: option.split)

lemma load_entries_tick: "wTick w \<le> wTick (snd (load_entries E now es w))"
proof (induction es arbitrary: w)
  case (Cons e es)
  then show ?case
    using load_entry_tick [of w E now e] order_trans by (fastforce simp: case_prod_beta' Let_def)
qed simp

lemma load_entry_other:
  assumes "gocache_laws (eGC E)" "k \<noteq> se_Key e"
  shows "gcGet (eGC E) t k (wCache (snd (load_entry E now e w))) = gcGet (eGC E) t k (wCache w)"
  using assms by (simp add: load_entry_def Let_def setCacheCopy_cache gocache_laws_def split: option.split)

lemma load_entries_other:
  assumes "gocache_laws (eGC E)" "k \<notin> se_Key ` set es"
  shows "gcGet (eGC E) t k (wCache (snd (load_entries E now es w))) = gcGet (eGC E) t k (wCache w)"
  using assms(2)
proof (induction es arbitrary: w)
  case (Cons e es)
  then show ?case using load_entry_other [OF assms(1), of k e t now w] by (simp add: case_prod_beta' Let_def)
qed simp

text \<open>A message restored under a key: its lifetime starts when the entry is stored, at some tick of the
  load; a lifetime of zero leaves the cache as it was.\<close>

definition restored :: "'c env \<Rightarrow> string \<Rightarrow> Msg \<Rightarrow> u32 \<Rightarrow> 'c world \<Rightarrow> 'c world \<Rightarrow> bool" where
  "restored E k m ttl w w' \<longleftrightarrow>
     (if ttl = 0 then \<forall>t. gcGet (eGC E) t k (wCache w') = gcGet (eGC E) t k (wCache w)
      else \<exists>i. wTick w \<le> i \<and> i < wTick w' \<and>
        (\<forall>t. gcGet (eGC E) t k (wCache w') =
           (if eNow E i + uint ttl * 1000000000 < t then None else Some (stripOPT (MsgCopy (eLib E) m)))))"

lemma restored_before:
  assumes "restored E k m ttl w1 w2" "wTick w \<le> wTick w1" "\<And>t. gcGet (eGC E) t k (wCache w1) = gcGet (eGC E) t k (wCache w)"
  shows "restored E k m ttl w w2"
  using assms order_trans [OF assms(2)] unfolding restored_def by (metis (no_types))

lemma restored_after:
  assumes "restored E k m ttl w w1" "wTick w1 \<le> wTick w2" "\<And>t. gcGet (eGC E) t k (wCache w2) = gcGet (eGC E) t k (wCache w1)"
  shows "restored E k m ttl w w2"
  using assms unfolding restored_def by (metis (no_types) order_less_le_trans)

lemma restored_lookup:
  assumes "restored E k m ttl (tick w) w'" "mono (eNow E)"
  shows "if ttl = 0 then gcGet (eGC E) t k (wCache w') = gcGet (eGC E) t k (wCache w)
    else (t \<le> eNow E (wTick w) + uint ttl * 1000000000 \<longrightarrow> gcGet (eGC E) t k (wCache w') = Some (stripOPT (MsgCopy (eLib E) m)))
       \<and> (eNow E (wTick w') + uint ttl * 1000000000 < t \<longrightarrow> gcGet (eGC E) t k (wCache w') = None)"
proof (cases "ttl = 0")
  case False
  then obtain i where i: "Suc (wTick w) \<le> i" "i < wTick w'"
    and g: "gcGet (eGC E) t k (wCache w') = (if eNow E i + uint ttl * 1000000000 < t then None else Some (stripOPT (MsgCopy (eLib E) m)))"
    using assms(1) unfolding restored_def by auto
  have "eNow E (wTick w) \<le> eNow E i" "eNow E i \<le> eNow E (wTick w')"
    using i by (auto intro: monoD [OF assms(2)])
  with g False show ?thesis by auto
qed (use assms(1) in \<open>simp add: restored_def\<close>)

lemma load_entry_restored:
  assumes "gocache_laws (eGC E)" "b64_decode (se_MsgB64 e) = Some b" "MsgUnpack (eLib E) b = Some m"
  shows "restored E (se_Key e) m (remainingTTL m (se_SavedAt e) now) w (snd (load_entry E now e w))"
proof -
  let ?ttl = "remainingTTL m (se_SavedAt e) now"
  have w': "snd (load_entry E now e w) = (if ?ttl = 0 then w else setCacheCopy E (se_Key e) m ?ttl w)"
    using assms(2,3) by (simp add: load_entry_def Let_def)
  have "0 \<le> uint ?ttl * 1000000000" by simp
  then have "?ttl \<noteq> 0 \<Longrightarrow> gcGet (eGC E) t (se_Key e) (wCache (setCacheCopy E (se_Key e) m ?ttl w)) =
      (if eNow E (wTick w) + uint ?ttl * 1000000000 < t then None else Some (stripOPT (MsgCopy (eLib E) m)))" for t
    using assms(1) by (simp add: setCacheCopy_cache gocache_laws_def expiry_def uint_0_iff)
  then show ?thesis
    unfolding w' restored_def using setCacheCopy_tick [of w E "se_Key e" m ?ttl] by auto
qed

lemma load_entries_member:
  assumes law: "gocache_laws (eGC E)" and e: "e \<in> set es" "distinct (map se_Key es)"
    and dec: "b64_decode (se_MsgB64 e) = Some b" "MsgUnpack (eLib E) b = Some m"
  shows "restored E (se_Key e) m (remainingTTL m (se_SavedAt e) now) w (snd (load_entries E now es w))"
  using e
proof (induction es arbitrary: w)
  case (Cons x es)
  let ?w = "snd (load_entry E now x w)"
  have step: "snd (load_entries E now (x # es) w) = snd (load_entries E now es ?w)"
    by (simp add: case_prod_beta' Let_def)
  show ?case
  proof (cases "x = e")
    case True
    then have "se_Key e \<notin> se_Key ` set es" using Cons.prems by auto
    from load_entries_other [OF law this] load_entry_restored [OF law dec, of now w] True show ?thesis
      unfolding step by (intro restored_after [OF _ load_entries_tick]) simp_all
  next
    case False
    then have "e \<in> set es" "distinct (map se_Key es)" "se_Key e \<noteq> se_Key x"
      using Cons.prems by (auto simp: image_iff)
    then show ?thesis
      unfolding step by (intro restored_before [OF Cons.IH load_entry_tick] load_entry_other [OF law])
  qed
qed simp

text \<open>The entries written for the items of the cache.\<close>

lemma saved_entry:
  assumes "(k, m, x) \<in> set items" "MsgPack L m = Some b"
  shows "\<lparr>se_Key = k, se_MsgB64 = b64_encode b, se_SavedAt = now\<rparr> \<in> set (List.map_filter (pack_entry L now) items)"
  using assms by (force simp: map_filter_def pack_entry_def image_iff)

lemma saved_keys:
  "se_Key ` set (List.map_filter (pack_entry L now) items) = fst ` set (filter (\<lambda>(k, m, _). MsgPack L m \<noteq> None) items)"
  by (induction items) (auto simp: List.map_filter_simps pack_entry_def split: option.splits)

lemma saved_distinct:
  "distinct (map fst items) \<Longrightarrow> distinct (map se_Key (List.map_filter (pack_entry L now) items))"
proof (induction items)
  case (Cons i items)
  have "se_Key ` set (List.map_filter (pack_entry L now) items) \<subseteq> fst ` set items" unfolding saved_keys by auto
  moreover have "pack_entry L now i = Some y \<Longrightarrow> se_Key y = fst i" for y
    by (auto simp: pack_entry_def split: prod.splits option.splits)
  ultimately show ?case using Cons by (auto simp: List.map_filter_simps split: option.split)
qed (simp add: List.map_filter_simps)

lemma SaveSnapshot_success:
  assumes "snapEnabled cfg" "snapFile cfg \<noteq> []"
  shows "SaveSnapshot E True True cfg d w =
    (None, d(snapFile cfg := Entries (List.map_filter (pack_entry (eLib E) (unix (eNow E (wTick w)))) (gcItems (eGC E) (eNow E (wTick w)) (wCache w)))),
     snd (snd (SaveSnapshot E True True cfg d w)))"
  using assms by (simp add: SaveSnapshot_def Let_def)

lemma LoadSnapshot_entries:
  assumes "snapEnabled cfg" "snapFile cfg \<noteq> []" "d (snapFile cfg) = Entries es"
  shows "wCache (snd (snd (LoadSnapshot E cfg d w))) = wCache (snd (load_entries E (unix (eNow E (wTick w))) es (tick w)))"
    "wTick (snd (snd (LoadSnapshot E cfg d w))) = wTick (snd (load_entries E (unix (eNow E (wTick w))) es (tick w)))"
  using assms by (simp_all add: LoadSnapshot_def Let_def case_prod_beta')

section \<open>Properties\<close>

text \<open>
  The lifetime of a restored entry is the smallest remaining TTL among the records that have not
  expired, and an entry is dropped exactly when every record has expired.  A record that has
  expired does not count, so an entry with one expired and one live record is restored.
\<close>

lemma snapshot_ttl_exact:
  "uint (remainingTTL m savedAt now) =
     (let e = max 0 (int64 (now - savedAt)) in if alive_ttls e m = [] then 0 else Min (set (alive_ttls e m)))
   \<and> (remainingTTL m savedAt now = 0 \<longleftrightarrow>
        list_all (\<lambda>r. uint (Ttl (Header r)) \<le> max 0 (int64 (now - savedAt))) (Answer m @ Ns m @ Extra m))"
proof -
  define e where "e = max 0 (int64 (now - savedAt))"
  have min: "uint (remainingTTL m savedAt now) = (if alive_ttls e m = [] then 0 else Min (set (alive_ttls e m)))"
    by (rule remainingTTL_min) (simp add: e_def)
  have pos: "x \<in> set (alive_ttls e m) \<Longrightarrow> 0 < x" for x by (auto simp: alive_ttls_def)
  have "alive_ttls e m = [] \<longleftrightarrow> list_all (\<lambda>r. uint (Ttl (Header r)) \<le> e) (Answer m @ Ns m @ Extra m)"
    by (auto simp: alive_ttls_def filter_empty_conv list_all_iff not_less)
  moreover have "remainingTTL m savedAt now = 0 \<longleftrightarrow> alive_ttls e m = []"
  proof (cases "alive_ttls e m = []")
    case False
    then have "0 < Min (set (alive_ttls e m))" using pos by simp
    with min have "uint (remainingTTL m savedAt now) \<noteq> 0" using False by (metis less_irrefl)
    with False show ?thesis by (simp add: uint_0_iff)
  qed (use min in \<open>simp add: uint_0_iff\<close>)
  ultimately show ?thesis using min by (simp add: e_def Let_def)
qed

text \<open>
  C14. A cache saved at shutdown and loaded by the next process gives back every message that packs:
  a lookup finds it, without OPT records, for at least the remaining TTL computed from the
  message's original TTLs and the time of the save, counted from the start of the load, and for no
  longer than that counted from its end.  A message whose records have all expired, one that does
  not pack, and a key that was not saved leave what was in the cache.
\<close>

theorem snapshot_roundtrip:
  assumes "gocache_laws (eGC E)" "items_laws (eGC E)" "copy_laws (eLib E)" "eLib E' = eLib E" "eGC E' = eGC E"
    and "snapEnabled cfg" "snapFile cfg \<noteq> []" "mono (eNow E')"
    and wire: "\<And>k m. gcGet (eGC E) (eNow E (wTick w)) k (wCache w) = Some m \<Longrightarrow> wire_ok (eLib E) m"
    and save: "SaveSnapshot E True True cfg d w = (r, d', w')"
    and load: "LoadSnapshot E' cfg d' w0 = (n, r', w1)"
  shows "case gcGet (eGC E) (eNow E (wTick w)) k (wCache w) of
      None \<Rightarrow> gcGet (eGC E) t k (wCache w1) = gcGet (eGC E) t k (wCache w0)
    | Some m \<Rightarrow>
        (let ttl = remainingTTL m (unix (eNow E (wTick w))) (unix (eNow E' (wTick w0)))
         in if MsgPack (eLib E) m = None \<or> ttl = 0 then gcGet (eGC E) t k (wCache w1) = gcGet (eGC E) t k (wCache w0)
            else (t \<le> eNow E' (wTick w0) + uint ttl * 1000000000 \<longrightarrow>
                    gcGet (eGC E) t k (wCache w1) = Some (stripOPT (m\<lparr>Compress := False\<rparr>)))
               \<and> (eNow E' (wTick w1) + uint ttl * 1000000000 < t \<longrightarrow> gcGet (eGC E) t k (wCache w1) = None))"
proof -
  let ?t = "eNow E (wTick w)" and ?now = "unix (eNow E' (wTick w0))"
  let ?items = "gcItems (eGC E) ?t (wCache w)"
  let ?es = "List.map_filter (pack_entry (eLib E) (unix ?t)) ?items"
  let ?w1 = "snd (load_entries E' ?now ?es (tick w0))"
  have d': "d' (snapFile cfg) = Entries ?es" using save SaveSnapshot_success [OF assms(6,7), of E d w] by auto
  have w1: "wCache w1 = wCache ?w1" "wTick w1 = wTick ?w1"
    using LoadSnapshot_entries [of cfg d' ?es E' w0, OF assms(6,7) d'] load by simp_all
  have law: "gocache_laws (eGC E')" using assms by simp
  note items = items_laws_get [OF assms(2), where t = ?t and c = "wCache w"]
  have other: "k \<notin> se_Key ` set ?es \<Longrightarrow> gcGet (eGC E) t k (wCache w1) = gcGet (eGC E) t k (wCache w0)"
    unfolding w1 using load_entries_other [OF law, of k ?es t ?now "tick w0"] assms(5) by simp
  have keys: "k \<in> se_Key ` set ?es \<longleftrightarrow> (\<exists>m. gcGet (eGC E) ?t k (wCache w) = Some m \<and> MsgPack (eLib E) m \<noteq> None)"
    unfolding saved_keys items by force
  show ?thesis
  proof (cases "gcGet (eGC E) ?t k (wCache w)")
    case None
    then show ?thesis using other keys by simp
  next
    case (Some m)
    show ?thesis
    proof (cases "MsgPack (eLib E) m")
      case None
      then show ?thesis using other keys Some by simp
    next
      case b: (Some b)
      let ?m = "m\<lparr>Compress := False\<rparr>" and ?e = "\<lparr>se_Key = k, se_MsgB64 = b64_encode b, se_SavedAt = unix ?t\<rparr>"
      obtain x where "(k, m, x) \<in> set ?items" using items(1) Some by blast
      then have e: "?e \<in> set ?es" by (rule saved_entry) (rule b)
      have dec: "b64_decode (se_MsgB64 ?e) = Some b" "MsgUnpack (eLib E') b = Some ?m"
        using b64_roundtrip wire [OF Some] b assms(4) by (simp_all add: wire_ok_def)
      have ttl: "remainingTTL ?m s u = remainingTTL m s u" for s u by (simp add: remainingTTL_def)
      note member = load_entries_member [OF law e saved_distinct [OF items(2)] dec, of ?now "tick w0"]
      show ?thesis
        using restored_lookup [OF member assms(8), of t] Some b assms(3,4,5)
        by (cases "remainingTTL m (unix ?t) ?now = 0") (simp_all add: ttl Let_def w1)
    qed
  qed
qed

text \<open>A library that packs every message to one byte, the witness's message back.\<close>

definition snap_msg :: Msg where
  "snap_msg = newMsg\<lparr>Answer := [RR_A \<lparr>Name = ''a.'', Rrtype = TypeA, Class = ClassINET, Ttl = 30\<rparr> None]\<rparr>"

definition snap_env :: "(string \<times> Msg \<times> int) list env" where
  "snap_env = ref_env\<lparr>eLib := ref_dnslib\<lparr>MsgPack := (\<lambda>_. Some [7]), MsgUnpack := (\<lambda>_. Some snap_msg)\<rparr>\<rparr>"

definition snap_world :: "(string \<times> Msg \<times> int) list world" where
  "snap_world = ref_world\<lparr>wCache := [(''a.:1'', snap_msg, 1000)]\<rparr>"

definition snap_cfg :: SnapshotConfig where "snap_cfg = \<lparr>snapEnabled = True, snapFile = ''f''\<rparr>"

theorem snapshot_roundtrip_witness:
  "gcGet ref_gocache 30000000000 ''a.:1''
     (wCache (snd (snd (LoadSnapshot snap_env snap_cfg
       (fst (snd (SaveSnapshot snap_env True True snap_cfg (\<lambda>_. Absent) snap_world))) ref_world)))) = Some snap_msg"
proof -
  have E: "gocache_laws (eGC snap_env)" "items_laws (eGC snap_env)" "copy_laws (eLib snap_env)" "mono (eNow snap_env)"
    "eGC snap_env = ref_gocache"
    by (simp_all add: snap_env_def copy_laws_def ref_env_def ref_dnslib_def mono_def)
  have get: "gcGet (eGC snap_env) 0 k (wCache snap_world) =
      (if k = ''a.:1'' then Some snap_msg else None)" for k
    by (simp add: snap_env_def snap_world_def ref_gocache_def ref_env_def)
  have wire: "wire_ok (eLib snap_env) snap_msg" "MsgPack (eLib snap_env) snap_msg \<noteq> None"
    by (simp_all add: wire_ok_def snap_env_def snap_msg_def newMsg_def)
  have ttl: "remainingTTL snap_msg (unix 0) (unix 0) = 30"
    by (simp add: remainingTTL_def snap_msg_def snap_env_def ref_env_def int64_def)
  have cp: "stripOPT (snap_msg\<lparr>Compress := False\<rparr>) = snap_msg" by (simp add: stripOPT_def snap_msg_def newMsg_def)
  have now: "eNow snap_env i = 0" for i by (simp add: snap_env_def ref_env_def)
  obtain r d' w' n r' w1 where p: "SaveSnapshot snap_env True True snap_cfg (\<lambda>_. Absent) snap_world = (r, d', w')"
    "LoadSnapshot snap_env snap_cfg d' ref_world = (n, r', w1)" by (metis prod_cases3)
  have all: "wire_ok (eLib snap_env) m" if "gcGet (eGC snap_env) (eNow snap_env (wTick snap_world)) k (wCache snap_world) = Some m" for k m
    using that wire by (auto simp: now get split: if_splits)
  have "gcGet (eGC snap_env) 30000000000 ''a.:1'' (wCache w1) = Some (stripOPT (snap_msg\<lparr>Compress := False\<rparr>))"
    using snapshot_roundtrip [OF E(1-3) refl refl _ _ E(4) all p, where k = "''a.:1''" and t = 30000000000] wire
    by (auto simp: now get ttl Let_def snap_cfg_def split: if_splits)
  then show ?thesis using cp by (simp add: get p E(5))
qed

end
