(* ===== verification/Xdp_Loader.thy ===== *)
theory Xdp_Loader
  imports Go_Prelude
begin

text \<open>
  Loading and detaching the XDP program (src/server/xdp_loader.go).  The kernel, behind
  github.com/cilium/ebpf, is a record of what the process holds of it: the sets of eBPF objects
  that are loaded and of links that are attached.  Whether each call succeeds is an argument.
\<close>

record kernel =
  k_objs :: "nat set"
  k_links :: "nat set"

record XDPLoader =
  xl_iface :: string
  xl_objs :: "nat option"
  xl_link :: "nat option"

datatype xdp_error =
    ErrLoadObjects string
  | ErrInterface string string
  | ErrAttach string string string
  | ErrClose "string list"

text \<open>The text of an error, \<open>iface\<close> quoted as \<open>%q\<close> prints a name without special characters.\<close>

fun xdp_error_text :: "xdp_error \<Rightarrow> string" where
  "xdp_error_text (ErrLoadObjects e) = ''[XDP] failed to load eBPF objects: '' @ e"
| "xdp_error_text (ErrInterface iface e) = ''[XDP] interface '' @ [CHR 0x22] @ iface @ [CHR 0x22] @ '' not found: '' @ e"
| "xdp_error_text (ErrAttach iface e e') = ''[XDP] failed to attach to '' @ iface @ '' (native: '' @ e @ '', generic: '' @ e' @ '')''"
| "xdp_error_text (ErrClose es) = ''[XDP] close: ['' @ strings_Join es '' '' @ '']''"

text \<open>What the calls of the kernel answer: the handle of the loaded objects, the lookup of the
  interface, the native and the generic attach.  A handle is new: it is not held yet.\<close>

record xdp_calls =
  c_load :: "string + nat"
  c_iface :: "string option"
  c_native :: "string + nat"
  c_generic :: "string + nat"

definition NewXDPLoader :: "string \<Rightarrow> XDPLoader" where
  "NewXDPLoader iface = \<lparr>xl_iface = iface, xl_objs = None, xl_link = None\<rparr>"

definition LoadAndAttach :: "xdp_calls \<Rightarrow> XDPLoader \<Rightarrow> kernel \<Rightarrow> xdp_error option \<times> XDPLoader \<times> kernel" where
  "LoadAndAttach c l k =
     (case c_load c of
        Inl e \<Rightarrow> (Some (ErrLoadObjects e), l, k)
      | Inr objs \<Rightarrow>
          let k = k\<lparr>k_objs := insert objs (k_objs k)\<rparr>;
              cleanup = k\<lparr>k_objs := k_objs k - {objs}\<rparr>
          in case c_iface c of
               Some e \<Rightarrow> (Some (ErrInterface (xl_iface l) e), l, cleanup)
             | None \<Rightarrow>
                 (case c_native c of
                    Inr lk \<Rightarrow> (None, l\<lparr>xl_objs := Some objs, xl_link := Some lk\<rparr>, k\<lparr>k_links := insert lk (k_links k)\<rparr>)
                  | Inl nativeErr \<Rightarrow>
                      (case c_generic c of
                         Inl e \<Rightarrow> (Some (ErrAttach (xl_iface l) nativeErr e), l, cleanup)
                       | Inr lk \<Rightarrow> (None, l\<lparr>xl_objs := Some objs, xl_link := Some lk\<rparr>, k\<lparr>k_links := insert lk (k_links k)\<rparr>))))"

definition CacheMap :: "XDPLoader \<Rightarrow> nat option" where "CacheMap l = xl_objs l"

definition StatsMap :: "XDPLoader \<Rightarrow> nat option" where "StatsMap l = xl_objs l"

text \<open>The errors of the two close calls, if any; the handles are dropped either way.\<close>

definition XDPLoader_Close :: "string option \<Rightarrow> string option \<Rightarrow> XDPLoader \<Rightarrow> kernel \<Rightarrow> xdp_error option \<times> XDPLoader \<times> kernel" where
  "XDPLoader_Close linkErr objsErr l k =
     (let (errs, k) = (case xl_link l of
            None \<Rightarrow> ([], k)
          | Some lk \<Rightarrow> ((case linkErr of None \<Rightarrow> [] | Some e \<Rightarrow> [''detach XDP link: '' @ e]), k\<lparr>k_links := k_links k - {lk}\<rparr>));
          (errs, k) = (case xl_objs l of
            None \<Rightarrow> (errs, k)
          | Some ob \<Rightarrow> (errs @ (case objsErr of None \<Rightarrow> [] | Some e \<Rightarrow> [''close eBPF objects: '' @ e]), k\<lparr>k_objs := k_objs k - {ob}\<rparr>))
      in (if errs = [] then None else Some (ErrClose errs), l\<lparr>xl_link := None, xl_objs := None\<rparr>, k))"

text \<open>\<open>isPerm\<close> says whether the error chain holds EPERM or EACCES.\<close>

definition contains :: "string \<Rightarrow> string \<Rightarrow> bool" where
  "contains s sub = (0 \<le> strings_Index s sub)"

definition classifyXDPError :: "bool \<Rightarrow> xdp_error option \<Rightarrow> string" where
  "classifyXDPError isPerm err =
     (case err of
        None \<Rightarrow> []
      | Some e \<Rightarrow>
          let s = xdp_error_text e
          in if isPerm \<or> contains s ''permission denied'' \<or> contains s ''operation not permitted''
             then ''hint: run as root or grant CAP_BPF+CAP_NET_ADMIN capabilities''
             else if contains s ''interface'' \<and> contains s ''not found''
             then ''hint: verify xdp.interface in config matches an existing network interface (ip link show)''
             else if contains s ''failed to load eBPF objects''
             then ''hint: requires Linux kernel >= 5.15 with CONFIG_BPF=y and CONFIG_XDP_SOCKETS=y''
             else if contains s ''failed to attach''
             then ''hint: the network interface driver may not support XDP; check dmesg for details''
             else ''hint: see error details above; check kernel version, capabilities, and interface name'')"

section \<open>Properties\<close>

text \<open>Handles are fresh.\<close>

definition fresh_calls :: "xdp_calls \<Rightarrow> kernel \<Rightarrow> bool" where
  "fresh_calls c k \<longleftrightarrow> (\<forall>n. c_load c = Inr n \<longrightarrow> n \<notin> k_objs k) \<and> (\<forall>n. c_native c = Inr n \<or> c_generic c = Inr n \<longrightarrow> n \<notin> k_links k)"

text \<open>A loader that holds one set of objects and one link that the kernel did not have before.\<close>

definition attached :: "string \<Rightarrow> kernel \<Rightarrow> XDPLoader \<Rightarrow> kernel \<Rightarrow> bool" where
  "attached iface k l k' \<longleftrightarrow>
     (\<exists>ob lk. ob \<notin> k_objs k \<and> lk \<notin> k_links k \<and> l = \<lparr>xl_iface = iface, xl_objs = Some ob, xl_link = Some lk\<rparr>
        \<and> k' = \<lparr>k_objs = insert ob (k_objs k), k_links = insert lk (k_links k)\<rparr>)"

lemma LoadAndAttach_new:
  assumes "fresh_calls c k" "LoadAndAttach c (NewXDPLoader iface) k = (err, l, k')"
  shows "if err = None then attached iface k l k' else l = NewXDPLoader iface \<and> k' = k"
proof (cases "c_load c")
  case (Inl e)
  then show ?thesis using assms(2) by (auto simp: LoadAndAttach_def)
next
  case (Inr ob)
  then have ob: "ob \<notin> k_objs k" using assms(1) by (simp add: fresh_calls_def)
  have new: "attached iface k \<lparr>xl_iface = iface, xl_objs = Some ob, xl_link = Some lk\<rparr> (k\<lparr>k_objs := insert ob (k_objs k), k_links := insert lk (k_links k)\<rparr>)"
    if "lk \<notin> k_links k" for lk
    unfolding attached_def using ob that by (intro exI [of _ ob] exI [of _ lk]) simp
  show ?thesis
    using assms Inr ob new
    by (cases "c_iface c"; cases "c_native c"; cases "c_generic c") (auto simp: LoadAndAttach_def NewXDPLoader_def fresh_calls_def Let_def)
qed

lemma attached_CacheMap: "attached iface k l k' \<Longrightarrow> CacheMap l \<noteq> None"
  by (auto simp: attached_def CacheMap_def)

lemma Close_attached:
  assumes "attached iface k l k'"
  shows "\<exists>err. XDPLoader_Close e1 e2 l k' = (err, NewXDPLoader iface, k)"
  using assms by (auto simp: attached_def XDPLoader_Close_def NewXDPLoader_def)

lemma Close_fresh [simp]: "XDPLoader_Close e1 e2 (NewXDPLoader iface) k = (None, NewXDPLoader iface, k)"
  by (simp add: XDPLoader_Close_def NewXDPLoader_def)

text \<open>
  The loader leaks nothing: a failed load leaves the kernel and the loader as they were, a
  successful one adds exactly one set of objects and one link, and closing afterwards, whether
  or not the close calls report errors, gives both back; a second close changes nothing.
\<close>

lemma xdp_no_leak:
  assumes "fresh_calls c k" "LoadAndAttach c (NewXDPLoader iface) k = (err, l, k')"
    and "XDPLoader_Close e1 e2 l k' = (err', l', k'')"
  shows "(err \<noteq> None \<longleftrightarrow> CacheMap l = None) \<and> (err \<noteq> None \<longrightarrow> l = NewXDPLoader iface \<and> k' = k)
    \<and> (err = None \<longrightarrow> (\<exists>ob lk. k' = \<lparr>k_objs = insert ob (k_objs k), k_links = insert lk (k_links k)\<rparr> \<and> ob \<notin> k_objs k \<and> lk \<notin> k_links k))
    \<and> k'' = k \<and> l' = NewXDPLoader iface \<and> XDPLoader_Close e1 e2 l' k'' = (None, l', k'')"
proof (cases "err = None")
  case True
  then have a: "attached iface k l k'" using LoadAndAttach_new [OF assms(1,2)] by simp
  then have "l' = NewXDPLoader iface" "k'' = k" using Close_attached [OF a, of e1 e2] assms(3) by auto
  moreover have "\<exists>ob lk. k' = \<lparr>k_objs = insert ob (k_objs k), k_links = insert lk (k_links k)\<rparr> \<and> ob \<notin> k_objs k \<and> lk \<notin> k_links k"
    using a unfolding attached_def by blast
  ultimately show ?thesis using True attached_CacheMap [OF a] by simp
next
  case False
  then have "l = NewXDPLoader iface" "k' = k" using LoadAndAttach_new [OF assms(1,2)] by simp_all
  moreover have "CacheMap (NewXDPLoader iface) = None" by (simp add: CacheMap_def NewXDPLoader_def)
  ultimately show ?thesis using False assms(3) by auto
qed

definition generic_calls :: xdp_calls where
  "generic_calls = \<lparr>c_load = Inr 1, c_iface = None, c_native = Inl ''no driver'', c_generic = Inr 2\<rparr>"

lemma xdp_no_leak_example:
  "LoadAndAttach generic_calls (NewXDPLoader ''eth0'') \<lparr>k_objs = {}, k_links = {}\<rparr> =
     (None, \<lparr>xl_iface = ''eth0'', xl_objs = Some 1, xl_link = Some 2\<rparr>, \<lparr>k_objs = {1}, k_links = {2}\<rparr>)
   \<and> snd (snd (XDPLoader_Close (Some ''e'') None \<lparr>xl_iface = ''eth0'', xl_objs = Some 1, xl_link = Some 2\<rparr> \<lparr>k_objs = {1}, k_links = {2}\<rparr>))
       = \<lparr>k_objs = {}, k_links = {}\<rparr>"
proof -
  have a: "LoadAndAttach generic_calls (NewXDPLoader ''eth0'') \<lparr>k_objs = {}, k_links = {}\<rparr> =
     (None, \<lparr>xl_iface = ''eth0'', xl_objs = Some 1, xl_link = Some 2\<rparr>, \<lparr>k_objs = {1}, k_links = {2}\<rparr>)"
    by (simp add: LoadAndAttach_def generic_calls_def NewXDPLoader_def Let_def)
  have f: "fresh_calls generic_calls \<lparr>k_objs = {}, k_links = {}\<rparr>" by (simp add: fresh_calls_def)
  obtain err' l' k'' where c: "XDPLoader_Close (Some ''e'') None \<lparr>xl_iface = ''eth0'', xl_objs = Some 1, xl_link = Some 2\<rparr> \<lparr>k_objs = {1}, k_links = {2}\<rparr>
      = (err', l', k'')" by (metis prod_cases3)
  show ?thesis using xdp_no_leak [OF f a c] a c by simp
qed

end
