(* ===== verification/Server.thy ===== *)
theory Server
  imports Warmup Hosts_Forward Snapshot Xdp_Loader
begin

text \<open>
  The server (src/server/server.go): how a request is served, how a reply is cut to the size of a
  datagram, how the listeners are started and how the server shuts down.
\<close>

section \<open>Serving a request\<close>

fun isUDP :: "net_addr \<Rightarrow> bool" where
  "isUDP (UDPAddr _) = True"
| "isUDP _ = False"

definition getMaxUDPSize :: "dnslib \<Rightarrow> Msg \<Rightarrow> int" where
  "getMaxUDPSize L r =
     (case IsEdns0 L r of
        Some opt \<Rightarrow> if 0 < uint (UDPSize L opt) then uint (UDPSize L opt) else 512
      | None \<Rightarrow> 512)"

function drop_answers :: "dnslib \<Rightarrow> int \<Rightarrow> Msg \<Rightarrow> Msg" where
  "drop_answers L maxSize reply =
     (if 0 < length (Answer reply) \<and> maxSize < MsgLen L reply
      then drop_answers L maxSize (reply\<lparr>Answer := take (length (Answer reply) - 1) (Answer reply)\<rparr>)
      else reply)"
  by pat_completeness auto
termination by (relation "measure (\<lambda>(L, m, reply). length (Answer reply))") auto

declare drop_answers.simps [simp del]

definition truncateResponse :: "dnslib \<Rightarrow> Msg \<Rightarrow> int \<Rightarrow> Msg" where
  "truncateResponse L reply maxSize =
     (if MsgLen L reply \<le> maxSize then reply
      else let reply = reply\<lparr>Truncated := True\<rparr>;
               reply = drop_answers L maxSize reply;
               reply = (if maxSize < MsgLen L reply then reply\<lparr>Extra := []\<rparr> else reply);
               reply = (if maxSize < MsgLen L reply then reply\<lparr>Answer := []\<rparr> else reply)
           in reply\<lparr>Ns := []\<rparr>)"

definition w_ReleaseIfHeld :: "'c env \<Rightarrow> 'c world \<Rightarrow> 'c world" where
  "w_ReleaseIfHeld E w =
     (case (wHolder w, wLimiter w) of
        (Some h, Some l) \<Rightarrow>
          let (h, l, es) = ReleaseIfHeld (eLib E) (eHz E (wTick w)) h l
          in emit_always es ((tick w)\<lparr>wHolder := Some h, wLimiter := Some l\<rparr>)
      | _ \<Rightarrow> w)"

text \<open>The first question of a reply is replaced by the one the client asked.\<close>

definition restore_question :: "DnsQuestion \<Rightarrow> Msg \<Rightarrow> Msg" where
  "restore_question q reply =
     (if 0 < length (qName q)
      then reply\<lparr>Question := (case Question reply of [] \<Rightarrow> [q] | _ # qs \<Rightarrow> q # qs)\<rparr>
      else reply)"

text \<open>
  \<open>ServeDNS\<close> returns the reply it writes, the counters and the world, None for a panic.  The request
  and the reply are the objects the resolution works on, so after an error they are those of its
  last state.  \<open>request_done\<close> runs once, whichever of its calls comes first.
\<close>

definition ServeDNS :: "'c env \<Rightarrow> net_addr \<Rightarrow> Msg option \<Rightarrow> diag \<Rightarrow> 'c world \<Rightarrow> (Msg \<times> diag \<times> 'c world) option" where
  "ServeDNS E remote req d w = do {
     r \<leftarrow> req;
     let w = w\<lparr>wHolder := Some (newExpensiveRequestHolder (extractClientIP remote)), wTrace := None\<rparr>;
     let started = DNSRequestStarted (eNow E (wTick w)) d;
     let w = tick w;
     (case Question r of
        [] \<Rightarrow>
          let reply = SetRcode (eLib E) newMsg r RcodeFormatError
          in Some (reply, snd (request_done (eNow E (wTick w)) started), w_ReleaseIfHeld E (tick w))
      | q # _ \<Rightarrow> do {
          let w = emit_always [InCounterAdd ''request'' (TypeToString (eLib E) (Qtype q))] w;
          (result, err, s, w) \<leftarrow> Change E \<lparr>request = Some r, response = Some newMsg, nsDepth = 0\<rparr> w;
          let w = w_ReleaseIfHeld E w;
          r \<leftarrow> request s;
          reply \<leftarrow> (case err of
             Some _ \<Rightarrow> map_option (\<lambda>rs. SetRcode (eLib E) rs r RcodeServerFailure) (response s)
           | None \<Rightarrow> result);
          let reply = restore_question q reply;
          let reply = (if isUDP remote then truncateResponse (eLib E) reply (getMaxUDPSize (eLib E) r) else reply);
          (case Question reply of
             [] \<Rightarrow> None
           | q' # _ \<Rightarrow>
               let qt = TypeToString (eLib E) (Qtype q');
                   rc = RcodeToString (eLib E) (Rcode reply);
                   w = emit_always [OutCounterAdd ''response'' qt rc, LatencyHistogramObserve ''latency'' qt rc] w
               in Some (reply, snd (request_done (eNow E (wTick w)) started), w_ReleaseIfHeld E (tick w)))
        })
   }"

section \<open>Lemmas on truncation\<close>

text \<open>What the length of a message promises: a message without an authority section is not longer, and
  the truncation flag does not count.\<close>

definition len_laws :: "dnslib \<Rightarrow> bool" where
  "len_laws L \<longleftrightarrow> (\<forall>m. MsgLen L (m\<lparr>Ns := []\<rparr>) \<le> MsgLen L m) \<and> (\<forall>m b. MsgLen L (m\<lparr>Truncated := b\<rparr>) = MsgLen L m)"

lemma drop_answers_spec:
  "\<exists>n \<le> length (Answer m). drop_answers L k m = m\<lparr>Answer := take n (Answer m)\<rparr>
     \<and> (n = 0 \<or> MsgLen L (m\<lparr>Answer := take n (Answer m)\<rparr>) \<le> k)
     \<and> (\<forall>i. n < i \<and> i \<le> length (Answer m) \<longrightarrow> k < MsgLen L (m\<lparr>Answer := take i (Answer m)\<rparr>))"
proof (induction L k m rule: drop_answers.induct)
  case (1 L k m)
  show ?case
  proof (cases "0 < length (Answer m) \<and> k < MsgLen L m")
    case True
    let ?m = "m\<lparr>Answer := take (length (Answer m) - 1) (Answer m)\<rparr>"
    from 1 [OF True] obtain n where n: "n \<le> length (Answer ?m)" "drop_answers L k ?m = ?m\<lparr>Answer := take n (Answer ?m)\<rparr>"
      "n = 0 \<or> MsgLen L (?m\<lparr>Answer := take n (Answer ?m)\<rparr>) \<le> k"
      "\<And>i. n < i \<Longrightarrow> i \<le> length (Answer ?m) \<Longrightarrow> k < MsgLen L (?m\<lparr>Answer := take i (Answer ?m)\<rparr>)" by blast
    have m: "m\<lparr>Answer := Answer m\<rparr> = m" by simp
    have "k < MsgLen L (m\<lparr>Answer := take i (Answer m)\<rparr>)" if "n < i" "i \<le> length (Answer m)" for i
    proof (cases "i = length (Answer m)")
      case False
      with that have "i \<le> length (Answer m) - Suc 0" by simp
      then show ?thesis using that n(4) [of i] by (simp add: min_absorb1 min_absorb2)
    qed (use True m in simp)
    moreover have "n \<le> length (Answer m) - Suc 0" using n(1) by simp
    ultimately show ?thesis
      using n(2,3) True by (intro exI [of _ n]) (auto simp: drop_answers.simps [of L k m] min_absorb1)
  next
    case False
    then show ?thesis
      by (intro exI [of _ "length (Answer m)"]) (auto simp: drop_answers.simps [of L k m])
  qed
qed

lemma truncateResponse_keeps [simp]:
  "MsgId (truncateResponse L m k) = MsgId m" "Response (truncateResponse L m k) = Response m"
  "Question (truncateResponse L m k) = Question m" "Rcode (truncateResponse L m k) = Rcode m"
  using drop_answers_spec [of "m\<lparr>Truncated := True\<rparr>" L k] by (auto simp: truncateResponse_def Let_def)

section \<open>Lemmas on serving\<close>

lemma w_ReleaseIfHeld_frame [simp]:
  "wCache (w_ReleaseIfHeld E w) = wCache w" "wGate (w_ReleaseIfHeld E w) = wGate w" "wPending (w_ReleaseIfHeld E w) = wPending w"
  "wPool (w_ReleaseIfHeld E w) = wPool w" "wBpfCalls (w_ReleaseIfHeld E w) = wBpfCalls w"
  by (simp_all add: w_ReleaseIfHeld_def Let_def split: option.split prod.split)

text \<open>A request whose resolution has ended: what its client gets.\<close>

definition raw_reply :: "'c env \<Rightarrow> Msg option \<Rightarrow> go_error option \<Rightarrow> baseState \<Rightarrow> Msg option" where
  "raw_reply E result err s =
     (case err of
        Some _ \<Rightarrow> map_option (\<lambda>rs. SetRcode (eLib E) rs (the (request s)) RcodeServerFailure) (response s)
      | None \<Rightarrow> result)"

definition sent_reply :: "'c env \<Rightarrow> net_addr \<Rightarrow> DnsQuestion \<Rightarrow> Msg \<Rightarrow> Msg \<Rightarrow> Msg" where
  "sent_reply E remote q r m =
     (if isUDP remote then truncateResponse (eLib E) (restore_question q m) (getMaxUDPSize (eLib E) r) else restore_question q m)"

lemma sent_reply_keeps:
  assumes "qName q \<noteq> []" "length (Question m) \<le> 1"
  shows "MsgId (sent_reply E remote q r m) = MsgId m" "Response (sent_reply E remote q r m) = Response m"
    "Question (sent_reply E remote q r m) = [q]" "Rcode (sent_reply E remote q r m) = Rcode m"
  using assms by (auto simp: sent_reply_def restore_question_def split: list.split)

text \<open>The world in which the resolution of a request starts.\<close>

definition request_world :: "'c env \<Rightarrow> net_addr \<Rightarrow> DnsQuestion \<Rightarrow> 'c world \<Rightarrow> 'c world" where
  "request_world E remote q w =
     emit_always [InCounterAdd ''request'' (TypeToString (eLib E) (Qtype q))]
       (tick (w\<lparr>wHolder := Some (newExpensiveRequestHolder (extractClientIP remote)), wTrace := None\<rparr>))"

definition request_state :: "Msg \<Rightarrow> baseState" where
  "request_state r = \<lparr>request = Some r, response = Some newMsg, nsDepth = 0\<rparr>"

lemma ServeDNS_resolved:
  assumes "Question r = q # qs" "Change E (request_state r) (request_world E remote q w) = Some (result, err, s, w1)"
    "request s = Some r'" "raw_reply E result err s = Some m" "qName q \<noteq> []" "length (Question m) \<le> 1"
  shows "\<exists>d' w'. ServeDNS E remote (Some r) d w = Some (sent_reply E remote q r' m, d', w')
    \<and> dnsInFlight d' = dnsInFlight d \<and> totalDNSRequests d' = totalDNSRequests d + 1
    \<and> wCache w' = wCache w1 \<and> wGate w' = wGate w1 \<and> wPending w' = wPending w1"
proof -
  have "restore_question q m = m\<lparr>Question := [q]\<rparr>"
    using assms(5,6) by (auto simp: restore_question_def split: list.split)
  then show ?thesis
    using assms by (auto simp: ServeDNS_def request_state_def request_world_def raw_reply_def sent_reply_def Let_def
        request_done_def DNSRequestStarted_def split: option.splits)
qed

section \<open>Properties\<close>

lemma request_world_ok [simp]:
  "world_ok E (request_world E remote q w) = world_ok E w" "gate_balance (request_world E remote q w) = gate_balance w"
  by (simp_all add: request_world_def world_ok_def gate_balance_def)

lemma Change_reply:
  assumes e: "env_ok E" and w: "world_ok E w" and r: "Question r \<noteq> []"
  shows "\<exists>result err s w' r' m. Change E (request_state r) w = Some (result, err, s, w') \<and> request s = Some r'
    \<and> raw_reply E result err s = Some m \<and> MsgId m = MsgId r \<and> Response m \<and> length (Question m) \<le> 1
    \<and> cache_clean (eGC E) (wCache w') \<and> gate_balance w' = gate_balance w"
proof -
  have laws: "reply_laws (eLib E)" using e by (simp add: env_ok_def)
  show ?thesis
  proof (cases "length (Question r) = 1")
    case True
    then have "state_ok (request_state r)" by (simp add: state_ok_def request_state_def)
    from Change_ok [OF e this w] obtain result err s w' where c: "Change E (request_state r) w = Some (result, err, s, w')"
      and ok: "result_ok E (newMachine (request_state r)) w (Return result err s w')" by (auto simp: wp_result)
    from ok have "state_ok s" by (simp add: result_ok_def)
    then obtain r' rs q where s: "request s = Some r'" "response s = Some rs" "Question r' = [q]" by (elim state_okE)
    have id: "MsgId r' = MsgId r" using ok s by (simp add: result_ok_def same_client_def newMachine_def request_state_def)
    show ?thesis
    proof (cases err)
      case None
      then show ?thesis
        using c ok s by (auto simp: raw_reply_def result_ok_def reply_to_def answers_def newMachine_def request_state_def advances_def world_ok_def)
    next
      case (Some x)
      then show ?thesis
        using c ok s id laws by (simp add: raw_reply_def result_ok_def advances_def world_ok_def)
    qed
  next
    case False
    define m where "m = SetRcode (eLib E) newMsg r RcodeFormatError"
    obtain w' where c: "Change E (request_state r) w = Some (Some m, None, (request_state r)\<lparr>response := Some m\<rparr>, w')" "untouched w w'"
      using Change_formerr [OF _ _ _ m_def, of "request_state r" w] False by (auto simp: request_state_def)
    then show ?thesis
      using laws w r by (simp add: raw_reply_def m_def request_state_def untouched_def gate_balance_def world_ok_def)
  qed
qed


definition example_diag :: diag where
  "example_diag = \<lparr>dnsInFlight = 0, totalDNSRequests = 0, lastDNSStartUnix = 0, lastDNSDoneUnix = 0\<rparr>"

definition example_query :: Msg where
  "example_query = newMsg\<lparr>MsgId := 9, Question := [\<lparr>qName = ''a.'', Qtype = 1, Qclass = 1\<rparr>]\<rparr>"



text \<open>The root as the only name server, without an address, and a network that never answers.\<close>

definition servfail_env :: "(string \<times> Msg \<times> int) list env" where
  "servfail_env = ref_env\<lparr>eRootOverride := Some (newMsg\<lparr>
     Ns := [RR_NS \<lparr>Name = ''.'', Rrtype = 2, Class = 1, Ttl = 9\<rparr> ''r.''],
     Extra := [RR_A \<lparr>Name = ''r.'', Rrtype = 1, Class = 1, Ttl = 9\<rparr> (Some (10, 0, 0, 1))]\<rparr>)\<rparr>"

lemma servfail_run:
  "map_option (\<lambda>(res, err, s, w). (err \<noteq> None, map_option (\<lambda>m. (length (Ns m), length (Extra m))) (response s), map_option (\<lambda>m. length (Question m)) (request s)))
     (Change servfail_env (request_state example_query) (request_world servfail_env (TCPAddr [10, 0, 0, 9]) \<lparr>qName = ''a.'', Qtype = 1, Qclass = 1\<rparr> ref_world))
   = Some (True, Some (1, 1), Some 1)"
  by code_simp



lemma ref_len_laws: "len_laws ref_dnslib"
  by (simp add: len_laws_def ref_dnslib_def)


section \<open>The server\<close>

record listener =
  lis_Addr :: string
  lis_Net :: string
  lis_ReusePort :: bool

record server =
  s_listen :: string
  s_listeners :: int
  s_warmupCfg :: WarmupConfig
  s_snapshotCfg :: SnapshotConfig
  s_hostsMap :: "(string \<times> Msg) list"
  s_hostsNames :: "string list"
  s_forwardZones :: "ForwardZone list"
  s_xdpLoader :: "XDPLoader option"
  s_expLimiter :: "expensiveRequestLimiter option"
  s_udpSrvs :: "listener list"
  s_tcpSrvs :: "listener list"
  s_udpAddr :: string
  s_tcpAddr :: string

definition zero_server :: "string \<Rightarrow> WarmupConfig \<Rightarrow> server" where
  "zero_server listen warmupCfg =
     \<lparr>s_listen = listen, s_listeners = 1, s_warmupCfg = warmupCfg, s_snapshotCfg = \<lparr>snapEnabled = False, snapFile = []\<rparr>,
      s_hostsMap = [], s_hostsNames = [], s_forwardZones = [], s_xdpLoader = None, s_expLimiter = None,
      s_udpSrvs = [], s_tcpSrvs = [], s_udpAddr = [], s_tcpAddr = []\<rparr>"

definition NewServer :: "int \<Rightarrow> string \<Rightarrow> server" where
  "NewServer numCPU listen = zero_server listen ((DefaultWarmupConfig numCPU)\<lparr>wcEnabled := False\<rparr>)"

definition NewServerWithConfig :: "string \<Rightarrow> WarmupConfig \<Rightarrow> server" where
  "NewServerWithConfig listen warmupCfg = zero_server listen warmupCfg"

text \<open>The two sorts are those of the zones and of the suffixes; the second result is the snapshot the
  requests see.\<close>

definition NewServerWithFullConfig ::
  "dnslib \<Rightarrow> (ForwardZone list \<Rightarrow> ForwardZone list) \<Rightarrow> (string list \<Rightarrow> string list) \<Rightarrow> int \<Rightarrow> string \<Rightarrow> int \<Rightarrow> WarmupConfig \<Rightarrow> SnapshotConfig
     \<Rightarrow> HostEntry list \<Rightarrow> ForwardZone list \<Rightarrow> string \<Rightarrow> ExpensiveRequestLimitConfig \<Rightarrow> server \<times> hostsForwardSnapshot"
where
  "NewServerWithFullConfig L srtZones srtSuffixes numCPU listen listeners warmupCfg snapshotCfg hosts forwarding xdpInterface limitCfg =
     (let (hm, hn) = compileHostsEntries L hosts;
          fz = sortForwardZones srtZones L forwarding;
          listeners = (if listeners < 1 then 1 else listeners);
          s = (zero_server listen warmupCfg)\<lparr>s_listeners := listeners, s_snapshotCfg := snapshotCfg, s_hostsMap := hm, s_hostsNames := hn,
                s_forwardZones := fz, s_expLimiter := newExpensiveRequestLimiter L srtSuffixes numCPU limitCfg\<rparr>;
          s = (if xdpInterface \<noteq> [] then s\<lparr>s_xdpLoader := Some (NewXDPLoader xdpInterface)\<rparr> else s)
      in (s, setGlobalHostsAndForward hm hn fz))"

section \<open>Starting\<close>

text \<open>What the goroutines of the listeners report, in the order in which \<open>Run\<close> sees it.\<close>

datatype start_event = UdpUp string | TcpUp string | StartFailed string

text \<open>The loop that waits: None while it waits, Some True when both are ready, Some False on an error.\<close>

fun wait_ready :: "bool \<Rightarrow> bool \<Rightarrow> start_event list \<Rightarrow> bool option" where
  "wait_ready udpWait tcpWait evs =
     (if \<not> udpWait \<and> \<not> tcpWait then Some True
      else case evs of
        [] \<Rightarrow> None
      | UdpUp a # evs \<Rightarrow> wait_ready False tcpWait evs
      | TcpUp a # evs \<Rightarrow> wait_ready udpWait False evs
      | StartFailed e # evs \<Rightarrow> Some False)"

declare wait_ready.simps [simp del]

text \<open>\<open>sync.Once\<close>: the first listener of a kind sets the address.\<close>

fun first_udp :: "start_event list \<Rightarrow> string option" where
  "first_udp [] = None"
| "first_udp (UdpUp a # evs) = Some a"
| "first_udp (e # evs) = first_udp evs"

fun first_tcp :: "start_event list \<Rightarrow> string option" where
  "first_tcp [] = None"
| "first_tcp (TcpUp a # evs) = Some a"
| "first_tcp (e # evs) = first_tcp evs"

definition notify_started :: "start_event list \<Rightarrow> server \<Rightarrow> server" where
  "notify_started evs s =
     s\<lparr>s_udpAddr := (case first_udp evs of None \<Rightarrow> s_udpAddr s | Some a \<Rightarrow> a),
       s_tcpAddr := (case first_tcp evs of None \<Rightarrow> s_tcpAddr s | Some a \<Rightarrow> a)\<rparr>"

definition run_listeners :: "server \<Rightarrow> server" where
  "run_listeners s =
     (let n = (if s_listeners s < 1 then 1 else s_listeners s);
          reusePort = (1 < n)
      in s\<lparr>s_udpSrvs := replicate (nat n) \<lparr>lis_Addr = s_listen s, lis_Net = ''udp'', lis_ReusePort = reusePort\<rparr>,
           s_tcpSrvs := replicate (nat n) \<lparr>lis_Addr = s_listen s, lis_Net = ''tcp'', lis_ReusePort = reusePort\<rparr>\<rparr>)"

text \<open>The XDP part: a failure to attach is not fatal.  The gauge of the status is returned.\<close>

definition run_xdp :: "xdp_calls \<Rightarrow> server \<Rightarrow> kernel \<Rightarrow> 'c world \<Rightarrow> int \<times> server \<times> kernel \<times> 'c world" where
  "run_xdp c s k w =
     (case s_xdpLoader s of
        None \<Rightarrow> (0, s, k, w)
      | Some l \<Rightarrow>
          (case LoadAndAttach c l k of
             (Some err, l, k) \<Rightarrow> (0, s\<lparr>s_xdpLoader := None\<rparr>, k, w)
           | (None, l, k) \<Rightarrow> (1, s\<lparr>s_xdpLoader := Some l\<rparr>, k, w\<lparr>wBpfOn := (CacheMap l \<noteq> None)\<rparr>)))"

definition Run :: "'c env \<Rightarrow> xdp_calls \<Rightarrow> start_event list \<Rightarrow> server \<Rightarrow> kernel \<Rightarrow> runtimeState \<Rightarrow> 'c world
    \<Rightarrow> (bool \<times> server \<times> kernel \<times> runtimeState \<times> 'c world) option" where
  "Run E c evs s k st w =
     (let s = run_listeners s;
          w = (tick w)\<lparr>wPool := StartProbeLoop (eNow E (wTick w)) (ExtractRootIPs (eLib E) (eRootOverride E)) (wPool w)\<rparr>;
          (status, s, k, w) = run_xdp c s k w;
          s = notify_started evs s
      in map_option (\<lambda>ok. (ok, s, k, if ok then snd (SetRuntimeServingPhase (wcEnabled (s_warmupCfg s)) st) else st, w))
           (wait_ready True True evs))"

definition server_UDPAddr :: "server \<Rightarrow> string" where
  "server_UDPAddr s = s_udpAddr s"

definition server_TCPAddr :: "server \<Rightarrow> string" where
  "server_TCPAddr s = s_tcpAddr s"

section \<open>Shutting down\<close>

datatype shutdown_error = ErrListener string | ErrPool go_error | ErrXDP xdp_error

text \<open>What the calls of \<open>Shutdown\<close> answer.\<close>

record shutdown_calls =
  sd_udp :: "nat \<Rightarrow> string option"
  sd_tcp :: "nat \<Rightarrow> string option"
  sd_probeExits :: bool
  sd_linkErr :: "string option"
  sd_objsErr :: "string option"
  sd_mkdirOk :: bool
  sd_writeOk :: bool

definition listener_errors :: "(nat \<Rightarrow> string option) \<Rightarrow> listener list \<Rightarrow> shutdown_error list" where
  "listener_errors answer srvs = List.map_filter (\<lambda>i. map_option ErrListener (answer i)) [0..<length srvs]"

definition server_Shutdown ::
  "'c env \<Rightarrow> shutdown_calls \<Rightarrow> server \<Rightarrow> kernel \<Rightarrow> runtimeState \<Rightarrow> disk \<Rightarrow> 'c world
     \<Rightarrow> shutdown_error option \<times> server \<times> kernel \<times> runtimeState \<times> disk \<times> 'c world"
where
  "server_Shutdown E c s k st d w =
     (let st = snd (MarkRuntimeShuttingDown st);
          errs = listener_errors (sd_udp c) (s_udpSrvs s) @ listener_errors (sd_tcp c) (s_tcpSrvs s);
          (perr, ipp) = IPPool_Shutdown (sd_probeExits c) (ErrCtx XDeadlineExceeded) (wPool w);
          w = w\<lparr>wPool := ipp\<rparr>;
          errs = errs @ (case perr of None \<Rightarrow> [] | Some e \<Rightarrow> [ErrPool e]);
          (errs, s, k, w) = (case s_xdpLoader s of
             None \<Rightarrow> (errs, s, k, w)
           | Some l \<Rightarrow>
               let (xerr, l, k) = XDPLoader_Close (sd_linkErr c) (sd_objsErr c) l k
               in (errs @ (case xerr of None \<Rightarrow> [] | Some e \<Rightarrow> [ErrXDP e]), s\<lparr>s_xdpLoader := None\<rparr>, k, w\<lparr>wBpfOn := False\<rparr>));
          (d, w) = (if snapEnabled (s_snapshotCfg s)
                    then snd (SaveSnapshot E (sd_mkdirOk c) (sd_writeOk c) (s_snapshotCfg s) d w)
                    else (d, w))
      in ((case errs of [] \<Rightarrow> None | e # _ \<Rightarrow> Some e), s, k, st, d, w))"

section \<open>Properties of the life cycle\<close>

fun is_failure :: "start_event \<Rightarrow> bool" where
  "is_failure (StartFailed _) = True"
| "is_failure _ = False"

text \<open>What comes before the first failure.\<close>

definition came_up :: "start_event list \<Rightarrow> start_event list" where
  "came_up evs = takeWhile (\<lambda>e. \<not> is_failure e) evs"

lemma wait_ready_exact:
  "wait_ready u t evs =
     (if (u \<longrightarrow> first_udp (came_up evs) \<noteq> None) \<and> (t \<longrightarrow> first_tcp (came_up evs) \<noteq> None) then Some True
      else if list_ex is_failure evs then Some False else None)"
proof (induction u t evs rule: wait_ready.induct)
  case (1 u t evs)
  show ?case
  proof (cases evs)
    case Nil
    then show ?thesis by (simp add: wait_ready.simps [of u t "[]"] came_up_def)
  next
    case (Cons e es)
    then show ?thesis
      using 1 by (cases e; cases "u \<or> t") (auto simp: wait_ready.simps [of _ _ "_ # _"] came_up_def)
  qed
qed

lemma run_xdp_kernel:
  assumes "fresh_calls c k" "s_xdpLoader s = None \<or> s_xdpLoader s = Some (NewXDPLoader iface)" "run_xdp c s k w = (status, s', k', w')"
  shows "case s_xdpLoader s' of None \<Rightarrow> k' = k \<and> wBpfOn w' = wBpfOn w | Some l \<Rightarrow> attached iface k l k'"
proof -
  obtain err l kk where a: "LoadAndAttach c (NewXDPLoader iface) k = (err, l, kk)" by (metis prod_cases3)
  from LoadAndAttach_new [OF assms(1) a] assms(2,3) a show ?thesis by (auto simp: run_xdp_def split: option.splits)
qed

lemma run_xdp_frame:
  assumes "run_xdp c s k w = (status, s', k', w')"
  shows "s_listeners s' = s_listeners s" "s_udpSrvs s' = s_udpSrvs s" "s_tcpSrvs s' = s_tcpSrvs s" "s_warmupCfg s' = s_warmupCfg s"
    "s_snapshotCfg s' = s_snapshotCfg s"
  using assms by (auto simp: run_xdp_def split: option.splits prod.splits)

lemma notify_started_frame [simp]:
  "s_xdpLoader (notify_started evs s) = s_xdpLoader s" "s_snapshotCfg (notify_started evs s) = s_snapshotCfg s"
  "s_udpSrvs (notify_started evs s) = s_udpSrvs s" "s_tcpSrvs (notify_started evs s) = s_tcpSrvs s" "s_warmupCfg (notify_started evs s) = s_warmupCfg s"
  by (simp_all add: notify_started_def)

lemma run_listeners_fields:
  "length (s_udpSrvs (run_listeners s)) = nat (max 1 (s_listeners s))" "length (s_tcpSrvs (run_listeners s)) = nat (max 1 (s_listeners s))"
  "l \<in> set (s_udpSrvs (run_listeners s) @ s_tcpSrvs (run_listeners s)) \<Longrightarrow> lis_Addr l = s_listen s \<and> lis_ReusePort l = (1 < s_listeners s)"
  "s_warmupCfg (run_listeners s) = s_warmupCfg s"
  by (auto simp: run_listeners_def Let_def max_def split: if_splits)

text \<open>
  The server reports that it serves exactly when a UDP and a TCP listener have come up before any
  listener failed: then the phase is set and readiness is on, otherwise it is left alone; a failure
  before that makes \<open>Run\<close> return at once, and with neither it keeps waiting.  There are as many UDP
  as TCP listeners, at least one of each, and the port is shared exactly if there are several.
\<close>

lemma run_serves_exactly:
  "case Run E c evs s k st w of
     None \<Rightarrow> \<not> list_ex is_failure evs \<and> (first_udp evs = None \<or> first_tcp evs = None)
   | Some (ok, s', k', st', w') \<Rightarrow>
       ok = (first_udp (came_up evs) \<noteq> None \<and> first_tcp (came_up evs) \<noteq> None)
       \<and> (ok \<or> list_ex is_failure evs)
       \<and> st' = (if ok then snd (SetRuntimeServingPhase (wcEnabled (s_warmupCfg s)) st) else st) \<and> (ok \<longrightarrow> ready st')
       \<and> length (s_udpSrvs s') = nat (max 1 (s_listeners s)) \<and> length (s_tcpSrvs s') = length (s_udpSrvs s')
       \<and> (\<forall>l\<in>set (s_udpSrvs s' @ s_tcpSrvs s'). lis_Addr l = s_listen s \<and> lis_ReusePort l = (1 < s_listeners s))"
proof -
  let ?w = "(tick w)\<lparr>wPool := StartProbeLoop (eNow E (wTick w)) (ExtractRootIPs (eLib E) (eRootOverride E)) (wPool w)\<rparr>"
  obtain status s1 k1 w1 where x: "run_xdp c (run_listeners s) k ?w = (status, s1, k1, w1)" by (metis prod_cases4)
  have all: "\<not> list_ex is_failure evs \<Longrightarrow> came_up evs = evs"
    by (auto simp: came_up_def list_ex_iff takeWhile_eq_all_conv)
  have r: "ready (snd (SetRuntimeServingPhase e st))" for e
    by (simp add: SetRuntimeServingPhase_def SetRuntimeState_def serving_phase_def Let_def)
  have run: "Run E c evs s k st w = map_option (\<lambda>ok. (ok, notify_started evs s1, k1,
      if ok then snd (SetRuntimeServingPhase (wcEnabled (s_warmupCfg s)) st) else st, w1)) (wait_ready True True evs)"
    using run_xdp_frame(4) [OF x] run_listeners_fields(4) [of s] by (simp add: Run_def x Let_def cong: if_cong)
  show ?thesis
    using run_xdp_frame(2,3) [OF x] run_listeners_fields(1,2) [of s] run_listeners_fields(3) [of _ s] all r
    by (auto simp: run wait_ready_exact)
qed

definition two_up :: "start_event list" where
  "two_up = [UdpUp ''127.0.0.1:53'', TcpUp ''127.0.0.1:53'', StartFailed ''in use'']"

definition xdp_server :: server where
  "xdp_server = (NewServer 4 ''127.0.0.1:53'')\<lparr>s_xdpLoader := Some (NewXDPLoader ''eth0''), s_listeners := 2,
     s_snapshotCfg := \<lparr>snapEnabled = True, snapFile = ''f''\<rparr>\<rparr>"

lemma run_serves_exactly_example:
  "\<exists>s' k' st' w'. Run ref_env generic_calls two_up xdp_server \<lparr>k_objs = {}, k_links = {}\<rparr> initial_state ref_world = Some (True, s', k', st', w')
     \<and> ready st' \<and> length (s_udpSrvs s') = 2"
  using run_serves_exactly [where E = ref_env and c = generic_calls and evs = two_up and s = xdp_server and k = "\<lparr>k_objs = {}, k_links = {}\<rparr>" and st = initial_state and w = ref_world]
  by (cases "Run ref_env generic_calls two_up xdp_server \<lparr>k_objs = {}, k_links = {}\<rparr> initial_state ref_world")
    (auto simp: two_up_def came_up_def xdp_server_def NewServer_def zero_server_def)


definition quiet_shutdown :: shutdown_calls where
  "quiet_shutdown = \<lparr>sd_udp = (\<lambda>_. None), sd_tcp = (\<lambda>_. None), sd_probeExits = True, sd_linkErr = None, sd_objsErr = Some ''busy'',
     sd_mkdirOk = True, sd_writeOk = True\<rparr>"


end
