(* ===== verification/Config.thy ===== *)
theory Config
  imports Server
begin

text \<open>
  The start of the process (src/cmd/rec53.go, src/cmd/loglevel.go): loading and validating the
  configuration, the command-line flags, the trace mode, and the way from the configuration to a
  running server and back.  The YAML parser and the resolution of a TCP address, which may ask the
  system resolver, are arguments; \<open>net.SplitHostPort\<close> and \<open>strconv.Atoi\<close> are modelled.

  \<open>config_laws\<close> is what an accepted configuration promises; \<open>validateConfig\<close> accepts exactly the
  configurations that keep it.
\<close>

section \<open>Library\<close>

fun index_byte :: "char \<Rightarrow> string \<Rightarrow> nat option" where
  "index_byte c [] = None"
| "index_byte c (x # xs) = (if x = c then Some 0 else map_option Suc (index_byte c xs))"

fun last_index_byte :: "char \<Rightarrow> string \<Rightarrow> nat option" where
  "last_index_byte c [] = None"
| "last_index_byte c (x # xs) =
     (case last_index_byte c xs of Some i \<Rightarrow> Some (Suc i) | None \<Rightarrow> if x = c then Some 0 else None)"

definition net_SplitHostPort :: "string \<Rightarrow> (string \<times> string) option" where
  "net_SplitHostPort hostport =
     (case last_index_byte CHR '':'' hostport of
        None \<Rightarrow> None
      | Some i \<Rightarrow>
          let brackets = (hd hostport = CHR ''['')
          in (case (if brackets then index_byte CHR '']'' hostport else Some 0) of
                None \<Rightarrow> None
              | Some e \<Rightarrow>
                  if brackets \<and> e + 1 \<noteq> i then None
                  else let host = (if brackets then take (e - 1) (tl hostport) else take i hostport);
                           j = (if brackets then 1 else 0);
                           k = (if brackets then e + 1 else 0)
                       in if \<not> brackets \<and> CHR '':'' \<in> set host then None
                          else if CHR ''['' \<in> set (drop j hostport) then None
                          else if CHR '']'' \<in> set (drop k hostport) then None
                          else Some (host, drop (i + 1) hostport)))"

definition strconv_Atoi :: "string \<Rightarrow> int option" where
  "strconv_Atoi s =
     (let sgn = (s \<noteq> [] \<and> (hd s = CHR ''-'' \<or> hd s = CHR ''+''));
          neg = (s \<noteq> [] \<and> hd s = CHR ''-'');
          ds = (if sgn then tl s else s);
          v = int (digits_val ds)
      in if ds = [] \<or> \<not> list_all is_digit ds then None
         else if neg then (if v \<le> 2 ^ 63 then Some (- v) else None)
         else (if v < 2 ^ 63 then Some v else None))"

section \<open>Configuration\<close>

record XDPConfig =
  xdpEnabled :: bool
  xdpInterface :: string

record DebugConfig =
  PprofEnabled :: bool
  PprofListen :: string
  ObserveWouldRefuse :: bool

record DNSConfig =
  dcListen :: string
  dcMetric :: string
  dcLogLevel :: string
  dcUpstreamTimeout :: int
  dcUpstreamConcurrencyLimit :: int
  dcExpensiveRequestLimitMode :: string
  dcExpensiveRequestLimit :: int
  dcHotZoneBaseSuffixes :: "string list"
  dcListeners :: int

record Config =
  cDNS :: DNSConfig
  cWarmup :: WarmupConfig
  cSnapshot :: SnapshotConfig
  cHosts :: "HostEntry list"
  cForwarding :: "ForwardZone list"
  cXDP :: XDPConfig
  cDebug :: DebugConfig

text \<open>The errors keep the position of the entry; the texts repeat values of the configuration.\<close>

datatype config_error =
    ErrNilConfig | ErrEmptyListen | ErrEmptyMetric | ErrAddress string string | ErrMetricPort string | ErrMetricRange int
  | ErrLogLevel | ErrWarmupTimeout int | ErrUpstreamTimeout int | ErrUpstreamLimit int | ErrLimitMode | ErrLimit int | ErrListeners int
  | ErrHostName nat | ErrHostValue nat | ErrHostA nat | ErrHostAAAA nat | ErrHostType nat
  | ErrZone nat | ErrNoUpstreams nat | ErrUpstream nat nat
  | ErrXDPInterface | ErrPprofListen

datatype main_error =
    ErrConfigRequired | ErrConfigNotFound | ErrConfigRead | ErrConfigParse | ErrConfig config_error | ErrTraceType string | ErrTrace go_error

datatype config_file = NotExist | ReadError | FileData string

definition loadConfig :: "(string \<Rightarrow> Config option) \<Rightarrow> int \<Rightarrow> (string \<Rightarrow> config_file) \<Rightarrow> string \<Rightarrow> main_error + Config" where
  "loadConfig unmarshal numCPU readFile configPath =
     (if configPath = [] then Inl ErrConfigRequired
      else case readFile configPath of
        ReadError \<Rightarrow> Inl ErrConfigRead
      | NotExist \<Rightarrow> Inl ErrConfigNotFound
      | FileData data \<Rightarrow>
          (case unmarshal data of
             None \<Rightarrow> Inl ErrConfigParse
           | Some cfg \<Rightarrow>
               let cfg = cfg\<lparr>cWarmup := (cWarmup cfg)\<lparr>wcTLDs := LoadTLDList (wcTLDs (cWarmup cfg))\<rparr>\<rparr>;
                   cfg = (if PprofListen (cDebug cfg) = [] then cfg\<lparr>cDebug := (cDebug cfg)\<lparr>PprofListen := ''127.0.0.1:6060''\<rparr>\<rparr> else cfg);
                   cfg = (if wcConcurrency (cWarmup cfg) = 0
                          then cfg\<lparr>cWarmup := (cWarmup cfg)\<lparr>wcConcurrency := wcConcurrency (DefaultWarmupConfig numCPU)\<rparr>\<rparr> else cfg)
               in Inr cfg))"

section \<open>Validation\<close>

text \<open>The checks of a function run in order and the first error is returned; None is no error.\<close>

fun first_error :: "'e option list \<Rightarrow> 'e option" where
  "first_error [] = None"
| "first_error (None # checks) = first_error checks"
| "first_error (Some e # checks) = Some e"

definition fails :: "bool \<Rightarrow> 'e \<Rightarrow> 'e option" where
  "fails bad e = (if bad then Some e else None)"

definition validateTCPAddress :: "(string \<Rightarrow> bool) \<Rightarrow> string \<Rightarrow> string \<Rightarrow> config_error option" where
  "validateTCPAddress resolves fieldName addr = fails (\<not> resolves addr) (ErrAddress fieldName addr)"

definition validateMetricAddress :: "(string \<Rightarrow> bool) \<Rightarrow> string \<Rightarrow> config_error option" where
  "validateMetricAddress resolves addr =
     (let metricStr = strings_TrimSpace addr
      in if metricStr \<noteq> [] \<and> hd metricStr = CHR '':''
         then (case strconv_Atoi (tl metricStr) of
                 None \<Rightarrow> Some (ErrMetricPort addr)
               | Some port \<Rightarrow> fails (port < 1 \<or> 65535 < port) (ErrMetricRange port))
         else validateTCPAddress resolves ''dns.metric'' addr)"

definition isValidLogLevel :: "string \<Rightarrow> bool" where
  "isValidLogLevel level = (strings_ToLower (strings_TrimSpace level) \<in> {''debug'', ''info'', ''warn'', ''error'', []})"

definition validate_host :: "nat \<Rightarrow> HostEntry \<Rightarrow> config_error option" where
  "validate_host i h =
     first_error
       [fails (strings_TrimSpace (hostName h) = []) (ErrHostName i),
        fails (strings_TrimSpace (hostValue h) = []) (ErrHostValue i),
        (let t = strings_ToUpper (hostType h); ip = net_ParseIP (hostValue h)
         in if t = ''A'' then fails (ip = None \<or> ip_To4 ip = None) (ErrHostA i)
            else if t = ''AAAA'' then fails (ip = None \<or> ip_To4 ip \<noteq> None) (ErrHostAAAA i)
            else if t = ''CNAME'' then None
            else Some (ErrHostType i))]"

definition validateHostsConfig :: "HostEntry list \<Rightarrow> config_error option" where
  "validateHostsConfig hosts = first_error (map (\<lambda>(i, h). validate_host i h) (enumerate 0 hosts))"

definition validate_zone :: "nat \<Rightarrow> ForwardZone \<Rightarrow> config_error option" where
  "validate_zone i z =
     first_error
       [fails (strings_TrimSpace (fzZone z) = []) (ErrZone i),
        fails (length (fzUpstreams z) = 0) (ErrNoUpstreams i),
        first_error (map (\<lambda>(j, up). fails (net_SplitHostPort up = None) (ErrUpstream i j)) (enumerate 0 (fzUpstreams z)))]"

definition validateForwardingConfig :: "ForwardZone list \<Rightarrow> config_error option" where
  "validateForwardingConfig zones = first_error (map (\<lambda>(i, z). validate_zone i z) (enumerate 0 zones))"

definition millis :: "int \<Rightarrow> int" where "millis n = n * 1000000"

definition validateConfig :: "(string \<Rightarrow> bool) \<Rightarrow> Config option \<Rightarrow> config_error option" where
  "validateConfig resolves config =
     (case config of
        None \<Rightarrow> Some ErrNilConfig
      | Some cfg \<Rightarrow>
          let dns = cDNS cfg; timeout = wcTimeout (cWarmup cfg); upstream = dcUpstreamTimeout dns; mode = dcExpensiveRequestLimitMode dns
          in first_error
               [fails (strings_TrimSpace (dcListen dns) = []) ErrEmptyListen,
                fails (strings_TrimSpace (dcMetric dns) = []) ErrEmptyMetric,
                validateTCPAddress resolves ''dns.listen'' (dcListen dns),
                validateMetricAddress resolves (dcMetric dns),
                fails (\<not> isValidLogLevel (dcLogLevel dns)) ErrLogLevel,
                fails (0 < timeout \<and> timeout < millis 100) (ErrWarmupTimeout timeout),
                fails (0 < upstream \<and> upstream < millis 100) (ErrUpstreamTimeout upstream),
                fails (dcUpstreamConcurrencyLimit dns < 0) (ErrUpstreamLimit (dcUpstreamConcurrencyLimit dns)),
                fails (mode \<noteq> [] \<and> mode \<noteq> ExpensiveRequestLimitModeDisabled \<and> mode \<noteq> ExpensiveRequestLimitModeEnabled) ErrLimitMode,
                fails (dcExpensiveRequestLimit dns < 0) (ErrLimit (dcExpensiveRequestLimit dns)),
                fails (dcListeners dns < 0) (ErrListeners (dcListeners dns)),
                validateHostsConfig (cHosts cfg),
                validateForwardingConfig (cForwarding cfg),
                fails (xdpEnabled (cXDP cfg) \<and> strings_TrimSpace (xdpInterface (cXDP cfg)) = []) ErrXDPInterface,
                (if PprofEnabled (cDebug cfg)
                 then first_error
                        [fails (strings_TrimSpace (PprofListen (cDebug cfg)) = []) ErrPprofListen,
                         validateTCPAddress resolves ''debug.pprof_listen'' (PprofListen (cDebug cfg))]
                 else None)])"

datatype log_level = DebugLevel | InfoLevel | WarnLevel | ErrorLevel

definition parseLogLevel :: "string \<Rightarrow> log_level" where
  "parseLogLevel level =
     (let l = strings_ToLower level
      in if l = ''debug'' then DebugLevel else if l = ''info'' then InfoLevel
         else if l = ''warn'' then WarnLevel else if l = ''error'' then ErrorLevel else InfoLevel)"

section \<open>The process\<close>

record flags =
  configPath :: string
  noWarmup :: bool
  listenAddr :: string
  metricAddr :: string
  logLevel :: string
  showVersion :: bool
  traceDomain :: string
  traceType :: string

definition default_flags :: flags where
  "default_flags = \<lparr>configPath = [], noWarmup = False, listenAddr = ''127.0.0.1:5533'', metricAddr = '':9999'', logLevel = ''info'', showVersion = False,
     traceDomain = [], traceType = ''A''\<rparr>"

definition override_flags :: "flags \<Rightarrow> Config \<Rightarrow> Config" where
  "override_flags f cfg =
     (let cfg = (if listenAddr f \<noteq> [] \<and> listenAddr f \<noteq> ''127.0.0.1:5533'' then cfg\<lparr>cDNS := (cDNS cfg)\<lparr>dcListen := listenAddr f\<rparr>\<rparr> else cfg);
          cfg = (if metricAddr f \<noteq> [] \<and> metricAddr f \<noteq> '':9999'' then cfg\<lparr>cDNS := (cDNS cfg)\<lparr>dcMetric := metricAddr f\<rparr>\<rparr> else cfg);
          cfg = (if logLevel f \<noteq> [] \<and> logLevel f \<noteq> ''info'' then cfg\<lparr>cDNS := (cDNS cfg)\<lparr>dcLogLevel := logLevel f\<rparr>\<rparr> else cfg)
      in if noWarmup f then cfg\<lparr>cWarmup := (cWarmup cfg)\<lparr>wcEnabled := False\<rparr>\<rparr> else cfg)"

definition main_config ::
  "(string \<Rightarrow> Config option) \<Rightarrow> (string \<Rightarrow> bool) \<Rightarrow> int \<Rightarrow> (string \<Rightarrow> config_file) \<Rightarrow> flags \<Rightarrow> main_error + Config"
where
  "main_config unmarshal resolves numCPU readFile f =
     (case loadConfig unmarshal numCPU readFile (configPath f) of
        Inl e \<Rightarrow> Inl e
      | Inr cfg \<Rightarrow>
          let cfg = override_flags f cfg
          in case validateConfig resolves (Some cfg) of Some e \<Rightarrow> Inl (ErrConfig e) | None \<Rightarrow> Inr cfg)"

definition limitCfg :: "Config \<Rightarrow> ExpensiveRequestLimitConfig" where
  "limitCfg cfg =
     \<lparr>cfgMode = dcExpensiveRequestLimitMode (cDNS cfg), cfgLimit = dcExpensiveRequestLimit (cDNS cfg),
      cfgHotZoneBaseSuffixes = dcHotZoneBaseSuffixes (cDNS cfg), cfgObserveWouldRefuse = ObserveWouldRefuse (cDebug cfg)\<rparr>"

definition main_timeout :: "Config \<Rightarrow> int \<Rightarrow> int" where
  "main_timeout cfg timeout =
     (if 0 < dcUpstreamTimeout (cDNS cfg) then SetUpstreamTimeout (dcUpstreamTimeout (cDNS cfg)) timeout else timeout)"

definition main_gate :: "'c env \<Rightarrow> int \<Rightarrow> Config \<Rightarrow> 'c world \<Rightarrow> 'c world" where
  "main_gate E numCPU cfg w =
     (let (g, es) = gate_setLimit (eOn E) numCPU (dcUpstreamConcurrencyLimit (cDNS cfg)) (wGate w)
      in emit_always es (w\<lparr>wGate := g\<rparr>))"

text \<open>The two sorts a server is made with.\<close>

record sorts =
  srtZones :: "ForwardZone list \<Rightarrow> ForwardZone list"
  srtSuffixes :: "string list \<Rightarrow> string list"

definition main_server :: "dnslib \<Rightarrow> sorts \<Rightarrow> int \<Rightarrow> Config \<Rightarrow> server \<times> hostsForwardSnapshot" where
  "main_server L srt numCPU cfg =
     NewServerWithFullConfig L (srtZones srt) (srtSuffixes srt) numCPU (dcListen (cDNS cfg)) (dcListeners (cDNS cfg)) (cWarmup cfg)
       (cSnapshot cfg) (cHosts cfg) (cForwarding cfg) (if xdpEnabled (cXDP cfg) then xdpInterface (cXDP cfg) else []) (limitCfg cfg)"

text \<open>From an accepted configuration to the return of \<open>Run\<close>.  The limiter of the server is the one the
  requests see.\<close>

definition main_run ::
  "'c env \<Rightarrow> sorts \<Rightarrow> int \<Rightarrow> xdp_calls \<Rightarrow> start_event list \<Rightarrow> Config \<Rightarrow> kernel \<Rightarrow> runtimeState \<Rightarrow> disk \<Rightarrow> 'c world
     \<Rightarrow> (bool \<times> server \<times> kernel \<times> runtimeState \<times> 'c world) option"
where
  "main_run E srt numCPU calls evs cfg k st d w =
     (let st = ResetRuntimeState st;
          (s, snap) = main_server (eLib E) srt numCPU cfg;
          w = w\<lparr>wLimiter := s_expLimiter s\<rparr>;
          E = E\<lparr>eSnap := snap\<rparr>;
          (n, err, w) = LoadSnapshot E (cSnapshot cfg) d w
      in Run E calls evs s k st w)"

text \<open>The shutdown functions run one after the other on the state of the process, whatever they return.\<close>

fun gracefulShutdown :: "('s \<Rightarrow> 'e option \<times> 's) option list \<Rightarrow> 's \<Rightarrow> 'e list \<times> 's" where
  "gracefulShutdown [] p = ([], p)"
| "gracefulShutdown (None # shutdowns) p = gracefulShutdown shutdowns p"
| "gracefulShutdown (Some shutdown # shutdowns) p =
     (let (err, p) = shutdown p; (errs, p) = gracefulShutdown shutdowns p
      in ((case err of None \<Rightarrow> errs | Some e \<Rightarrow> e # errs), p))"

datatype 'sig awaited = ServerError "string option" | Signalled 'sig

fun waitForSignal :: "'sig awaited \<Rightarrow> 'sig option" where
  "waitForSignal (ServerError err) = None"
| "waitForSignal (Signalled s) = Some s"

section \<open>Trace mode\<close>

definition parseTraceQType :: "dnslib \<Rightarrow> string \<Rightarrow> main_error + u16" where
  "parseTraceQType L value =
     (let qtype = strings_ToUpper (strings_TrimSpace value);
          qtype = (if qtype = [] then ''A'' else qtype)
      in case StringToType L qtype of None \<Rightarrow> Inl (ErrTraceType value) | Some t \<Rightarrow> Inr t)"

text \<open>The request of a trace sees no limiter: the server it makes is dropped.  The text written and the
  error are returned.\<close>

definition runTraceMode ::
  "(go_error \<Rightarrow> string) \<Rightarrow> go_error option \<Rightarrow> 'c env \<Rightarrow> sorts \<Rightarrow> int \<Rightarrow> Config \<Rightarrow> disk \<Rightarrow> string \<Rightarrow> u16 \<Rightarrow> 'c world \<Rightarrow> (string \<times> go_error option \<times> 'c world) option"
where
  "runTraceMode err_text writeErr E srt numCPU cfg d domain qtype w = do {
     let snap = snd (NewServerWithFullConfig (eLib E) (srtZones srt) (srtSuffixes srt) numCPU (dcListen (cDNS cfg)) 1 (cWarmup cfg)
                       (cSnapshot cfg) (cHosts cfg) (cForwarding cfg) [] (limitCfg cfg));
     let E = E\<lparr>eSnap := snap\<rparr>;
     let w = (if snapFile (cSnapshot cfg) \<noteq> [] then snd (snd (LoadSnapshot E (cSnapshot cfg) d w)) else w);
     (result, trace, err, w) \<leftarrow> TraceDomain err_text E domain qtype (w\<lparr>wLimiter := None\<rparr>);
     (case trace of
        None \<Rightarrow> Some ([], err, w)
      | Some t \<Rightarrow> Some (trace_Format t @ [CHR 0x0A], if writeErr \<noteq> None then writeErr else err, w))
   }"

section \<open>The main function\<close>

datatype 'c outcome =
    ShownVersion | Exited main_error | Traced string "'c world" | Ran bool server kernel runtimeState "'c world"

definition main_program ::
  "(string \<Rightarrow> Config option) \<Rightarrow> (string \<Rightarrow> bool) \<Rightarrow> (go_error \<Rightarrow> string) \<Rightarrow> go_error option \<Rightarrow> int \<Rightarrow> (string \<Rightarrow> config_file) \<Rightarrow> flags
     \<Rightarrow> 'c env \<Rightarrow> sorts \<Rightarrow> xdp_calls \<Rightarrow> start_event list \<Rightarrow> kernel \<Rightarrow> runtimeState \<Rightarrow> disk \<Rightarrow> 'c world \<Rightarrow> 'c outcome option"
where
  "main_program unmarshal resolves err_text writeErr numCPU readFile f E srt calls evs k st d w =
     (if showVersion f then Some ShownVersion
      else case main_config unmarshal resolves numCPU readFile f of
        Inl e \<Rightarrow> Some (Exited e)
      | Inr cfg \<Rightarrow>
          let w = main_gate E numCPU cfg w
          in if traceDomain f \<noteq> []
             then (case parseTraceQType (eLib E) (traceType f) of
                     Inl e \<Rightarrow> Some (Exited e)
                   | Inr qtype \<Rightarrow> do {
                       (out, err, w) \<leftarrow> runTraceMode err_text writeErr E srt numCPU cfg d (traceDomain f) qtype w;
                       Some (case err of Some e \<Rightarrow> Exited (ErrTrace e) | None \<Rightarrow> Traced out w)
                     })
             else do {
               (ok, s, k, st, w) \<leftarrow> main_run E srt numCPU calls evs cfg k st d w;
               Some (Ran ok s k st w)
             })"

section \<open>Lemmas\<close>

lemma first_error_None: "first_error checks = None \<longleftrightarrow> (\<forall>c\<in>set checks. c = None)"
  by (induction checks rule: first_error.induct) auto

lemma fails_None [simp]: "fails bad e = None \<longleftrightarrow> \<not> bad"
  by (simp add: fails_def)

lemma enumerate_all: "(\<forall>x\<in>set (enumerate n xs). P (snd x)) \<longleftrightarrow> (\<forall>x\<in>set xs. P x)"
  by (induction xs arbitrary: n) auto

text \<open>What an accepted entry promises.\<close>

definition host_laws :: "HostEntry \<Rightarrow> bool" where
  "host_laws h \<longleftrightarrow>
     strings_TrimSpace (hostName h) \<noteq> [] \<and> strings_TrimSpace (hostValue h) \<noteq> []
     \<and> (strings_ToUpper (hostType h) = ''A'' \<and> ip_To4 (net_ParseIP (hostValue h)) \<noteq> None
        \<or> strings_ToUpper (hostType h) = ''AAAA'' \<and> net_ParseIP (hostValue h) \<noteq> None \<and> ip_To4 (net_ParseIP (hostValue h)) = None
        \<or> strings_ToUpper (hostType h) = ''CNAME'')"

definition zone_laws :: "ForwardZone \<Rightarrow> bool" where
  "zone_laws z \<longleftrightarrow> strings_TrimSpace (fzZone z) \<noteq> [] \<and> fzUpstreams z \<noteq> [] \<and> (\<forall>up\<in>set (fzUpstreams z). net_SplitHostPort up \<noteq> None)"

lemma validate_host_exact: "validate_host i h = None \<longleftrightarrow> host_laws h"
proof -
  have "ip_To4 None = None" by (simp add: ip_To4_def)
  then show ?thesis
    by (cases "net_ParseIP (hostValue h)"; cases "ip_To4 (net_ParseIP (hostValue h))") (auto simp: validate_host_def host_laws_def first_error_None Let_def)
qed

lemma validateHostsConfig_exact: "validateHostsConfig hosts = None \<longleftrightarrow> (\<forall>h\<in>set hosts. host_laws h)"
  using enumerate_all [of 0 hosts host_laws]
  by (simp add: validateHostsConfig_def first_error_None case_prod_beta' validate_host_exact)

lemma validate_zone_exact: "validate_zone i z = None \<longleftrightarrow> zone_laws z"
  using enumerate_all [of 0 "fzUpstreams z" "\<lambda>up. net_SplitHostPort up \<noteq> None"]
  by (auto simp: validate_zone_def zone_laws_def first_error_None case_prod_beta')

lemma validateForwardingConfig_exact: "validateForwardingConfig zones = None \<longleftrightarrow> (\<forall>z\<in>set zones. zone_laws z)"
  using enumerate_all [of 0 zones zone_laws]
  by (simp add: validateForwardingConfig_def first_error_None case_prod_beta' validate_zone_exact)

definition config_laws :: "(string \<Rightarrow> bool) \<Rightarrow> Config \<Rightarrow> bool" where
  "config_laws resolves cfg \<longleftrightarrow>
     (\<forall>h\<in>set (cHosts cfg). host_laws h) \<and> (\<forall>z\<in>set (cForwarding cfg). zone_laws z)
     \<and> (dcUpstreamTimeout (cDNS cfg) \<le> 0 \<or> millis 100 \<le> dcUpstreamTimeout (cDNS cfg))
     \<and> (wcTimeout (cWarmup cfg) \<le> 0 \<or> millis 100 \<le> wcTimeout (cWarmup cfg))
     \<and> 0 \<le> dcUpstreamConcurrencyLimit (cDNS cfg) \<and> 0 \<le> dcExpensiveRequestLimit (cDNS cfg) \<and> 0 \<le> dcListeners (cDNS cfg)
     \<and> dcExpensiveRequestLimitMode (cDNS cfg) \<in> {[], ExpensiveRequestLimitModeDisabled, ExpensiveRequestLimitModeEnabled}
     \<and> strings_TrimSpace (dcListen (cDNS cfg)) \<noteq> [] \<and> resolves (dcListen (cDNS cfg))
     \<and> strings_TrimSpace (dcMetric (cDNS cfg)) \<noteq> [] \<and> validateMetricAddress resolves (dcMetric (cDNS cfg)) = None
     \<and> isValidLogLevel (dcLogLevel (cDNS cfg))
     \<and> (xdpEnabled (cXDP cfg) \<longrightarrow> strings_TrimSpace (xdpInterface (cXDP cfg)) \<noteq> [])
     \<and> (PprofEnabled (cDebug cfg) \<longrightarrow> strings_TrimSpace (PprofListen (cDebug cfg)) \<noteq> [] \<and> resolves (PprofListen (cDebug cfg)))"

lemma validateConfig_exact: "validateConfig resolves (Some cfg) = None \<longleftrightarrow> config_laws resolves cfg"
  by (auto simp: validateConfig_def config_laws_def first_error_None Let_def validateTCPAddress_def
      validateHostsConfig_exact validateForwardingConfig_exact not_less)

lemma main_config_laws: "main_config unmarshal resolves numCPU readFile f = Inr cfg \<Longrightarrow> config_laws resolves cfg"
  using validateConfig_exact by (auto simp: main_config_def Let_def split: sum.splits option.splits)

text \<open>A record whose data is an address of its family.\<close>

fun addressed :: "RR \<Rightarrow> bool" where
  "addressed (RR_A h ip) = (ip \<noteq> None)"
| "addressed (RR_AAAA h bs) = (length bs = 16)"
| "addressed rr = True"

lemma host_laws_record:
  assumes "host_laws h"
  shows "\<exists>rr. host_record L h = Some rr \<and> addressed rr \<and> Name (Header rr) = Fqdn L (hostName h) \<and> Ttl (Header rr) \<noteq> 0"
  using assms net_ParseIP_length
  by (auto simp: host_laws_def host_record_def buildHostRR_def host_ttl_def defaultHostsTTL_def Let_def)

lemma host_answers_member:
  assumes "h \<in> set hosts" "host_record L h = Some rr"
  shows "rr \<in> set (host_answers L hosts (Fqdn L (hostName h)) (host_type L h))"
  using assms by (force simp: host_answers_def List.map_filter_def)

lemma LoadSnapshot_frame:
  "wGate (snd (snd (LoadSnapshot E cfg d w))) = wGate w" "wLimiter (snd (snd (LoadSnapshot E cfg d w))) = wLimiter w"
proof -
  have e: "wGate (snd (load_entry E now x w)) = wGate w" "wLimiter (snd (load_entry E now x w)) = wLimiter w" for now x w
    by (simp_all add: load_entry_def Let_def split: option.split)
  have "wGate (snd (load_entries E now es w)) = wGate w \<and> wLimiter (snd (load_entries E now es w)) = wLimiter w" for now es w
    by (induction es arbitrary: w) (simp_all add: e case_prod_beta' Let_def)
  then show "wGate (snd (snd (LoadSnapshot E cfg d w))) = wGate w" "wLimiter (snd (snd (LoadSnapshot E cfg d w))) = wLimiter w"
    by (simp_all add: LoadSnapshot_def case_prod_beta' Let_def split: disk_file.split)
qed

lemma Run_frame:
  assumes "Run E c evs s k st w = Some (ok, s', k', st', w')"
  shows "wGate w' = wGate w" "wLimiter w' = wLimiter w" "s_forwardZones s' = s_forwardZones s" "s_hostsMap s' = s_hostsMap s"
    "length (s_udpSrvs s') = nat (max 1 (s_listeners s))" "length (s_tcpSrvs s') = nat (max 1 (s_listeners s))"
proof -
  let ?w = "(tick w)\<lparr>wPool := StartProbeLoop (eNow E (wTick w)) (ExtractRootIPs (eLib E) (eRootOverride E)) (wPool w)\<rparr>"
  obtain status s1 k1 w1 where x: "run_xdp c (run_listeners s) k ?w = (status, s1, k1, w1)" by (metis prod_cases4)
  have r: "w' = w1" "s' = notify_started evs s1" using assms by (auto simp: Run_def x Let_def)
  have n: "s_forwardZones (notify_started evs s1) = s_forwardZones s1" "s_hostsMap (notify_started evs s1) = s_hostsMap s1"
    by (simp_all add: notify_started_def)
  have l: "s_forwardZones (run_listeners s) = s_forwardZones s" "s_hostsMap (run_listeners s) = s_hostsMap s"
    by (simp_all add: run_listeners_def Let_def)
  from x show "wGate w' = wGate w" "wLimiter w' = wLimiter w" "s_forwardZones s' = s_forwardZones s" "s_hostsMap s' = s_hostsMap s"
    by (auto simp: run_xdp_def r n l split: option.splits prod.splits)
  from run_xdp_frame [OF x] run_listeners_fields(1,2) [of s]
  show "length (s_udpSrvs s') = nat (max 1 (s_listeners s))" "length (s_tcpSrvs s') = nat (max 1 (s_listeners s))"
    by (simp_all add: r)
qed

lemma main_server_fields:
  "s_forwardZones (fst (main_server L srt n cfg)) = sortForwardZones (srtZones srt) L (cForwarding cfg)"
  "s_hostsMap (fst (main_server L srt n cfg)) = fst (compileHostsEntries L (cHosts cfg))"
  "s_expLimiter (fst (main_server L srt n cfg)) = newExpensiveRequestLimiter L (srtSuffixes srt) n (limitCfg cfg)"
  "max 1 (s_listeners (fst (main_server L srt n cfg))) = max 1 (dcListeners (cDNS cfg))"
  "hostsMap (snd (main_server L srt n cfg)) = fst (compileHostsEntries L (cHosts cfg))"
  "hostsNames (snd (main_server L srt n cfg)) = snd (compileHostsEntries L (cHosts cfg))"
  by (simp_all add: main_server_def NewServerWithFullConfig_def zero_server_def setGlobalHostsAndForward_def case_prod_beta' Let_def)

section \<open>Properties\<close>


definition example_config :: Config where
  "example_config =
     \<lparr>cDNS = \<lparr>dcListen = ''0.0.0.0:53'', dcMetric = '':9999'', dcLogLevel = ''info'', dcUpstreamTimeout = 2000000000,
        dcUpstreamConcurrencyLimit = 0, dcExpensiveRequestLimitMode = ''enabled'', dcExpensiveRequestLimit = 0,
        dcHotZoneBaseSuffixes = [], dcListeners = 2\<rparr>,
      cWarmup = \<lparr>wcEnabled = False, wcTimeout = 5000000000, wcDuration = 5000000000, wcConcurrency = 4, wcTLDs = [''com'']\<rparr>,
      cSnapshot = \<lparr>snapEnabled = False, snapFile = []\<rparr>,
      cHosts = [\<lparr>hostName = ''a.'', hostType = ''A'', hostValue = ''10.0.0.1'', hostTTL = 0\<rparr>,
                \<lparr>hostName = ''a.'', hostType = ''AAAA'', hostValue = ''::'', hostTTL = 9\<rparr>],
      cForwarding = [\<lparr>fzZone = ''b.'', fzUpstreams = [''1.1.1.1:53'', ''[::1]:53'']\<rparr>],
      cXDP = \<lparr>xdpEnabled = False, xdpInterface = []\<rparr>,
      cDebug = \<lparr>PprofEnabled = False, PprofListen = ''127.0.0.1:6060'', ObserveWouldRefuse = False\<rparr>\<rparr>"

definition example_resolves :: "string \<Rightarrow> bool" where
  "example_resolves addr = (net_SplitHostPort addr \<noteq> None)"

definition example_sorts :: sorts where
  "example_sorts = \<lparr>srtZones = go_insertion_sort zone_longer, srtSuffixes = (\<lambda>xs. xs)\<rparr>"

lemma example_texts:
  "net_ParseIP ''10.0.0.1'' = Some (replicate 10 0 @ [255, 255, 10, 0, 0, 1])" "net_ParseIP ''::'' = Some (replicate 16 0)"
  "strings_ToUpper ''A'' = ''A''" "strings_ToUpper ''AAAA'' = ''AAAA''" "strings_ToLower ''info'' = ''info''"
proof -
  have "digit_char 0 = CHR ''0''" "digit_char 1 = CHR ''1''"
    using char_of_char [where 'a = nat, of "CHR ''0''"] char_of_char [where 'a = nat, of "CHR ''1''"] by (simp_all add: digit_char_def)
  then have "IP_String (Some (10, 0, 0, 1)) = ''10.0.0.1''" by (simp add: nat_digits.simps)
  then show "net_ParseIP ''10.0.0.1'' = Some (replicate 10 0 @ [255, 255, 10, 0, 0, 1])"
    using net_ParseIP_String [of 10 0 0 1] by simp
qed (simp_all add: net_ParseIP_def parseIPv6_def strings_ToUpper_def byte_upper_def strings_ToLower_def byte_lower_def Let_def)

lemma example_addresses:
  "ip_To4 (Some (replicate 10 0 @ [255, 255, 10, 0, 0, 1])) = Some (10, 0, 0, 1)" "ip_To4 (Some (replicate 16 0)) = None"
proof -
  have r: "replicate 10 (0 :: u8) = [0, 0, 0, 0, 0, 0, 0, 0, 0, 0]" "replicate 12 (0 :: u8) = [0, 0, 0, 0, 0, 0, 0, 0, 0, 0, 0, 0]"
    by (simp_all add: eval_nat_numeral)
  show "ip_To4 (Some (replicate 10 0 @ [255, 255, 10, 0, 0, 1])) = Some (10, 0, 0, 1)" "ip_To4 (Some (replicate 16 0)) = None"
    by (simp_all add: ip_To4_def r)
qed

lemma example_laws: "config_laws example_resolves example_config"
  by (simp add: config_laws_def example_config_def host_laws_def zone_laws_def example_texts example_addresses strings_TrimSpace_def is_space_def
      example_resolves_def net_SplitHostPort_def millis_def isValidLogLevel_def validateMetricAddress_def strconv_Atoi_def digits_val_def digit_val_def is_digit_def
      ExpensiveRequestLimitModeEnabled_def ExpensiveRequestLimitModeDisabled_def Let_def)

lemma example_accepted:
  "main_config (\<lambda>_. Some example_config) example_resolves 4 (\<lambda>_. FileData []) (default_flags\<lparr>configPath := ''c''\<rparr>) = Inr example_config"
proof -
  have "loadConfig (\<lambda>_. Some example_config) 4 (\<lambda>_. FileData []) ''c'' = Inr example_config"
    by (simp add: loadConfig_def example_config_def LoadTLDList_def)
  then show ?thesis
    using example_laws validateConfig_exact [of example_resolves example_config]
    by (simp add: main_config_def override_flags_def default_flags_def)
qed

lemma example_zone_sort: "sort_slice_ok zone_longer (srtZones example_sorts)"
  by (auto simp: example_sorts_def zone_longer_def intro: go_insertion_sort_ok)



text \<open>The environment of the examples, with the snapshot of the configuration.\<close>

definition config_env :: "(string \<times> Msg \<times> int) list env" where
  "config_env = ref_env\<lparr>eSnap := snd (main_server ref_dnslib example_sorts 4 example_config)\<rparr>"


end
