(* ===== verification/Go_Format.thy ===== *)
theory Go_Format
  imports Go_Float Go_Net "HOL-Library.AList"
begin

text \<open>
  The library functions the command-line tools use beyond the resolver: \<open>strings.Fields\<close>,
  \<open>bufio.Scanner\<close> over lines, the verbs of \<open>fmt\<close> they print with, and maps that add up values.
  A Go map whose iteration order matters or whose values are summed is an association list with
  distinct keys, in the order in which an iteration visits it.
\<close>

section \<open>Text\<close>

definition strings_Contains :: "string \<Rightarrow> string \<Rightarrow> bool" where
  "strings_Contains s sub = (0 \<le> strings_Index s sub)"

function strings_Fields :: "string \<Rightarrow> string list" where
  "strings_Fields s =
     (let s = dropWhile is_space s
      in if s = [] then []
         else takeWhile (\<lambda>c. \<not> is_space c) s # strings_Fields (dropWhile (\<lambda>c. \<not> is_space c) s))"
  by pat_completeness auto
termination
proof (relation "measure length", simp)
  fix s x :: string
  assume x: "x = dropWhile is_space s" "x \<noteq> []"
  then have "\<not> is_space (hd x)" using hd_dropWhile [of is_space s] by simp
  with x(2) obtain c cs where "x = c # cs" "\<not> is_space c" by (cases x) auto
  then have "length (dropWhile (\<lambda>c. \<not> is_space c) x) < length x" by (simp add: length_dropWhile_le less_Suc_eq_le)
  also have "\<dots> \<le> length s" using x(1) by (simp add: length_dropWhile_le)
  finally show "(dropWhile (\<lambda>c. \<not> is_space c) x, s) \<in> measure length" by simp
qed

declare strings_Fields.simps [simp del]

text \<open>\<open>bufio.Scanner\<close> with its default split function: the lines without their end, until one is
  longer than the buffer.\<close>

definition maxScanTokenSize :: nat where "maxScanTokenSize = 65536"

definition drop_cr :: "string \<Rightarrow> string" where
  "drop_cr s = (if s \<noteq> [] \<and> last s = CHR 0x0D then butlast s else s)"

function scan_lines :: "string \<Rightarrow> string list \<times> bool" where
  "scan_lines s =
     (if s = [] then ([], True)
      else let line = takeWhile (\<lambda>c. c \<noteq> CHR 0x0A) s;
               rest = drop (length line + 1) s
           in if maxScanTokenSize \<le> length line then ([], False)
              else let (ls, ok) = scan_lines rest in (drop_cr line # ls, ok))"
  by pat_completeness auto
termination by (relation "measure length") auto

declare scan_lines.simps [simp del]

section \<open>Formatting\<close>

definition pad_left :: "nat \<Rightarrow> char \<Rightarrow> string \<Rightarrow> string" where
  "pad_left n c s = replicate (n - length s) c @ s"

definition pad_right :: "nat \<Rightarrow> string \<Rightarrow> string" where
  "pad_right n s = s @ replicate (n - length s) CHR '' ''"

definition fmt_int :: "int \<Rightarrow> string" where
  "fmt_int n = (if n < 0 then ''-'' @ nat_digits (nat (- n)) else nat_digits (nat n))"

text \<open>\<open>%.kf\<close>: the decimal nearest to the exact value of the number, ties to even.\<close>

definition fmt_fixed :: "nat \<Rightarrow> rat \<Rightarrow> string" where
  "fmt_fixed k x =
     (let n = nat (round_half_even (\<bar>x\<bar> * 10 ^ k));
          sign = (if x < 0 then ''-'' else []);
          frac = pad_left k CHR ''0'' (nat_digits (n mod 10 ^ k))
      in sign @ nat_digits (n div 10 ^ k) @ (if k = 0 then [] else CHR ''.'' # frac))"

definition hex_char :: "nat \<Rightarrow> char" where
  "hex_char d = (if d < 10 then char_of (48 + d) else char_of (87 + d))"

fun hex_digits :: "nat \<Rightarrow> string" where
  "hex_digits n = (if n < 16 then [hex_char n] else hex_digits (n div 16) @ [hex_char (n mod 16)])"

declare hex_digits.simps [simp del]

definition fmt_08x :: "u32 \<Rightarrow> string" where
  "fmt_08x n = pad_left 8 CHR ''0'' (hex_digits (unat n))"

section \<open>Maps that add up\<close>

definition map_get :: "('k \<times> 'v :: zero) list \<Rightarrow> 'k \<Rightarrow> 'v" where
  "map_get m k = (case map_of m k of None \<Rightarrow> 0 | Some v \<Rightarrow> v)"

text \<open>\<open>m[k] += v\<close> with the addition of the element type.\<close>

definition map_add_at :: "('v \<Rightarrow> 'v \<Rightarrow> 'v :: zero) \<Rightarrow> 'k \<Rightarrow> 'v \<Rightarrow> ('k \<times> 'v) list \<Rightarrow> ('k \<times> 'v) list" where
  "map_add_at add k v m = AList.update k (add (map_get m k) v) m"

lemma map_get_add [simp]: "map_get (map_add_at add k v m) k' = (if k' = k then add (map_get m k) v else map_get m k')"
  by (simp add: map_get_def map_add_at_def update_conv')

lemma keys_map_add [simp]: "fst ` set (map_add_at add k v m) = insert k (fst ` set m)"
  by (auto simp: map_add_at_def dom_update)

lemma distinct_map_add [simp]: "distinct (map fst m) \<Longrightarrow> distinct (map fst (map_add_at add k v m))"
  by (simp add: map_add_at_def distinct_update)

lemma sum_update:
  fixes m :: "('k \<times> 'v :: ab_group_add) list"
  shows "distinct (map fst m) \<Longrightarrow> sum_list (map snd (AList.update k w m)) = sum_list (map snd m) + w - map_get m k"
proof (induction m)
  case (Cons p m)
  then show ?case
    by (cases p) (auto simp: map_get_def algebra_simps dest: map_of_SomeD split: option.splits)
qed (simp add: map_get_def)

lemma sum_map_add:
  fixes m :: "('k \<times> 'v :: ab_group_add) list"
  shows "distinct (map fst m) \<Longrightarrow> sum_list (map snd (map_add_at (+) k v m)) = sum_list (map snd m) + v"
  by (simp add: map_add_at_def sum_update algebra_simps)

section \<open>Sorting integers\<close>

lemma sort_slice_linorder:
  fixes srt :: "'a :: linorder list \<Rightarrow> 'a list"
  assumes "sort_slice_ok (<) srt"
  shows "srt xs = sort xs"
proof (rule properties_for_sort [symmetric])
  show "mset (srt xs) = mset xs" by (rule sort_slice_mset [OF assms])
  show "sorted (srt xs)" using assms by (simp add: sort_slice_ok_def not_less)
qed

text \<open>An element of a sorted list splits it by order.\<close>

lemma sorted_nth_count:
  fixes xs :: "'a :: linorder list"
  assumes "sorted xs" "i < length xs"
  shows "i + 1 \<le> length (filter (\<lambda>x. x \<le> xs ! i) xs)" "length xs - i \<le> length (filter (\<lambda>x. xs ! i \<le> x) xs)"
proof -
  have "filter (\<lambda>x. x \<le> xs ! i) (take (Suc i) xs) = take (Suc i) xs"
    using assms by (auto simp: filter_id_conv in_set_conv_nth sorted_iff_nth_mono)
  then have "i + 1 \<le> length (filter (\<lambda>x. x \<le> xs ! i) (take (Suc i) xs @ drop (Suc i) xs))"
    using assms(2) by (simp del: append_take_drop_id)
  then show "i + 1 \<le> length (filter (\<lambda>x. x \<le> xs ! i) xs)" by simp
  have "filter (\<lambda>x. xs ! i \<le> x) (drop i xs) = drop i xs"
    using assms by (auto simp: filter_id_conv in_set_conv_nth sorted_iff_nth_mono)
  then have "length xs - i \<le> length (filter (\<lambda>x. xs ! i \<le> x) (take i xs @ drop i xs))"
    by (simp del: append_take_drop_id)
  then show "length xs - i \<le> length (filter (\<lambda>x. xs ! i \<le> x) xs)" by simp
qed

end
