(* ===== verification/Dnsperf.thy ===== *)
theory Dnsperf
  imports Go_Format Dns_Reference
begin

text \<open>
  The load generator (src/tools/dnsperf/main.go): its flags, the query file, the workers with their
  persistent connections, the dispatcher, the collector and its report.  The answers of the network
  are oracles indexed by the number of calls so far.  \<open>perf_step\<close> interleaves the dispatcher, the
  workers and the collector over the two bounded channels.
\<close>

section \<open>Queries\<close>

record perf_query =
  pq_name :: string
  pq_qtype :: u16

record perf_result =
  pr_latency :: int
  pr_rcode :: int
  pr_timeout :: bool
  pr_err :: bool

datatype perf_error =
    NoSource | TwoSources | BadConcurrency | BadProto | CannotOpen | UnknownType nat string | ScanFailed | NoQueries

definition query_line :: "dnslib \<Rightarrow> nat \<Rightarrow> string \<Rightarrow> perf_error + perf_query list" where
  "query_line L lineNo text =
     (let line = strings_TrimSpace text
      in if line = [] \<or> hd line = CHR ''#'' then Inr []
         else let flds = strings_Fields line; name = Fqdn L (hd flds)
              in if 2 \<le> length flds
                 then (case StringToType L (strings_ToUpper (flds ! 1)) of
                         None \<Rightarrow> Inl (UnknownType lineNo (flds ! 1))
                       | Some t \<Rightarrow> Inr [\<lparr>pq_name = name, pq_qtype = t\<rparr>])
                 else Inr [\<lparr>pq_name = name, pq_qtype = TypeA\<rparr>])"

fun query_lines :: "dnslib \<Rightarrow> nat \<Rightarrow> string list \<Rightarrow> perf_query list \<Rightarrow> perf_error + perf_query list" where
  "query_lines L lineNo [] qs = Inr qs"
| "query_lines L lineNo (text # texts) qs =
     (case query_line L (lineNo + 1) text of
        Inl e \<Rightarrow> Inl e
      | Inr new \<Rightarrow> query_lines L (lineNo + 1) texts (qs @ new))"

definition loadQueriesFromFile :: "dnslib \<Rightarrow> string option \<Rightarrow> perf_error + perf_query list" where
  "loadQueriesFromFile L file =
     (case file of
        None \<Rightarrow> Inl CannotOpen
      | Some data \<Rightarrow>
          let (lines, ok) = scan_lines data
          in (case query_lines L 0 lines [] of
                Inl e \<Rightarrow> Inl e
              | Inr qs \<Rightarrow> if \<not> ok then Inl ScanFailed else if length qs = 0 then Inl NoQueries else Inr qs))"

section \<open>Workers\<close>

record net_calls =
  nc_dial :: "nat \<Rightarrow> bool"
  nc_write :: "nat \<Rightarrow> string option"
  nc_read :: "nat \<Rightarrow> string + int"

text \<open>\<open>ws_open\<close> counts the sockets that are open.\<close>

record wstate =
  ws_conn :: bool
  ws_tick :: nat
  ws_open :: nat

definition w_dial :: "net_calls \<Rightarrow> wstate \<Rightarrow> wstate" where
  "w_dial c s =
     (let ok = nc_dial c (ws_tick s)
      in s\<lparr>ws_conn := ok, ws_tick := ws_tick s + 1, ws_open := (if ok then ws_open s + 1 else ws_open s)\<rparr>)"

definition w_close :: "wstate \<Rightarrow> wstate" where
  "w_close s = s\<lparr>ws_conn := False, ws_open := ws_open s - 1\<rparr>"

fun w_attempts :: "net_calls \<Rightarrow> nat \<Rightarrow> string option \<times> int option \<Rightarrow> wstate \<Rightarrow> (string option \<times> int option) \<times> wstate" where
  "w_attempts c 0 r s = (r, s)"
| "w_attempts c (Suc n) r s =
     (let s = (if ws_conn s then s else w_dial c s)
      in if \<not> ws_conn s then ((Some ''dial failed'', snd r), s)
         else case nc_write c (ws_tick s) of
           Some e \<Rightarrow> w_attempts c n (Some e, snd r) (w_close (s\<lparr>ws_tick := ws_tick s + 1\<rparr>))
         | None \<Rightarrow>
             (case nc_read c (ws_tick s + 1) of
                Inl e \<Rightarrow> w_attempts c n (Some e, None) (w_close (s\<lparr>ws_tick := ws_tick s + 2\<rparr>))
              | Inr rcode \<Rightarrow> ((None, Some rcode), s\<lparr>ws_tick := ws_tick s + 2\<rparr>)))"

definition isTimeout :: "string \<Rightarrow> bool" where
  "isTimeout s = (strings_Contains s ''timeout'' \<or> strings_Contains s ''deadline'')"

definition w_query :: "net_calls \<Rightarrow> int \<Rightarrow> wstate \<Rightarrow> perf_result \<times> wstate" where
  "w_query c lat s =
     (let ((err, resp), s) = w_attempts c 2 (None, None) s;
          r = \<lparr>pr_latency = lat, pr_rcode = 0, pr_timeout = False, pr_err = False\<rparr>
      in (case err of
            Some e \<Rightarrow> if isTimeout e then r\<lparr>pr_timeout := True\<rparr> else r\<lparr>pr_err := True\<rparr>
          | None \<Rightarrow> (case resp of Some rcode \<Rightarrow> r\<lparr>pr_rcode := rcode\<rparr> | None \<Rightarrow> r), s))"

text \<open>A worker dials, answers the queries it receives and closes what it holds; \<open>lats\<close> are the times
  it measures, one for each query.\<close>

fun w_queries :: "net_calls \<Rightarrow> int list \<Rightarrow> wstate \<Rightarrow> perf_result list \<times> wstate" where
  "w_queries c [] s = ([], s)"
| "w_queries c (lat # lats) s = (let (r, s) = w_query c lat s; (rs, s) = w_queries c lats s in (r # rs, s))"

definition perf_worker :: "net_calls \<Rightarrow> int list \<Rightarrow> perf_result list \<times> wstate" where
  "perf_worker c lats =
     (let s = w_dial c \<lparr>ws_conn = False, ws_tick = 0, ws_open = 0\<rparr>;
          (rs, s) = w_queries c lats s
      in (rs, if ws_conn s then w_close s else s))"

section \<open>Collector\<close>

record collector =
  co_lats :: "int list"
  co_rcodes :: "(int \<times> int) list"
  co_timeouts :: int
  co_errors :: int
  co_total :: int

definition newCollector :: collector where
  "newCollector = \<lparr>co_lats = [], co_rcodes = [], co_timeouts = 0, co_errors = 0, co_total = 0\<rparr>"

definition co_record :: "perf_result \<Rightarrow> collector \<Rightarrow> collector" where
  "co_record r c =
     (let c = c\<lparr>co_total := co_total c + 1, co_lats := co_lats c @ [pr_latency r]\<rparr>
      in if pr_timeout r then c\<lparr>co_timeouts := co_timeouts c + 1\<rparr>
         else if pr_err r then c\<lparr>co_errors := co_errors c + 1\<rparr>
         else c\<lparr>co_rcodes := map_add_at (+) (pr_rcode r) 1 (co_rcodes c)\<rparr>)"

record statsSnap =
  ss_total :: int
  ss_timeouts :: int
  ss_errors :: int
  ss_rcodes :: "(int \<times> int) list"
  ss_sorted :: "int list"

definition co_snapshot :: "(int list \<Rightarrow> int list) \<Rightarrow> collector \<Rightarrow> statsSnap" where
  "co_snapshot srt c =
     \<lparr>ss_total = co_total c, ss_timeouts = co_timeouts c, ss_errors = co_errors c, ss_rcodes = co_rcodes c, ss_sorted = srt (co_lats c)\<rparr>"

definition percentile_idx :: "nat \<Rightarrow> rat \<Rightarrow> int" where
  "percentile_idx n p = int_of_f (f_mul (f_of_int (int n - 1)) p)"

text \<open>An index out of range panics.\<close>

definition percentile :: "statsSnap \<Rightarrow> rat \<Rightarrow> int go" where
  "percentile s p =
     (let n = length (ss_sorted s); idx = percentile_idx n p
      in if n = 0 then Val 0
         else if idx < 0 then Panic else go_index (ss_sorted s) (nat idx))"

section \<open>Report\<close>

definition fmtLat :: "int \<Rightarrow> string" where
  "fmtLat d =
     (let us = go_div d 1000
      in if us < 1000 then fmt_int us @ ''us'' else fmt_fixed 1 (f_div (f_of_int us) (f_of_int 1000)) @ ''ms'')"

definition summary_points :: "(string \<times> rat) list" where
  "summary_points = [(''Min'', 0), (''P50'', fl (50 / 100)), (''P75'', fl (75 / 100)), (''P90'', fl (90 / 100)),
     (''P95'', fl (95 / 100)), (''P99'', fl (99 / 100)), (''P999'', fl (999 / 1000)), (''Max'', 1)]"

definition summary_point :: "statsSnap \<Rightarrow> string \<times> rat \<Rightarrow> int go" where
  "summary_point s = (\<lambda>(label, value).
     if label = ''Min'' then go_index (ss_sorted s) 0
     else if label = ''Max'' then go_index (ss_sorted s) (length (ss_sorted s) - 1)
     else percentile s value)"

text \<open>The lines of the final report after its heading; None if a percentile panics.  \<open>secs\<close> is the
  elapsed time.\<close>

definition latency_lines :: "statsSnap \<Rightarrow> string list option" where
  "latency_lines s =
     (if ss_sorted s = [] then Some []
      else map_option (\<lambda>ls. ''  Latency:'' # ls @ [[]])
        (those (map (\<lambda>p. case summary_point s p of
             Panic \<Rightarrow> None
           | Val d \<Rightarrow> Some (''    '' @ pad_right 6 (fst p) @ ''  '' @ fmtLat d)) summary_points)))"

definition rcode_lines :: "dnslib \<Rightarrow> statsSnap \<Rightarrow> string list" where
  "rcode_lines L s =
     (if ss_rcodes s = [] then []
      else ''  Response codes:'' #
        map (\<lambda>(rc, cnt). ''    '' @ pad_right 12 (RcodeToString L rc) @ ''  '' @ fmt_int cnt @ '' ('' @
          fmt_fixed 1 (f_mul (f_div (f_of_int cnt) (f_of_int (ss_total s))) 100) @ ''%)'') (ss_rcodes s) @ [[]])"

definition printSummary :: "dnslib \<Rightarrow> rat \<Rightarrow> statsSnap \<Rightarrow> string list option" where
  "printSummary L secs s =
     map_option (\<lambda>lat.
       [''  Queries:    '' @ fmt_int (ss_total s), ''  Duration:   '' @ fmt_fixed 2 secs @ ''s'']
       @ (if 0 < secs then [''  QPS:        '' @ fmt_fixed 1 (f_div (f_of_int (ss_total s)) secs)] else [])
       @ [''  Timeouts:   '' @ fmt_int (ss_timeouts s), ''  Errors:     '' @ fmt_int (ss_errors s), []]
       @ lat @ rcode_lines L s) (latency_lines s)"

section \<open>Dispatch\<close>

text \<open>What the i-th turn of the loop sees: the stop channel is closed at one of its three selects, or the
  query is sent, with the number drawn for its prefix.\<close>

datatype turn = StopSeen | Sent u32

definition turn_query :: "perf_query list \<Rightarrow> bool \<Rightarrow> nat \<Rightarrow> u32 \<Rightarrow> perf_query go" where
  "turn_query base randomPrefix i rnd =
     (if base = [] then Panic
      else let q = base ! (i mod length base)
           in Val (if randomPrefix then q\<lparr>pq_name := fmt_08x rnd @ ''.'' @ pq_name q\<rparr> else q))"

fun dispatchQueries :: "perf_query list \<Rightarrow> bool \<Rightarrow> int \<Rightarrow> nat \<Rightarrow> turn list \<Rightarrow> perf_query list go" where
  "dispatchQueries base randomPrefix cnt i [] = Val []"
| "dispatchQueries base randomPrefix cnt i (t # ts) =
     (if \<not> (cnt = 0 \<or> int i < cnt) then Val []
      else case t of
        StopSeen \<Rightarrow> Val []
      | Sent rnd \<Rightarrow>
          go_bind (turn_query base randomPrefix i rnd) (\<lambda>q.
            go_bind (dispatchQueries base randomPrefix cnt (i + 1) ts) (\<lambda>qs. Val (q # qs))))"

section \<open>Flags\<close>

record perf_flags =
  pf_concurrency :: int
  pf_count :: int
  pf_duration :: int
  pf_file :: string
  pf_randomPrefix :: string
  pf_proto :: string

definition perf_count :: "perf_flags \<Rightarrow> int" where
  "perf_count f = (if 0 < pf_duration f then 0 else if pf_count f = 0 then 10000 else pf_count f)"

text \<open>Validation and loading: the queries to cycle through and the number to send, 0 for no bound.\<close>

definition perf_setup :: "dnslib \<Rightarrow> (string \<Rightarrow> string option) \<Rightarrow> perf_flags \<Rightarrow> perf_error + perf_query list \<times> int" where
  "perf_setup L readFile f =
     (if pf_file f = [] \<and> pf_randomPrefix f = [] then Inl NoSource
      else if pf_file f \<noteq> [] \<and> pf_randomPrefix f \<noteq> [] then Inl TwoSources
      else if pf_concurrency f < 1 then Inl BadConcurrency
      else if pf_proto f \<noteq> ''udp'' \<and> pf_proto f \<noteq> ''tcp'' then Inl BadProto
      else if pf_file f \<noteq> []
      then (case loadQueriesFromFile L (readFile (pf_file f)) of Inl e \<Rightarrow> Inl e | Inr base \<Rightarrow> Inr (base, perf_count f))
      else Inr ([\<lparr>pq_name = Fqdn L (pf_randomPrefix f), pq_qtype = TypeA\<rparr>], perf_count f))"

section \<open>The pipeline\<close>

text \<open>What is still to be dispatched, the two channels, the number of busy workers and the collector;
  \<open>conc\<close> is the number of workers, and each channel holds twice as many values.\<close>

record pipeline =
  pl_todo :: "perf_query list"
  pl_queries :: "perf_query list"
  pl_busy :: nat
  pl_results :: "perf_result list"
  pl_coll :: collector

definition pl_start :: "perf_query list \<Rightarrow> pipeline" where
  "pl_start qs = \<lparr>pl_todo = qs, pl_queries = [], pl_busy = 0, pl_results = [], pl_coll = newCollector\<rparr>"

inductive perf_step :: "nat \<Rightarrow> pipeline \<Rightarrow> pipeline \<Rightarrow> bool" for conc where
  send: "pl_todo s = q # qs \<Longrightarrow> length (pl_queries s) < 2 * conc \<Longrightarrow>
     perf_step conc s (s\<lparr>pl_todo := qs, pl_queries := pl_queries s @ [q]\<rparr>)"
| take: "pl_queries s = q # qs \<Longrightarrow> pl_busy s < conc \<Longrightarrow>
     perf_step conc s (s\<lparr>pl_queries := qs, pl_busy := pl_busy s + 1\<rparr>)"
| finish: "0 < pl_busy s \<Longrightarrow> length (pl_results s) < 2 * conc \<Longrightarrow>
     perf_step conc s (s\<lparr>pl_busy := pl_busy s - 1, pl_results := pl_results s @ [r]\<rparr>)"
| collect: "pl_results s = r # rs \<Longrightarrow>
     perf_step conc s (s\<lparr>pl_results := rs, pl_coll := co_record r (pl_coll s)\<rparr>)"

inductive_cases perf_stepE: "perf_step conc s t"

section \<open>Lemmas\<close>

text \<open>The sockets of a worker: one while it is connected, none otherwise.\<close>

definition sockets_ok :: "wstate \<Rightarrow> bool" where
  "sockets_ok s \<longleftrightarrow> ws_open s = (if ws_conn s then 1 else 0)"

lemma w_dial_sockets [keeps]: "sockets_ok s \<Longrightarrow> \<not> ws_conn s \<Longrightarrow> sockets_ok (w_dial c s)"
  by (simp add: sockets_ok_def w_dial_def Let_def)

lemma w_attempts_sockets: "sockets_ok s \<Longrightarrow> sockets_ok (snd (w_attempts c n r s))"
proof (induction c n r s rule: w_attempts.induct)
  case (2 c n r s)
  define s1 where "s1 = (if ws_conn s then s else w_dial c s)"
  have ok: "sockets_ok s1" using 2 by (simp add: s1_def keeps)
  then have cl: "sockets_ok (w_close (s1\<lparr>ws_tick := k\<rparr>))" if "ws_conn s1" for k
    using that by (simp add: sockets_ok_def w_close_def)
  from 2(1,2) cl ok show ?case
    by (simp add: s1_def [symmetric] Let_def sockets_ok_def split: option.splits sum.splits)
qed simp

lemma w_queries_sockets: "sockets_ok s \<Longrightarrow> sockets_ok (snd (w_queries c lats s)) \<and> length (fst (w_queries c lats s)) = length lats"
proof (induction lats arbitrary: s)
  case (Cons lat lats)
  have "sockets_ok (snd (w_query c lat s))" using w_attempts_sockets [OF Cons.prems] by (simp add: w_query_def case_prod_beta' Let_def)
  from Cons.IH [OF this] show ?case by (simp add: case_prod_beta' Let_def)
qed simp

lemma worker_no_leak: "ws_open (snd (perf_worker c lats)) = 0 \<and> length (fst (perf_worker c lats)) = length lats"
proof -
  have "sockets_ok (w_dial c \<lparr>ws_conn = False, ws_tick = 0, ws_open = 0\<rparr>)" by (rule w_dial_sockets) (simp_all add: sockets_ok_def)
  from w_queries_sockets [OF this, of c lats] show ?thesis
    by (auto simp: perf_worker_def sockets_ok_def w_close_def case_prod_beta' Let_def)
qed

lemma query_lines_nonempty: "loadQueriesFromFile L file = Inr qs \<Longrightarrow> qs \<noteq> []"
  by (auto simp: loadQueriesFromFile_def case_prod_beta' Let_def split: option.splits sum.splits if_splits)

lemma perf_setup_nonempty: "perf_setup L readFile f = Inr (base, n) \<Longrightarrow> base \<noteq> []"
  using query_lines_nonempty by (auto simp: perf_setup_def split: if_splits sum.splits)

text \<open>What the collector has counted.\<close>

definition co_ok :: "collector \<Rightarrow> bool" where
  "co_ok c \<longleftrightarrow> co_total c = int (length (co_lats c)) \<and> distinct (map fst (co_rcodes c))
     \<and> co_total c = co_timeouts c + co_errors c + sum_list (map snd (co_rcodes c))"

lemma co_record_ok [keeps]: "co_ok c \<Longrightarrow> co_ok (co_record r c)"
  by (simp add: co_ok_def co_record_def Let_def sum_map_add)

lemma newCollector_ok [simp]: "co_ok newCollector" "co_total newCollector = 0"
  by (simp_all add: co_ok_def newCollector_def)

definition pl_measure :: "pipeline \<Rightarrow> nat" where
  "pl_measure s = 4 * length (pl_todo s) + 3 * length (pl_queries s) + 2 * pl_busy s + length (pl_results s)"

definition pl_inv :: "nat \<Rightarrow> pipeline \<Rightarrow> bool" where
  "pl_inv n s \<longleftrightarrow> co_ok (pl_coll s)
     \<and> int n = int (length (pl_todo s) + length (pl_queries s) + pl_busy s + length (pl_results s)) + co_total (pl_coll s)"

lemma perf_step_inv: "perf_step conc s t \<Longrightarrow> pl_inv n s \<Longrightarrow> pl_inv n t"
  by (induction rule: perf_step.induct) (auto simp: pl_inv_def keeps, auto simp: co_record_def Let_def)

lemma perf_step_measure: "perf_step conc s t \<Longrightarrow> pl_measure t < pl_measure s"
  by (induction rule: perf_step.induct) (auto simp: pl_measure_def)

lemma perf_run_inv: "(perf_step conc)\<^sup>*\<^sup>* s t \<Longrightarrow> pl_inv n s \<Longrightarrow> pl_inv n t"
  by (induction rule: rtranclp_induct) (auto intro: perf_step_inv)

lemma perf_no_deadlock:
  assumes "0 < conc" "pl_todo s \<noteq> [] \<or> pl_queries s \<noteq> [] \<or> 0 < pl_busy s \<or> pl_results s \<noteq> []"
  shows "\<exists>t. perf_step conc s t"
proof (cases "pl_results s")
  case (Cons r rs)
  then show ?thesis using perf_step.collect by blast
next
  case Nil
  show ?thesis
  proof (cases "0 < pl_busy s")
    case True
    moreover have "length (pl_results s) < 2 * conc" using Nil assms(1) by simp
    ultimately show ?thesis using perf_step.finish by blast
  next
    case False
    then show ?thesis
      using assms Nil by (cases "pl_queries s"; cases "pl_todo s") (fastforce intro: perf_step.send perf_step.take)+
  qed
qed
lemma scaled_index:
  assumes "0 \<le> m" "m < 2 ^ 53" "0 \<le> x" "x \<le> 1"
  shows "0 \<le> int_of_f (f_mul (of_int m) x) \<and> int_of_f (f_mul (of_int m) x) \<le> m"
proof -
  have m: "0 \<le> (of_int m :: rat)" using assms(1) by simp
  then have "f_mul (of_int m) x \<le> of_int m"
    using assms unfolding f_mul_def by (intro fl_le_int) (auto intro: mult_left_le)
  from int_of_f_mono [OF this] int_of_f_mono [OF f_mul_nonneg [OF m assms(3)]] show ?thesis using assms(1) by (simp add: int_of_f_def)
qed

section \<open>Properties\<close>


definition drained :: pipeline where
  "drained = \<lparr>pl_todo = [], pl_queries = [], pl_busy = 0, pl_results = [],
     pl_coll = \<lparr>co_lats = [5], co_rcodes = [(3, 1)], co_timeouts = 0, co_errors = 0, co_total = 1\<rparr>\<rparr>"

lemma drained_reach: "(perf_step 1)\<^sup>*\<^sup>* (pl_start [\<lparr>pq_name = ''a.'', pq_qtype = 1\<rparr>]) drained"
proof -
  let ?q = "\<lparr>pq_name = ''a.'', pq_qtype = 1\<rparr>" and ?r = "\<lparr>pr_latency = 5, pr_rcode = 3, pr_timeout = False, pr_err = False\<rparr>"
  let ?s = "\<lambda>qs n rs. \<lparr>pl_todo = [], pl_queries = qs, pl_busy = n, pl_results = rs, pl_coll = newCollector\<rparr>"
  have "perf_step 1 (pl_start [?q]) (?s [?q] 0 [])"
    using perf_step.send [of "pl_start [?q]" ?q "[]" 1] by (simp add: pl_start_def)
  moreover have "perf_step 1 (?s [?q] 0 []) (?s [] 1 [])"
    using perf_step.take [of "?s [?q] 0 []" ?q "[]" 1] by simp
  moreover have "perf_step 1 (?s [] 1 []) (?s [] 0 [?r])"
    using perf_step.finish [of "?s [] 1 []" 1 ?r] by simp
  moreover have "perf_step 1 (?s [] 0 [?r]) drained"
    using perf_step.collect [of "?s [] 0 [?r]" ?r "[]" 1]
    by (simp add: drained_def newCollector_def co_record_def map_add_at_def map_get_def Let_def)
  ultimately show ?thesis by (meson rtranclp.rtrancl_into_rtrancl rtranclp.rtrancl_refl)
qed


text \<open>
  C36. A percentile of the report is an order statistic: for a share between 0 and 1 and fewer than
  2 ^ 53 samples the index never leaves the slice, the value is one of the latencies, more latencies
  than the index are not above it and the others are not below it, and a larger share never gives a
  smaller value, the rounding of the floating-point product included.
\<close>

theorem percentile_order_statistic:
  assumes "sort_slice_ok (<) srt" "co_lats c \<noteq> []" "length (co_lats c) < 2 ^ 53" "0 \<le> p" "p \<le> q" "q \<le> 1"
  shows "\<exists>d e. percentile (co_snapshot srt c) p = Val d \<and> percentile (co_snapshot srt c) q = Val e \<and> d \<le> e \<and> d \<in> set (co_lats c)
    \<and> percentile_idx (length (co_lats c)) p < int (length (filter (\<lambda>x. x \<le> d) (co_lats c)))
    \<and> int (length (co_lats c)) - percentile_idx (length (co_lats c)) p \<le> int (length (filter (\<lambda>x. d \<le> x) (co_lats c)))"
proof -
  let ?n = "length (co_lats c)" and ?xs = "sort (co_lats c)"
  let ?i = "percentile_idx ?n"
  have "0 < ?n" using assms(2) by simp
  then have n: "0 \<le> int ?n - 1" by linarith
  then have small: "\<bar>int ?n - 1\<bar> < 2 ^ 53" using assms(3) by simp
  have fn: "f_of_int (int ?n - 1) = of_int (int ?n - 1)" using small by (rule f_of_int_small)
  have idx: "0 \<le> ?i x" "?i x \<le> int ?n - 1" if "0 \<le> x" "x \<le> 1" for x
    using scaled_index [OF n _ that] small unfolding percentile_idx_def fn by auto
  have mono: "?i p \<le> ?i q"
    unfolding percentile_idx_def fn using assms(4,5) n by (intro int_of_f_mono f_mul_mono) (simp_all only: of_int_0_le_iff order_refl)
  have val: "percentile (co_snapshot srt c) x = Val (?xs ! nat (?i x))" if "0 \<le> x" "x \<le> 1" for x
    using idx [OF that] assms(2) by (auto simp: percentile_def co_snapshot_def sort_slice_linorder [OF assms(1)] go_index_def Let_def)
  have "nat (?i p) < length ?xs" "nat (?i q) < length ?xs" using idx [of p] idx [of q] assms(4,5,6) n by auto
  then have "?xs ! nat (?i p) \<le> ?xs ! nat (?i q)" "?xs ! nat (?i p) \<in> set (co_lats c)"
    using mono nth_mem [of "nat (?i p)" ?xs] by (auto intro: sorted_nth_mono simp: nat_mono)
  moreover obtain k where k: "?i p = int k" "k < ?n"
    using idx [of p] assms(4,5,6) \<open>0 < ?n\<close> by (metis nonneg_int_cases of_nat_less_iff order_trans zle_diff1_eq)
  moreover have "length (filter P ?xs) = length (filter P (co_lats c))" for P
    by (metis mset_filter mset_sort size_mset)
  then have "k + 1 \<le> length (filter (\<lambda>x. x \<le> ?xs ! k) (co_lats c))" "?n - k \<le> length (filter (\<lambda>x. ?xs ! k \<le> x) (co_lats c))"
    using sorted_nth_count [of ?xs k] k(2) by simp_all
  ultimately show ?thesis using val [of p] val [of q] assms(4,5,6) by auto
qed

theorem percentile_order_statistic_witness:
  "\<exists>d. percentile (co_snapshot (go_insertion_sort (<)) (pl_coll drained)) 0 = Val d \<and> d = 5"
proof -
  have "sort_slice_ok (<) (go_insertion_sort ((<) :: int \<Rightarrow> int \<Rightarrow> bool))" by (rule go_insertion_sort_ok) auto
  from percentile_order_statistic [OF this, of "pl_coll drained" 0 1] show ?thesis by (auto simp: drained_def)
qed

lemma dispatch_sent:
  assumes "base \<noteq> []"
  shows "\<exists>qs. dispatchQueries base False cnt i (map Sent rs) = Val qs
    \<and> qs = map (\<lambda>j. base ! (j mod length base)) [i..<i + (if cnt = 0 then length rs else min (length rs) (nat (cnt - int i)))]"
proof (induction rs arbitrary: i)
  case (Cons r rs)
  have "base ! (i mod length base) # map (\<lambda>j. base ! (j mod length base)) [i + 1..<i + 1 + k]
      = map (\<lambda>j. base ! (j mod length base)) [i..<i + Suc k]" for k
    using upt_conv_Cons [of i "i + Suc k"] by (simp del: upt_Suc)
  moreover have "min (length (r # rs)) (nat (cnt - int i)) = Suc (min (length rs) (nat (cnt - int (i + 1))))" if "int i < cnt"
  proof -
    have "nat (cnt - int i) = Suc (nat (cnt - int (i + 1)))" using that by simp
    then show ?thesis by simp
  qed
  ultimately show ?case
    using Cons [of "i + 1"] assms by (auto simp: turn_query_def Let_def simp del: upt_Suc)
qed simp

text \<open>
  The dispatcher sends the queries of the file in turn: when it is not stopped, a bounded run sends
  exactly as many as asked for, the i-th one for the entry at position i modulo the length of the
  list, and it never divides by zero, because an accepted set-up has at least one query.
\<close>

lemma dispatch_cycles:
  assumes "perf_setup L readFile f = Inr (base, cnt)" "0 < cnt" "nat cnt \<le> length rs"
  shows "dispatchQueries base False cnt 0 (map Sent rs) = Val (map (\<lambda>j. base ! (j mod length base)) [0..<nat cnt])"
  using dispatch_sent [OF perf_setup_nonempty [OF assms(1)], of cnt 0 rs] assms(2,3) by simp

lemma dispatch_cycles_example:
  "dispatchQueries [\<lparr>pq_name = ''a.'', pq_qtype = 1\<rparr>] False 3 0 (map Sent [1, 2, 3, 4])
   = Val (replicate 3 \<lparr>pq_name = ''a.'', pq_qtype = 1\<rparr>)"
proof -
  let ?f = "\<lparr>pf_concurrency = 1, pf_count = 3, pf_duration = 0, pf_file = [], pf_randomPrefix = ''a.'', pf_proto = ''udp''\<rparr>"
  have "perf_setup ref_dnslib (\<lambda>_. None) ?f = Inr ([\<lparr>pq_name = ''a.'', pq_qtype = 1\<rparr>], 3)"
    by (simp add: perf_setup_def perf_count_def ref_dnslib_def ref_Fqdn_def)
  from dispatch_cycles [OF this, of "[1, 2, 3, 4]"] show ?thesis by (simp add: numeral_3_eq_3)
qed

end
