(* ===== verification/Tui_Metrics.thy ===== *)
theory Tui_Metrics
  imports Go_Format
begin

text \<open>
  The metrics the terminal dashboard reads (src/tui/metrics.go): what it keeps of a scrape, the sums
  over labels, the differences between two scrapes and the quantile of a histogram.  The text format
  of Prometheus is parsed by a library; its metric families are the input here.  Values are finite
  floating-point numbers, a bucket bound may be infinite, and a map is an association list in the
  order in which it is iterated.
\<close>

section \<open>Samples\<close>

type_synonym labels = "(string \<times> string) list"

record metricSample =
  msLabels :: labels
  msValue :: rat

text \<open>The upper bound of a bucket.\<close>

datatype bound = Upper rat | PosInf

fun bound_less :: "bound \<Rightarrow> bound \<Rightarrow> bool" where
  "bound_less (Upper a) (Upper b) = (a < b)"
| "bound_less (Upper a) PosInf = True"
| "bound_less PosInf b = False"

instantiation bound :: linorder
begin

definition less_eq_bound :: "bound \<Rightarrow> bound \<Rightarrow> bool" where
  "less_eq_bound a b = (a = b \<or> bound_less a b)"

definition less_bound :: "bound \<Rightarrow> bound \<Rightarrow> bool" where
  "less_bound a b = bound_less a b"

instance
proof
  fix a b c :: bound
  show "(a < b) = (a \<le> b \<and> \<not> b \<le> a)" "a \<le> a" "a \<le> b \<or> b \<le> a"
    by (cases a; cases b; auto simp: less_bound_def less_eq_bound_def)+
  show "a \<le> b \<Longrightarrow> b \<le> c \<Longrightarrow> a \<le> c"
    by (cases a; cases b; cases c; auto simp: less_eq_bound_def)
  show "a \<le> b \<Longrightarrow> b \<le> a \<Longrightarrow> a = b"
    by (cases a; cases b; auto simp: less_eq_bound_def)
qed

end

record histogramSample =
  hsLabels :: labels
  hsCount :: rat
  hsSum :: rat
  hsBuckets :: "(bound \<times> rat) list"

type_synonym transitionKey = "string \<times> string"

record MetricsSnapshot =
  snAt :: int
  snGauges :: "string \<rightharpoonup> metricSample list"
  snCounters :: "string \<rightharpoonup> metricSample list"
  snHistograms :: "string \<rightharpoonup> histogramSample list"

section \<open>Reading a scrape\<close>

text \<open>What the parser of the library yields.\<close>

record pb_metric =
  pbLabels :: labels
  pbGauge :: rat
  pbCounter :: rat
  pbBuckets :: "(bound \<times> u64) list"
  pbSampleCount :: u64
  pbSampleSum :: rat

datatype pb_type = GAUGE | COUNTER | HISTOGRAM | OtherType

record pb_family =
  pbType :: pb_type
  pbMetrics :: "pb_metric list"

definition collectLabels :: "labels \<Rightarrow> labels" where
  "collectLabels ls = fold (\<lambda>(n, v) m. AList.update n v m) ls []"

definition collectScalarSamples :: "pb_family \<Rightarrow> bool \<Rightarrow> metricSample list" where
  "collectScalarSamples family gauge =
     map (\<lambda>metric. \<lparr>msLabels = collectLabels (pbLabels metric), msValue = (if gauge then pbGauge metric else pbCounter metric)\<rparr>) (pbMetrics family)"

definition collect_histogram :: "pb_metric \<Rightarrow> histogramSample" where
  "collect_histogram metric =
     (let buckets = fold (\<lambda>(u, n) m. AList.update u (f_of_int (uint n)) m) (pbBuckets metric) [];
          buckets = AList.update PosInf (f_of_int (uint (pbSampleCount metric))) buckets
      in \<lparr>hsLabels = collectLabels (pbLabels metric), hsCount = f_of_int (uint (pbSampleCount metric)), hsSum = pbSampleSum metric,
          hsBuckets = buckets\<rparr>)"

definition collectHistogramSamples :: "pb_family \<Rightarrow> histogramSample list" where
  "collectHistogramSamples family = map collect_histogram (pbMetrics family)"

definition samples_of :: "(string \<rightharpoonup> 'a list) \<Rightarrow> string \<Rightarrow> 'a list" where
  "samples_of m name = (case m name of None \<Rightarrow> [] | Some xs \<Rightarrow> xs)"

definition add_family :: "string \<times> pb_family \<Rightarrow> MetricsSnapshot \<Rightarrow> MetricsSnapshot" where
  "add_family = (\<lambda>(name, family) sn.
     case pbType family of
       GAUGE \<Rightarrow> sn\<lparr>snGauges := (snGauges sn)(name \<mapsto> samples_of (snGauges sn) name @ collectScalarSamples family True)\<rparr>
     | COUNTER \<Rightarrow> sn\<lparr>snCounters := (snCounters sn)(name \<mapsto> samples_of (snCounters sn) name @ collectScalarSamples family False)\<rparr>
     | HISTOGRAM \<Rightarrow> sn\<lparr>snHistograms := (snHistograms sn)(name \<mapsto> samples_of (snHistograms sn) name @ collectHistogramSamples family)\<rparr>
     | OtherType \<Rightarrow> sn)"

definition parseMetrics :: "int \<Rightarrow> (string \<times> pb_family) list option \<Rightarrow> MetricsSnapshot option" where
  "parseMetrics now families =
     map_option (\<lambda>fs. fold add_family fs \<lparr>snAt = now, snGauges = Map.empty, snCounters = Map.empty, snHistograms = Map.empty\<rparr>) families"

text \<open>A scrape: the status of the reply and its families, None where the request fails.\<close>

definition Scrape :: "int \<Rightarrow> (int \<times> (string \<times> pb_family) list option) option \<Rightarrow> MetricsSnapshot option" where
  "Scrape now reply =
     (case reply of
        None \<Rightarrow> None
      | Some (status, families) \<Rightarrow> if status \<noteq> 200 then None else map_option (snAt_update (\<lambda>_. now)) (parseMetrics now families))"

section \<open>Sums\<close>

definition aggregateSamples :: "MetricsSnapshot \<Rightarrow> string \<Rightarrow> metricSample list option" where
  "aggregateSamples s name = (case snCounters s name of Some xs \<Rightarrow> Some xs | None \<Rightarrow> snGauges s name)"

definition f_sum :: "rat list \<Rightarrow> rat" where
  "f_sum vs = fold (\<lambda>v total. f_add total v) vs 0"

definition sn_sum :: "MetricsSnapshot \<Rightarrow> string \<Rightarrow> rat option" where
  "sn_sum s name = map_option (\<lambda>samples. f_sum (map msValue samples)) (aggregateSamples s name)"

definition label_of :: "labels \<Rightarrow> string \<Rightarrow> string" where
  "label_of ls name = (case map_of ls name of None \<Rightarrow> [] | Some v \<Rightarrow> v)"

definition label_or_unknown :: "labels \<Rightarrow> string \<Rightarrow> string" where
  "label_or_unknown ls name = (let key = label_of ls name in if key = [] then ''unknown'' else key)"

definition sum_by :: "(metricSample \<Rightarrow> 'k) \<Rightarrow> metricSample list \<Rightarrow> ('k \<times> rat) list" where
  "sum_by key samples = fold (\<lambda>sample values. map_add_at f_add (key sample) (msValue sample) values) samples []"

definition sumByLabel :: "MetricsSnapshot \<Rightarrow> string \<Rightarrow> string \<Rightarrow> (string \<times> rat) list option" where
  "sumByLabel s name lab = map_option (sum_by (\<lambda>sample. label_or_unknown (msLabels sample) lab)) (aggregateSamples s name)"

definition sumByLabelPair :: "MetricsSnapshot \<Rightarrow> string \<Rightarrow> string \<Rightarrow> string \<Rightarrow> (transitionKey \<times> rat) list option" where
  "sumByLabelPair s name left right =
     map_option (sum_by (\<lambda>sample. (label_or_unknown (msLabels sample) left, label_or_unknown (msLabels sample) right))) (aggregateSamples s name)"

definition histogramBuckets :: "MetricsSnapshot \<Rightarrow> string \<Rightarrow> (bound \<times> rat) list option" where
  "histogramBuckets s name =
     map_option (\<lambda>hs. fold (\<lambda>h buckets. fold (\<lambda>(u, n) m. map_add_at f_add u n m) (hsBuckets h) buckets) hs []) (snHistograms s name)"

definition gaugeValue :: "MetricsSnapshot \<Rightarrow> string \<Rightarrow> rat option" where
  "gaugeValue s name = (case snGauges s name of None \<Rightarrow> None | Some [] \<Rightarrow> None | Some (x # _) \<Rightarrow> Some (msValue x))"

definition hasMetric :: "MetricsSnapshot \<Rightarrow> string \<Rightarrow> bool" where
  "hasMetric s name = (aggregateSamples s name \<noteq> None \<or> snHistograms s name \<noteq> None)"

section \<open>Differences\<close>

definition deltaFloat :: "rat \<Rightarrow> rat \<Rightarrow> rat" where
  "deltaFloat cur prev = (if cur < prev then 0 else f_add cur (- prev))"

definition deltaMap :: "('k \<times> rat) list \<Rightarrow> ('k \<times> rat) list \<Rightarrow> ('k \<times> rat) list" where
  "deltaMap cur prev = map (\<lambda>(key, value). (key, deltaFloat value (map_get prev key))) cur"

definition deltaTransitionMap :: "(transitionKey \<times> rat) list \<Rightarrow> (transitionKey \<times> rat) list \<Rightarrow> (transitionKey \<times> rat) list" where
  "deltaTransitionMap cur prev = map (\<lambda>(key, value). (key, deltaFloat value (map_get prev key))) cur"

definition deltaBuckets :: "(bound \<times> rat) list \<Rightarrow> (bound \<times> rat) list \<Rightarrow> (bound \<times> rat) list" where
  "deltaBuckets cur prev = map (\<lambda>(key, value). (key, deltaFloat value (map_get prev key))) cur"

section \<open>Quantiles\<close>

definition sortFloatKeys :: "(bound \<times> rat) list \<Rightarrow> bound list" where
  "sortFloatKeys values = sort (map fst values)"

fun quantile_loop :: "rat \<Rightarrow> (bound \<times> rat) list \<Rightarrow> rat \<Rightarrow> rat \<Rightarrow> bound list \<Rightarrow> rat option" where
  "quantile_loop target buckets prevUpper prevCount [] = None"
| "quantile_loop target buckets prevUpper prevCount (PosInf # keys) =
     (if target \<le> map_get buckets PosInf then Some prevUpper else None)"
| "quantile_loop target buckets prevUpper prevCount (Upper upper # keys) =
     (let cnt = map_get buckets (Upper upper)
      in if target \<le> cnt
         then let bucketCount = f_add cnt (- prevCount)
              in if bucketCount \<le> 0 then Some upper
                 else let position = f_div (f_add target (- prevCount)) bucketCount
                      in Some (f_add prevUpper (f_mul (f_add upper (- prevUpper)) position))
         else quantile_loop target buckets upper cnt keys)"

text \<open>The loop runs off its end only with a share above one; the last bound is returned then, and an
  infinite last bound ends the loop before.\<close>

definition histogramQuantile :: "rat \<Rightarrow> (bound \<times> rat) list \<Rightarrow> bound option" where
  "histogramQuantile q buckets =
     (if buckets = [] then None
      else let keys = sortFloatKeys buckets;
               total = map_get buckets (last keys)
           in if total \<le> 0 then None
              else case quantile_loop (f_mul q total) buckets 0 0 keys of
                Some v \<Rightarrow> Some (Upper v)
              | None \<Rightarrow> Some (last keys))"

section \<open>Labels\<close>

definition entry_less :: "('k \<Rightarrow> string) \<Rightarrow> 'k \<times> rat \<Rightarrow> 'k \<times> rat \<Rightarrow> bool" where
  "entry_less text a b = (if snd a = snd b then str_less (text (fst a)) (text (fst b)) else snd b < snd a)"

definition pickTopLabel :: "((string \<times> rat) list \<Rightarrow> (string \<times> rat) list) \<Rightarrow> (string \<times> rat) list \<Rightarrow> string \<times> rat" where
  "pickTopLabel srt values = (if values = [] then ([], 0) else hd (srt values))"

definition labelSignature :: "(string list \<Rightarrow> string list) \<Rightarrow> labels \<Rightarrow> string" where
  "labelSignature srt ls =
     (if ls = [] then []
      else strings_Join (map (\<lambda>key. key @ ''='' @ label_of ls key) (srt (map fst ls))) '','')"

section \<open>Lemmas\<close>

lemma bound_simps [simp]:
  "Upper a < Upper b \<longleftrightarrow> a < b" "Upper a < PosInf" "\<not> PosInf < x" "Upper a \<le> Upper b \<longleftrightarrow> a \<le> b" "x \<le> PosInf" "\<not> PosInf \<le> Upper a"
  by (auto simp: less_bound_def less_eq_bound_def) (cases x; simp)

definition small_nat :: "rat \<Rightarrow> bool" where
  "small_nat x \<longleftrightarrow> (\<exists>n. x = of_int n \<and> 0 \<le> n \<and> n < 2 ^ 53)"

definition bound_ok :: "bound \<Rightarrow> bool" where
  "bound_ok b \<longleftrightarrow> (case b of Upper x \<Rightarrow> small_nat x \<and> 0 < x | PosInf \<Rightarrow> True)"

lemma small_nat_diff: "small_nat a \<Longrightarrow> small_nat b \<Longrightarrow> b \<le> a \<Longrightarrow> f_add a (- b) = a - b \<and> small_nat (a - b)"
proof -
  assume "small_nat a" "small_nat b" "b \<le> a"
  then obtain m n where mn: "a = of_int m" "b = of_int n" "0 \<le> n" "n \<le> m" "m < 2 ^ 53" by (auto simp: small_nat_def)
  then have "a - b = of_int (m - n)" "0 \<le> m - n" "m - n < 2 ^ 53" by auto
  moreover from this have "fl (a - b) = a - b" using fl_of_int [of "m - n"] by simp
  ultimately show ?thesis unfolding small_nat_def f_add_def by (metis uminus_add_conv_diff add.commute)
qed

lemma fl_between: "small_nat a \<Longrightarrow> small_nat b \<Longrightarrow> a \<le> x \<Longrightarrow> x \<le> b \<Longrightarrow> a \<le> fl x \<and> fl x \<le> b"
  by (auto simp: small_nat_def intro: int_le_fl fl_le_int)

lemma small_nat_01 [simp]: "small_nat 0" "small_nat 1"
  unfolding small_nat_def by (rule exI [of _ 0], simp) (rule exI [of _ 1], simp)

text \<open>The interpolation stays within the bucket.\<close>

lemma interpolation_between:
  assumes "small_nat lo" "small_nat hi" "lo \<le> hi" "small_nat pc" "small_nat c" "pc \<le> t" "t \<le> c" "0 < f_add c (- pc)"
  shows "lo \<le> f_add lo (f_mul (f_add hi (- lo)) (f_div (f_add t (- pc)) (f_add c (- pc))))
    \<and> f_add lo (f_mul (f_add hi (- lo)) (f_div (f_add t (- pc)) (f_add c (- pc)))) \<le> hi"
proof -
  have pcc: "pc \<le> c" using assms(6,7) by simp
  note d = small_nat_diff [OF assms(5,4) pcc] and w = small_nat_diff [OF assms(2,1,3)]
  have x: "0 \<le> f_add t (- pc)" "f_add t (- pc) \<le> c - pc"
    using fl_between [of 0 "c - pc" "t - pc"] d assms(6,7) by (simp_all add: f_add_def)
  then have "0 \<le> f_add t (- pc) / (c - pc)" "f_add t (- pc) / (c - pc) \<le> 1" using assms(8) d by (simp_all add: divide_le_eq)
  then have p: "0 \<le> f_div (f_add t (- pc)) (c - pc)" "f_div (f_add t (- pc)) (c - pc) \<le> 1"
    using fl_between [of 0 1] by (simp_all add: f_div_def)
  have "0 \<le> f_mul (hi - lo) (f_div (f_add t (- pc)) (c - pc))" "f_mul (hi - lo) (f_div (f_add t (- pc)) (c - pc)) \<le> hi - lo"
    using fl_between [OF small_nat_01(1) conjunct2 [OF w], of "(hi - lo) * f_div (f_add t (- pc)) (c - pc)"] p assms(3)
    by (simp_all add: f_mul_def mult_left_le)
  then show ?thesis using fl_between [OF assms(1,2)] d w by (simp add: f_add_def [of lo])
qed

lemma quantile_loop_in_bucket:
  assumes "sorted keys" "distinct keys" "keys \<noteq> []" "\<forall>k\<in>set keys. bound_ok k \<and> small_nat (map_get buckets k) \<and> Upper lo < k"
    "small_nat lo" "small_nat pc" "pc \<le> t" "t \<le> map_get buckets (last keys)"
  shows "\<exists>v u. quantile_loop t buckets lo pc keys = Some v \<and> u \<in> set keys \<and> t \<le> map_get buckets u
    \<and> (\<forall>k\<in>set keys. k < u \<longrightarrow> map_get buckets k < t \<and> k \<le> Upper v) \<and> lo \<le> v \<and> Upper v \<le> u
    \<and> (u = PosInf \<longrightarrow> v = lo \<or> Upper v \<in> set keys)"
  using assms
proof (induction t buckets lo pc keys rule: quantile_loop.induct)
  case (2 t buckets lo pc keys)
  then have "keys = []" by (cases keys) (auto simp: less_eq_bound_def)
  then show ?case using 2 by auto
next
  case (3 t buckets lo pc u keys)
  let ?c = "map_get buckets (Upper u)"
  have u: "small_nat u" "lo \<le> u" "small_nat ?c" using 3(5) by (auto simp: bound_ok_def)
  have first: "\<not> k < Upper u" if "k \<in> set (Upper u # keys)" for k using 3(2) that by auto
  show ?case
  proof (cases "t \<le> ?c")
    case True
    then have "\<exists>v. quantile_loop t buckets lo pc (Upper u # keys) = Some v \<and> lo \<le> v \<and> v \<le> u"
      using interpolation_between [OF 3(6) u(1,2) 3(7) u(3) 3(8) True] u(2) by (simp add: Let_def)
    then obtain v where "quantile_loop t buckets lo pc (Upper u # keys) = Some v" "lo \<le> v" "v \<le> u" by blast
    then show ?thesis using True first by (intro exI [of _ v] exI [of _ "Upper u"]) auto
  next
    case False
    then have ne: "keys \<noteq> []" using 3(9) by (cases keys) auto
    have gt: "Upper u < k" if "k \<in> set keys" for k using 3(2,3) that by (metis distinct.simps(2) le_neq_trans sorted_simps(2))
    obtain v w where "quantile_loop t buckets u ?c keys = Some v" "w \<in> set keys" "t \<le> map_get buckets w"
        "\<forall>k\<in>set keys. k < w \<longrightarrow> map_get buckets k < t \<and> k \<le> Upper v" "u \<le> v" "Upper v \<le> w" "w = PosInf \<longrightarrow> v = u \<or> Upper v \<in> set keys"
      using 3(1) [OF refl False] 3(2,3,5,9) ne gt u False by auto
    then show ?thesis using False u(2) by (intro exI [of _ v] exI [of _ w]) (auto simp: Let_def)
  qed
qed simp

section \<open>Properties\<close>

text \<open>
  C33. The quantile of a histogram lies in the bucket that holds its rank: for buckets with whole-number
  bounds and counts, and a share between 0 and 1 of a positive total, there is a bucket whose count
  reaches the share of the total while the count of every smaller bucket does not, and the value
  returned is between the two bounds, the rounding of every floating-point step included; for the
  bucket without a bound it is a finite bound of the histogram or zero.
\<close>

theorem quantile_in_bucket:
  assumes "distinct (map fst buckets)" "\<forall>(k, n)\<in>set buckets. bound_ok k \<and> small_nat n" "0 \<le> q" "q \<le> 1"
    and total: "0 < map_get buckets (last (sortFloatKeys buckets))" (is "0 < ?total")
  shows "\<exists>v u. histogramQuantile q buckets = Some (Upper v) \<and> u \<in> fst ` set buckets \<and> f_mul q ?total \<le> map_get buckets u
    \<and> (\<forall>k\<in>fst ` set buckets. k < u \<longrightarrow> map_get buckets k < f_mul q ?total \<and> k \<le> Upper v)
    \<and> 0 \<le> v \<and> Upper v \<le> u \<and> (u = PosInf \<longrightarrow> v = 0 \<or> Upper v \<in> fst ` set buckets)"
proof -
  have ne: "buckets \<noteq> []" using total by (auto simp: map_get_def)
  have vals: "bound_ok k \<and> small_nat (map_get buckets k) \<and> Upper 0 < k" if "k \<in> fst ` set buckets" for k
    using that assms(1,2) by (cases k) (force simp: map_get_def bound_ok_def)+
  have keys: "sorted (sortFloatKeys buckets)" "distinct (sortFloatKeys buckets)" "sortFloatKeys buckets \<noteq> []"
      "set (sortFloatKeys buckets) = fst ` set buckets"
    using assms(1) ne by (auto simp: sortFloatKeys_def simp flip: set_empty)
  have "last (sortFloatKeys buckets) \<in> fst ` set buckets" using keys(3,4) last_in_set by blast
  then have "small_nat ?total" using vals by blast
  moreover have "0 \<le> q * ?total" "q * ?total \<le> ?total" using assms(3,4) total by (auto intro: mult_right_le_one_le)
  ultimately have t: "0 \<le> f_mul q ?total" "f_mul q ?total \<le> ?total"
    using fl_between [of 0 ?total] by (simp_all add: f_mul_def)
  have pos: "\<not> ?total \<le> 0" using total by simp
  have "\<forall>k\<in>set (sortFloatKeys buckets). bound_ok k \<and> small_nat (map_get buckets k) \<and> Upper 0 < k" using vals keys(4) by simp
  note loop = quantile_loop_in_bucket [OF keys(1,2,3) this small_nat_01(1,1) t, unfolded keys(4)]
  have "histogramQuantile q buckets = Some (Upper v)" if "quantile_loop (f_mul q ?total) buckets 0 0 (sortFloatKeys buckets) = Some v" for v
    using that ne pos by (simp add: histogramQuantile_def Let_def)
  with loop show ?thesis by blast
qed

definition example_buckets :: "(bound \<times> rat) list" where
  "example_buckets = [(PosInf, 4), (Upper 10, 1), (Upper 50, 3)]"

theorem quantile_in_bucket_witness:
  "\<exists>v u. histogramQuantile (1 / 2) example_buckets = Some (Upper v) \<and> u \<in> {PosInf, Upper 10, Upper 50} \<and> 0 \<le> v \<and> Upper v \<le> u"
proof -
  have ok: "small_nat 1" "small_nat 3" "small_nat 4" "small_nat 10" "small_nat 50"
    unfolding small_nat_def by (rule exI [of _ 1], simp) (rule exI [of _ 3], simp, rule exI [of _ 4], simp, rule exI [of _ 10], simp, rule exI [of _ 50], simp)
  have "sortFloatKeys example_buckets = [Upper 10, Upper 50, PosInf]" by (simp add: sortFloatKeys_def example_buckets_def)
  then have tot: "0 < map_get example_buckets (last (sortFloatKeys example_buckets))" by (simp add: example_buckets_def map_get_def)
  have "distinct (map fst example_buckets)" "\<forall>(k, n)\<in>set example_buckets. bound_ok k \<and> small_nat n"
    using ok by (auto simp: example_buckets_def bound_ok_def)
  from quantile_in_bucket [OF this _ _ tot, of "1 / 2"] show ?thesis by (auto simp: example_buckets_def)
qed

end
