(* ===== verification/Tui_Dashboard.thy ===== *)
theory Tui_Dashboard
  imports Tui_Metrics
begin

text \<open>
  What the terminal dashboard derives from two scrapes (src/tui/dashboard.go, src/tui/plain.go): the
  breakdowns by label and by transition, the dominant path of the state machine, the six panels with
  their status, the dashboard after a scrape and after a failed scrape, the totals since the start,
  and the formatting of numbers.  Sorting functions are arguments; a sort of entries promises what
  \<open>sort.Slice\<close> does.
\<close>

section \<open>Statuses and items\<close>

datatype panelStatus =
    statusOK | statusDegraded | statusDisabled | statusUnavailable | statusDisconnected | statusWarming | statusStale

fun status_text :: "panelStatus \<Rightarrow> string" where
  "status_text statusOK = ''OK''"
| "status_text statusDegraded = ''DEGRADED''"
| "status_text statusDisabled = ''DISABLED''"
| "status_text statusUnavailable = ''UNAVAILABLE''"
| "status_text statusDisconnected = ''DISCONNECTED''"
| "status_text statusWarming = ''WARMING''"
| "status_text statusStale = ''STALE''"

record BreakdownItem =
  biLabel :: string
  biRate :: rat
  biRatio :: rat
  biTotal :: rat

record TransitionBreakdownItem =
  tiFrom :: string
  tiTo :: string
  tiRate :: rat
  tiRatio :: rat
  tiTotal :: rat

record sorters =
  byLabel :: "(string \<times> rat) list \<Rightarrow> (string \<times> rat) list"
  byEdge :: "(transitionKey \<times> rat) list \<Rightarrow> (transitionKey \<times> rat) list"
  byText :: "string list \<Rightarrow> string list"

definition transitionEdgeLabel :: "string \<Rightarrow> string \<Rightarrow> string" where
  "transitionEdgeLabel frm to = frm @ '' -> '' @ to"

definition edge_text :: "transitionKey \<Rightarrow> string" where
  "edge_text k = transitionEdgeLabel (fst k) (snd k)"

definition sorters_ok :: "sorters \<Rightarrow> bool" where
  "sorters_ok S \<longleftrightarrow> sort_slice_ok (entry_less (\<lambda>k. k)) (byLabel S) \<and> sort_slice_ok (entry_less edge_text) (byEdge S)
     \<and> sort_slice_ok str_less (byText S)"

section \<open>Breakdowns\<close>

text \<open>The positive entries, their sum, and the largest of them.\<close>

definition positive :: "('k \<Rightarrow> bool) \<Rightarrow> ('k \<times> rat) list \<Rightarrow> ('k \<times> rat) list" where
  "positive keep values = filter (\<lambda>(key, value). 0 < value \<and> keep key) values"

definition ratio_of :: "rat \<Rightarrow> ('k \<times> rat) list \<Rightarrow> rat" where
  "ratio_of value entries = (let total = f_sum (map snd entries) in if 0 < total then f_div value total else 0)"

definition buildBreakdown :: "sorters \<Rightarrow> (string \<times> rat) list \<Rightarrow> rat \<Rightarrow> nat \<Rightarrow> BreakdownItem list" where
  "buildBreakdown S delta dt limit =
     (if delta = [] \<or> dt \<le> 0 \<or> limit = 0 then []
      else let entries = positive (\<lambda>_. True) delta
           in map (\<lambda>(key, value). \<lparr>biLabel = key, biRate = f_div value dt, biRatio = ratio_of value entries, biTotal = 0\<rparr>)
                (take limit (byLabel S entries)))"

definition buildTotalBreakdown :: "sorters \<Rightarrow> (string \<times> rat) list \<Rightarrow> nat \<Rightarrow> BreakdownItem list" where
  "buildTotalBreakdown S values limit =
     (if values = [] \<or> limit = 0 then []
      else let entries = positive (\<lambda>_. True) values
           in map (\<lambda>(key, value). \<lparr>biLabel = key, biRate = 0, biRatio = ratio_of value entries, biTotal = value\<rparr>)
                (take limit (byLabel S entries)))"

definition buildFilteredTransitionBreakdown ::
  "sorters \<Rightarrow> (transitionKey \<times> rat) list \<Rightarrow> rat \<Rightarrow> nat \<Rightarrow> (transitionKey \<Rightarrow> bool) \<Rightarrow> TransitionBreakdownItem list"
where
  "buildFilteredTransitionBreakdown S delta dt limit keep =
     (if delta = [] \<or> dt \<le> 0 \<or> limit = 0 then []
      else let entries = positive keep delta
           in map (\<lambda>(key, value). \<lparr>tiFrom = fst key, tiTo = snd key, tiRate = f_div value dt, tiRatio = ratio_of value entries, tiTotal = 0\<rparr>)
                (take limit (byEdge S entries)))"

definition buildTransitionBreakdown :: "sorters \<Rightarrow> (transitionKey \<times> rat) list \<Rightarrow> rat \<Rightarrow> nat \<Rightarrow> TransitionBreakdownItem list" where
  "buildTransitionBreakdown S delta dt limit = buildFilteredTransitionBreakdown S delta dt limit (\<lambda>_. True)"

definition buildTransitionTotalBreakdown :: "sorters \<Rightarrow> (transitionKey \<times> rat) list \<Rightarrow> nat \<Rightarrow> TransitionBreakdownItem list" where
  "buildTransitionTotalBreakdown S values limit =
     (if values = [] \<or> limit = 0 then []
      else let entries = positive (\<lambda>_. True) values
           in map (\<lambda>(key, value). \<lparr>tiFrom = fst key, tiTo = snd key, tiRate = 0, tiRatio = ratio_of value entries, tiTotal = value\<rparr>)
                (take limit (byEdge S entries)))"

definition isStateMachineTerminalNode :: "string \<Rightarrow> bool" where
  "isStateMachineTerminalNode name = (5 \<le> length name \<and> drop (length name - 5) name = ''_exit'')"

definition terminal_sums :: "(transitionKey \<times> rat) list \<Rightarrow> (string \<times> rat) list" where
  "terminal_sums delta =
     fold (\<lambda>(key, value) terminals.
       if value \<le> 0 \<or> \<not> isStateMachineTerminalNode (snd key) then terminals else map_add_at f_add (snd key) value terminals) delta []"

definition buildTerminalBreakdown :: "sorters \<Rightarrow> (transitionKey \<times> rat) list \<Rightarrow> rat \<Rightarrow> nat \<Rightarrow> BreakdownItem list" where
  "buildTerminalBreakdown S delta dt limit = buildBreakdown S (terminal_sums delta) dt limit"

definition buildTerminalTotalBreakdown :: "sorters \<Rightarrow> (transitionKey \<times> rat) list \<Rightarrow> nat \<Rightarrow> BreakdownItem list" where
  "buildTerminalTotalBreakdown S values limit = buildTotalBreakdown S (terminal_sums values) limit"

section \<open>The dominant path\<close>

record StateMachinePath =
  spSummary :: string
  spMainEdges :: "TransitionBreakdownItem list"
  spBranchPoint :: string
  spBranchOptions :: "TransitionBreakdownItem list"
  spAmbiguous :: bool

definition dominantStateMachineEdge :: "rat \<Rightarrow> rat \<Rightarrow> bool" where
  "dominantStateMachineEdge best next =
     (if next \<le> 0 then 0 < best else f_mul next (fl (12 / 10)) \<le> best \<and> 1 / 2 \<le> f_add best (- next))"

definition summarizeStateMachinePath :: "StateMachinePath \<Rightarrow> string" where
  "summarizeStateMachinePath path =
     (if spMainEdges path = [] \<and> spBranchPoint path = [] then []
      else let parts = (case spMainEdges path of [] \<Rightarrow> [] | e # _ \<Rightarrow> tiFrom e # map tiTo (spMainEdges path))
           in if spAmbiguous path
              then (if parts = [] then ''branching live path''
                    else strings_Join parts '' -> '' @ '' (branching at '' @ spBranchPoint path @ '')'')
              else strings_Join parts '' -> '')"

fun path_loop :: "sorters \<Rightarrow> (transitionKey \<times> rat) list \<Rightarrow> rat \<Rightarrow> nat \<Rightarrow> string \<Rightarrow> string list \<Rightarrow> StateMachinePath \<Rightarrow> StateMachinePath" where
  "path_loop S delta dt 0 now visited path = path"
| "path_loop S delta dt (Suc steps) now visited path =
     (case buildFilteredTransitionBreakdown S delta dt 4 (\<lambda>key. fst key = now) of
        [] \<Rightarrow> path
      | best # others \<Rightarrow>
          if others \<noteq> [] \<and> \<not> dominantStateMachineEdge (tiRate best) (tiRate (hd others))
          then path\<lparr>spBranchPoint := now, spBranchOptions := best # others, spAmbiguous := True\<rparr>
          else let path = path\<lparr>spMainEdges := spMainEdges path @ [best]\<rparr>
               in if isStateMachineTerminalNode (tiTo best) \<or> tiTo best \<in> set visited then path
                  else path_loop S delta dt steps (tiTo best) (tiTo best # visited) path)"

definition empty_path :: StateMachinePath where
  "empty_path = \<lparr>spSummary = [], spMainEdges = [], spBranchPoint = [], spBranchOptions = [], spAmbiguous = False\<rparr>"

definition buildStateMachinePath :: "sorters \<Rightarrow> (transitionKey \<times> rat) list \<Rightarrow> rat \<Rightarrow> StateMachinePath" where
  "buildStateMachinePath S delta dt =
     (let path = path_loop S delta dt 12 ''state_init'' [''state_init''] empty_path
      in path\<lparr>spSummary := summarizeStateMachinePath path\<rparr>)"

definition stateMachineFailureExit :: "string \<Rightarrow> string" where
  "stateMachineFailureExit reason =
     (if strings_Contains reason ''formerr'' then ''formerr_exit''
      else if strings_Contains reason ''servfail'' then ''servfail_exit''
      else if strings_Contains reason ''max_iterations'' then ''max_iterations_exit''
      else if strings_Contains reason ''query_upstream_error'' then ''servfail_exit''
      else ''error_exit'')"

record StateMachineFailureContext =
  fcReason :: string
  fcExit :: string
  fcRate :: rat

definition buildStateMachineFailureContexts :: "BreakdownItem list \<Rightarrow> StateMachineFailureContext list" where
  "buildStateMachineFailureContexts failures =
     map (\<lambda>item. \<lparr>fcReason = biLabel item, fcExit = stateMachineFailureExit (biLabel item), fcRate = biRate item\<rparr>) failures"

section \<open>Formatting\<close>

text \<open>Values are finite, so the guards for other numbers do not arise.\<close>

definition tui_percent :: "rat \<Rightarrow> string" where "tui_percent value = fmt_fixed 1 (f_mul value 100) @ ''%''"
definition tui_rate :: "rat \<Rightarrow> string" where "tui_rate value = fmt_fixed 1 value @ ''/s''"
definition tui_number :: "rat \<Rightarrow> string" where "tui_number value = (if 1000 \<le> value then fmt_fixed 0 value else fmt_fixed 1 value)"
definition tui_latency :: "rat \<Rightarrow> string" where "tui_latency value = (if value \<le> 0 then ''--'' else fmt_fixed 1 value @ ''ms'')"

text \<open>\<open>math.Round\<close> rounds half away from zero.\<close>

definition math_Round :: "rat \<Rightarrow> rat" where
  "math_Round x = (if x < 0 then - of_int \<lfloor>- x + 1 / 2\<rfloor> else of_int \<lfloor>x + 1 / 2\<rfloor>)"

definition tui_count :: "rat \<Rightarrow> string" where
  "tui_count value =
     (if \<bar>f_add value (- math_Round value)\<bar> < fl (1 / 1000000) then fmt_fixed 0 (math_Round value) else fmt_fixed 1 value)"

section \<open>Panels\<close>

definition or_nil :: "'a list option \<Rightarrow> 'a list" where
  "or_nil x = (case x of None \<Rightarrow> [] | Some xs \<Rightarrow> xs)"

definition or_zero :: "rat option \<Rightarrow> rat" where
  "or_zero x = (case x of None \<Rightarrow> 0 | Some v \<Rightarrow> v)"

text \<open>The difference of a labelled counter, None where the current scrape lacks it.\<close>

definition label_delta :: "MetricsSnapshot \<Rightarrow> MetricsSnapshot \<Rightarrow> string \<Rightarrow> string \<Rightarrow> (string \<times> rat) list option" where
  "label_delta p cur name lab = map_option (\<lambda>c. deltaMap c (or_nil (sumByLabel p name lab))) (sumByLabel cur name lab)"

definition quantile_ms :: "(bound \<times> rat) list \<Rightarrow> rat" where
  "quantile_ms buckets = (case histogramQuantile (fl (99 / 100)) buckets of Some (Upper v) \<Rightarrow> v | _ \<Rightarrow> 0)"

record TrafficPanel =
  tpStatus :: panelStatus
  tpQPS :: rat
  tpP99MS :: rat
  tpServfailRatio :: rat
  tpNXDomainRatio :: rat
  tpNoErrorRatio :: rat
  tpResponseCodes :: "BreakdownItem list"

definition traffic_only :: "panelStatus \<Rightarrow> TrafficPanel" where
  "traffic_only st = \<lparr>tpStatus = st, tpQPS = 0, tpP99MS = 0, tpServfailRatio = 0, tpNXDomainRatio = 0, tpNoErrorRatio = 0, tpResponseCodes = []\<rparr>"

definition buildTrafficPanel :: "sorters \<Rightarrow> MetricsSnapshot option \<Rightarrow> MetricsSnapshot \<Rightarrow> rat \<Rightarrow> TrafficPanel" where
  "buildTrafficPanel S prev cur dt =
     (if \<not> hasMetric cur ''rec53_query_counter'' \<or> \<not> hasMetric cur ''rec53_response_counter'' \<or> \<not> hasMetric cur ''rec53_latency''
      then traffic_only statusUnavailable
      else if prev = None \<or> dt = 0 then traffic_only statusWarming
      else let p = the prev;
               qps = (case (sn_sum cur ''rec53_query_counter'', sn_sum p ''rec53_query_counter'') of
                        (Some c, Some q) \<Rightarrow> f_div (deltaFloat c q) dt | _ \<Rightarrow> 0);
               resp = label_delta p cur ''rec53_response_counter'' ''code'';
               codes = (case resp of None \<Rightarrow> [] | Some d \<Rightarrow> buildBreakdown S d dt 4);
               total = f_sum (map snd (or_nil resp));
               share = (\<lambda>code. if 0 < total then f_div (map_get (or_nil resp) code) total else 0);
               p99 = (case histogramBuckets cur ''rec53_latency'' of
                        None \<Rightarrow> 0
                      | Some bs \<Rightarrow> quantile_ms (deltaBuckets bs (or_nil (histogramBuckets p ''rec53_latency''))))
           in \<lparr>tpStatus = (if fl (5 / 100) \<le> share ''SERVFAIL'' \<or> 1000 \<le> p99 then statusDegraded else statusOK),
               tpQPS = qps, tpP99MS = p99, tpServfailRatio = share ''SERVFAIL'', tpNXDomainRatio = share ''NXDOMAIN'',
               tpNoErrorRatio = share ''NOERROR'', tpResponseCodes = codes\<rparr>)"

record CachePanel =
  cpStatus :: panelStatus
  cpHitRatio :: rat
  cpPositiveHitRate :: rat
  cpNegativeHitRate :: rat
  cpDelegationRate :: rat
  cpMissRate :: rat
  cpEntries :: rat
  cpLifecycle :: string
  cpResults :: "BreakdownItem list"

definition cache_only :: "panelStatus \<Rightarrow> CachePanel" where
  "cache_only st = \<lparr>cpStatus = st, cpHitRatio = 0, cpPositiveHitRate = 0, cpNegativeHitRate = 0, cpDelegationRate = 0, cpMissRate = 0,
     cpEntries = 0, cpLifecycle = [], cpResults = []\<rparr>"

definition buildCachePanel :: "sorters \<Rightarrow> MetricsSnapshot option \<Rightarrow> MetricsSnapshot \<Rightarrow> rat \<Rightarrow> CachePanel" where
  "buildCachePanel S prev cur dt =
     (if \<not> hasMetric cur ''rec53_cache_lookup_total'' \<or> \<not> hasMetric cur ''rec53_cache_entries'' then cache_only statusUnavailable
      else let panel = (cache_only statusWarming)\<lparr>cpEntries := or_zero (gaugeValue cur ''rec53_cache_entries'')\<rparr>
           in if prev = None \<or> dt = 0 then panel
              else let p = the prev;
                       delta = label_delta p cur ''rec53_cache_lookup_total'' ''result'';
                       d = or_nil delta;
                       rate_of = (\<lambda>r. if delta = None then 0 else f_div (map_get d r) dt);
                       total = f_sum (map snd d);
                       hits = f_add (f_add (map_get d ''positive_hit'') (map_get d ''negative_hit'')) (map_get d ''delegation_hit'');
                       hitRatio = (if 0 < total then f_div hits total else 0);
                       lifecycle = (case label_delta p cur ''rec53_cache_lifecycle_total'' ''event'' of
                          None \<Rightarrow> ''steady''
                        | Some ev \<Rightarrow> (let (top, value) = pickTopLabel (byLabel S) ev
                                     in if top \<noteq> [] \<and> 0 < value then top @ '' '' @ fmt_fixed 1 (f_div value dt) @ ''/s'' else ''steady''))
                   in panel\<lparr>cpStatus := (if 0 < rate_of ''miss'' \<and> hitRatio < 1 / 2 then statusDegraded else statusOK),
                            cpHitRatio := hitRatio, cpPositiveHitRate := rate_of ''positive_hit'', cpNegativeHitRate := rate_of ''negative_hit'',
                            cpDelegationRate := rate_of ''delegation_hit'', cpMissRate := rate_of ''miss'', cpLifecycle := lifecycle,
                            cpResults := (case delta of None \<Rightarrow> [] | Some d \<Rightarrow> buildBreakdown S d dt 4)\<rparr>)"

record SnapshotPanel =
  npStatus :: panelStatus
  npLoadSuccess :: rat
  npLoadFailure :: rat
  npImported :: rat
  npSkippedExpired :: rat
  npSkippedCorrupt :: rat
  npSaveSuccess :: rat
  npDurationP99MS :: rat

definition snapshot_only :: "panelStatus \<Rightarrow> SnapshotPanel" where
  "snapshot_only st = \<lparr>npStatus = st, npLoadSuccess = 0, npLoadFailure = 0, npImported = 0, npSkippedExpired = 0, npSkippedCorrupt = 0,
     npSaveSuccess = 0, npDurationP99MS = 0\<rparr>"

definition add_operation :: "metricSample \<Rightarrow> SnapshotPanel \<Rightarrow> SnapshotPanel" where
  "add_operation sample panel =
     (let op = label_of (msLabels sample) ''operation''; res = label_of (msLabels sample) ''result''
      in if op = ''load''
         then (if res = ''success'' then panel\<lparr>npLoadSuccess := f_add (npLoadSuccess panel) (msValue sample)\<rparr>
               else if res = ''failure'' then panel\<lparr>npLoadFailure := f_add (npLoadFailure panel) (msValue sample)\<rparr>
               else panel)
         else if op = ''save'' \<and> res = ''success'' then panel\<lparr>npSaveSuccess := f_add (npSaveSuccess panel) (msValue sample)\<rparr>
         else panel)"

definition snapshot_failures :: "sorters \<Rightarrow> metricSample list \<Rightarrow> metricSample list \<Rightarrow> rat" where
  "snapshot_failures S before now =
     (let signature = (\<lambda>sample. labelSignature (byText S) (msLabels sample));
          previous = fold (\<lambda>sample m. AList.update (signature sample) (msValue sample) m) before []
      in f_sum (map (\<lambda>sample. deltaFloat (msValue sample) (map_get previous (signature sample)))
           (filter (\<lambda>sample. label_of (msLabels sample) ''result'' = ''failure'') now)))"

definition buildSnapshotPanel :: "sorters \<Rightarrow> MetricsSnapshot option \<Rightarrow> MetricsSnapshot \<Rightarrow> rat \<Rightarrow> SnapshotPanel" where
  "buildSnapshotPanel S prev cur dt =
     (if \<not> hasMetric cur ''rec53_snapshot_operations_total'' \<or> \<not> hasMetric cur ''rec53_snapshot_entries_total''
      then snapshot_only statusUnavailable
      else let operations = snCounters cur ''rec53_snapshot_operations_total'';
               panel = fold add_operation (or_nil operations) (snapshot_only statusWarming);
               panel = (case sumByLabel cur ''rec53_snapshot_entries_total'' ''result'' of
                          None \<Rightarrow> panel
                        | Some entries \<Rightarrow>
                            let panel = panel\<lparr>npImported := map_get entries ''imported'', npSkippedExpired := map_get entries ''skipped_expired'',
                                              npSkippedCorrupt := map_get entries ''skipped_corrupt''\<rparr>
                            in if npSaveSuccess panel = 0 then panel\<lparr>npSaveSuccess := map_get entries ''saved''\<rparr> else panel);
               panel = (case histogramBuckets cur ''rec53_snapshot_duration_ms'' of
                          None \<Rightarrow> panel
                        | Some bs \<Rightarrow> panel\<lparr>npDurationP99MS := quantile_ms bs\<rparr>)
           in if prev = None \<or> dt = 0 then panel
              else if operations \<noteq> None \<and>
                      0 < snapshot_failures S (samples_of (snCounters (the prev)) ''rec53_snapshot_operations_total'') (the operations)
              then panel\<lparr>npStatus := statusDegraded\<rparr> else panel\<lparr>npStatus := statusOK\<rparr>)"

record UpstreamPanel =
  upStatus :: panelStatus
  upTimeoutRate :: rat
  upBadRcodeRate :: rat
  upFallbackRate :: rat
  upWinner :: string
  upWinnerRate :: rat
  upDominantReason :: string
  upFailureReasons :: "BreakdownItem list"
  upWinners :: "BreakdownItem list"

definition upstream_only :: "panelStatus \<Rightarrow> UpstreamPanel" where
  "upstream_only st = \<lparr>upStatus = st, upTimeoutRate = 0, upBadRcodeRate = 0, upFallbackRate = 0, upWinner = [], upWinnerRate = 0,
     upDominantReason = [], upFailureReasons = [], upWinners = []\<rparr>"

definition top_label :: "BreakdownItem list \<Rightarrow> string" where
  "top_label items = (case items of [] \<Rightarrow> [] | i # _ \<Rightarrow> biLabel i)"

definition top_rate :: "BreakdownItem list \<Rightarrow> rat" where
  "top_rate items = (case items of [] \<Rightarrow> 0 | i # _ \<Rightarrow> biRate i)"

text \<open>The rate of a counter summed over its labels; a counter the previous scrape lacks counts from 0.\<close>

definition sum_rate :: "MetricsSnapshot \<Rightarrow> MetricsSnapshot \<Rightarrow> rat \<Rightarrow> string \<Rightarrow> rat" where
  "sum_rate p cur dt name =
     (case sn_sum cur name of None \<Rightarrow> 0 | Some c \<Rightarrow> f_div (deltaFloat c (or_zero (sn_sum p name))) dt)"

definition buildUpstreamPanel :: "sorters \<Rightarrow> MetricsSnapshot option \<Rightarrow> MetricsSnapshot \<Rightarrow> rat \<Rightarrow> UpstreamPanel" where
  "buildUpstreamPanel S prev cur dt =
     (if \<not> hasMetric cur ''rec53_upstream_failures_total'' \<or> \<not> hasMetric cur ''rec53_upstream_fallback_total''
         \<or> \<not> hasMetric cur ''rec53_upstream_winner_total''
      then upstream_only statusUnavailable
      else if prev = None \<or> dt = 0 then upstream_only statusWarming
      else let p = the prev;
               failures = label_delta p cur ''rec53_upstream_failures_total'' ''reason'';
               rate_of = (\<lambda>r. case failures of None \<Rightarrow> 0 | Some d \<Rightarrow> f_div (map_get d r) dt);
               reasons = (case failures of None \<Rightarrow> [] | Some d \<Rightarrow> buildBreakdown S d dt 4);
               fallback = sum_rate p cur dt ''rec53_upstream_fallback_total'';
               winners = (case label_delta p cur ''rec53_upstream_winner_total'' ''path'' of None \<Rightarrow> [] | Some d \<Rightarrow> buildBreakdown S d dt 3)
           in \<lparr>upStatus = (if 0 < rate_of ''timeout'' \<or> 0 < rate_of ''bad_rcode'' \<or> 0 < fallback then statusDegraded else statusOK),
               upTimeoutRate = rate_of ''timeout'', upBadRcodeRate = rate_of ''bad_rcode'', upFallbackRate = fallback,
               upWinner = top_label winners, upWinnerRate = top_rate winners, upDominantReason = top_label reasons,
               upFailureReasons = reasons, upWinners = winners\<rparr>)"

record XDPPanel =
  xpStatus :: panelStatus
  xpMode :: string
  xpHitRatio :: rat
  xpSyncErrorRate :: rat
  xpCleanupRate :: rat
  xpEntries :: rat
  xpPassRate :: rat
  xpErrorRate :: rat

definition xdp_only :: "panelStatus \<Rightarrow> string \<Rightarrow> XDPPanel" where
  "xdp_only st mode = \<lparr>xpStatus = st, xpMode = mode, xpHitRatio = 0, xpSyncErrorRate = 0, xpCleanupRate = 0, xpEntries = 0, xpPassRate = 0, xpErrorRate = 0\<rparr>"

definition gauge_delta :: "MetricsSnapshot \<Rightarrow> MetricsSnapshot \<Rightarrow> string \<Rightarrow> rat option" where
  "gauge_delta p cur name = map_option (\<lambda>c. deltaFloat c (or_zero (gaugeValue p name))) (gaugeValue cur name)"

definition buildXDPPanel :: "MetricsSnapshot option \<Rightarrow> MetricsSnapshot \<Rightarrow> rat \<Rightarrow> XDPPanel" where
  "buildXDPPanel prev cur dt =
     (case gaugeValue cur ''rec53_xdp_status'' of
        None \<Rightarrow> xdp_only statusUnavailable ''unavailable''
      | Some status \<Rightarrow>
          if status < 1 then xdp_only statusDisabled ''disabled''
          else let panel = (xdp_only statusWarming ''active'')\<lparr>xpEntries := or_zero (gaugeValue cur ''rec53_xdp_entries'')\<rparr>
               in if prev = None \<or> dt = 0 then panel
                  else let p = the prev;
                           ratio = (case (gauge_delta p cur ''rec53_xdp_cache_hits_total'', gauge_delta p cur ''rec53_xdp_cache_misses_total'') of
                              (Some h, Some m) \<Rightarrow> if 0 < f_add h m then f_div h (f_add h m) else 0 | _ \<Rightarrow> 0);
                           pass = (case gauge_delta p cur ''rec53_xdp_pass_total'' of None \<Rightarrow> 0 | Some d \<Rightarrow> f_div d dt);
                           err = (case gauge_delta p cur ''rec53_xdp_errors_total'' of None \<Rightarrow> 0 | Some d \<Rightarrow> f_div d dt);
                           sync = sum_rate p cur dt ''rec53_xdp_cache_sync_errors_total''
                       in panel\<lparr>xpStatus := (if 0 < sync \<or> 0 < err then statusDegraded else statusOK), xpHitRatio := ratio,
                                xpSyncErrorRate := sync, xpCleanupRate := sum_rate p cur dt ''rec53_xdp_cleanup_deleted_total'',
                                xpPassRate := pass, xpErrorRate := err\<rparr>)"

record StateMachinePanel =
  mpStatus :: panelStatus
  mpTopStage :: string
  mpTopStageRate :: rat
  mpTopTerminal :: string
  mpTopTerminalRate :: rat
  mpTopFailure :: string
  mpTopFailureRate :: rat
  mpSecondFailure :: string
  mpSecondFailureRate :: rat
  mpTerminals :: "BreakdownItem list"
  mpTerminalTotals :: "BreakdownItem list"
  mpDominantPath :: StateMachinePath
  mpPathSummary :: string
  mpStages :: "BreakdownItem list"
  mpFailures :: "BreakdownItem list"
  mpLiveEdges :: "TransitionBreakdownItem list"
  mpLiveTerminals :: "TransitionBreakdownItem list"
  mpSinceStartEdges :: "TransitionBreakdownItem list"
  mpFailureContexts :: "StateMachineFailureContext list"

definition machine_only :: "panelStatus \<Rightarrow> StateMachinePanel" where
  "machine_only st = \<lparr>mpStatus = st, mpTopStage = [], mpTopStageRate = 0, mpTopTerminal = [], mpTopTerminalRate = 0, mpTopFailure = [],
     mpTopFailureRate = 0, mpSecondFailure = [], mpSecondFailureRate = 0, mpTerminals = [], mpTerminalTotals = [], mpDominantPath = empty_path,
     mpPathSummary = [], mpStages = [], mpFailures = [], mpLiveEdges = [], mpLiveTerminals = [], mpSinceStartEdges = [], mpFailureContexts = []\<rparr>"

definition machine_transitions :: "sorters \<Rightarrow> MetricsSnapshot \<Rightarrow> MetricsSnapshot \<Rightarrow> rat \<Rightarrow> StateMachinePanel \<Rightarrow> StateMachinePanel" where
  "machine_transitions S p cur dt panel =
     (case sumByLabelPair cur ''rec53_state_machine_transition_total'' ''from'' ''to'' of
        None \<Rightarrow> panel
      | Some transitions \<Rightarrow>
          let delta = deltaTransitionMap transitions (or_nil (sumByLabelPair p ''rec53_state_machine_transition_total'' ''from'' ''to''));
              terminals = buildTerminalBreakdown S delta dt 4;
              path = buildStateMachinePath S delta dt
          in panel\<lparr>mpLiveEdges := buildTransitionBreakdown S delta dt 6, mpTerminals := terminals,
                   mpLiveTerminals := buildFilteredTransitionBreakdown S delta dt 3 (\<lambda>key. isStateMachineTerminalNode (snd key)),
                   mpTerminalTotals := buildTerminalTotalBreakdown S transitions 4,
                   mpSinceStartEdges := buildTransitionTotalBreakdown S transitions 5,
                   mpDominantPath := path, mpPathSummary := spSummary path,
                   mpTopTerminal := top_label terminals, mpTopTerminalRate := top_rate terminals\<rparr>)"

definition buildStateMachinePanel :: "sorters \<Rightarrow> MetricsSnapshot option \<Rightarrow> MetricsSnapshot \<Rightarrow> rat \<Rightarrow> StateMachinePanel" where
  "buildStateMachinePanel S prev cur dt =
     (if \<not> hasMetric cur ''rec53_state_machine_stage_total'' \<or> \<not> hasMetric cur ''rec53_state_machine_transition_total''
      then machine_only statusUnavailable
      else let panel = (case sumByLabelPair cur ''rec53_state_machine_transition_total'' ''from'' ''to'' of
                 None \<Rightarrow> machine_only statusWarming
               | Some transitions \<Rightarrow> (machine_only statusWarming)\<lparr>mpTerminalTotals := buildTerminalTotalBreakdown S transitions 4,
                     mpSinceStartEdges := buildTransitionTotalBreakdown S transitions 5\<rparr>)
           in if prev = None \<or> dt = 0 then panel
              else let p = the prev;
                       stages = (case label_delta p cur ''rec53_state_machine_stage_total'' ''stage'' of None \<Rightarrow> [] | Some d \<Rightarrow> buildBreakdown S d dt 5);
                       failures = (case label_delta p cur ''rec53_state_machine_failures_total'' ''reason'' of None \<Rightarrow> [] | Some d \<Rightarrow> buildBreakdown S d dt 5);
                       panel = panel\<lparr>mpStages := stages, mpTopStage := top_label stages, mpTopStageRate := top_rate stages,
                                     mpFailures := failures, mpTopFailure := top_label failures, mpTopFailureRate := top_rate failures,
                                     mpSecondFailure := top_label (tl failures), mpSecondFailureRate := top_rate (tl failures)\<rparr>;
                       panel = machine_transitions S p cur dt panel;
                       panel = panel\<lparr>mpFailureContexts := buildStateMachineFailureContexts (mpFailures panel)\<rparr>
                   in panel\<lparr>mpStatus := (if 0 < mpTopFailureRate panel \<or>
                          (0 < mpTopTerminalRate panel \<and> mpTopTerminal panel \<noteq> [] \<and> mpTopTerminal panel \<noteq> ''success_exit'')
                        then statusDegraded else statusOK)\<rparr>)"

section \<open>The dashboard\<close>

text \<open>\<open>dbLastSuccess\<close> is None for the zero time.\<close>

record Dashboard =
  dbTarget :: string
  dbMode :: panelStatus
  dbLastUpdate :: int
  dbLastSuccess :: "int option"
  dbScrapeDuration :: int
  dbLastError :: string
  dbOverallSummary :: string
  dbCurrentSnapshot :: "MetricsSnapshot option"
  dbTraffic :: TrafficPanel
  dbCache :: CachePanel
  dbSnapshot :: SnapshotPanel
  dbUpstream :: UpstreamPanel
  dbXDP :: XDPPanel
  dbStateMachine :: StateMachinePanel

definition all_panels :: "panelStatus \<Rightarrow> string \<Rightarrow> Dashboard" where
  "all_panels st target = \<lparr>dbTarget = target, dbMode = st, dbLastUpdate = 0, dbLastSuccess = None, dbScrapeDuration = 0, dbLastError = [],
     dbOverallSummary = [], dbCurrentSnapshot = None, dbTraffic = traffic_only st, dbCache = cache_only st, dbSnapshot = snapshot_only st,
     dbUpstream = upstream_only st, dbXDP = xdp_only st [], dbStateMachine = machine_only st\<rparr>"

definition buildOverallSummary :: "Dashboard \<Rightarrow> string" where
  "buildOverallSummary d =
     strings_Join (map (\<lambda>(name, status). name @ '' '' @ status_text status)
       [(''TRAFFIC'', tpStatus (dbTraffic d)), (''CACHE'', cpStatus (dbCache d)), (''SNAPSHOT'', npStatus (dbSnapshot d)),
        (''UPSTREAM'', upStatus (dbUpstream d)), (''XDP'', xpStatus (dbXDP d)), (''SM'', mpStatus (dbStateMachine d))]) '' | ''"

text \<open>\<open>Duration.Seconds\<close>.\<close>

definition seconds :: "int \<Rightarrow> rat" where
  "seconds d = (let sec = go_div d 1000000000 in f_add (f_of_int sec) (f_div (f_of_int (d - sec * 1000000000)) (f_of_int 1000000000)))"

definition scrape_gap :: "MetricsSnapshot option \<Rightarrow> MetricsSnapshot \<Rightarrow> rat" where
  "scrape_gap prev cur = (case prev of None \<Rightarrow> 0 | Some p \<Rightarrow> let dt = seconds (snAt cur - snAt p) in if dt \<le> 0 then 0 else dt)"

definition deriveDashboard ::
  "sorters \<Rightarrow> int \<Rightarrow> string \<Rightarrow> MetricsSnapshot option \<Rightarrow> MetricsSnapshot option \<Rightarrow> int \<Rightarrow> Dashboard"
where
  "deriveDashboard S now target prev cur scrapeDuration =
     (case cur of
        None \<Rightarrow> (all_panels statusDisconnected target)\<lparr>dbLastUpdate := now, dbLastSuccess := Some now, dbScrapeDuration := scrapeDuration,
                  dbOverallSummary := ''target unreachable''\<rparr>
      | Some c \<Rightarrow>
          let dt = scrape_gap prev c;
              d = \<lparr>dbTarget = target, dbMode = (if prev = None then statusWarming else statusOK), dbLastUpdate = now, dbLastSuccess = Some (snAt c),
                   dbScrapeDuration = scrapeDuration, dbLastError = [], dbOverallSummary = [], dbCurrentSnapshot = Some c,
                   dbTraffic = buildTrafficPanel S prev c dt, dbCache = buildCachePanel S prev c dt, dbSnapshot = buildSnapshotPanel S prev c dt,
                   dbUpstream = buildUpstreamPanel S prev c dt, dbXDP = buildXDPPanel prev c dt, dbStateMachine = buildStateMachinePanel S prev c dt\<rparr>
          in d\<lparr>dbOverallSummary := buildOverallSummary d\<rparr>)"

definition withScrapeError :: "int \<Rightarrow> Dashboard \<Rightarrow> string \<Rightarrow> Dashboard" where
  "withScrapeError now prev err =
     (if dbLastSuccess prev = None
      then (all_panels statusDisconnected (dbTarget prev))\<lparr>dbLastUpdate := now, dbLastError := err, dbOverallSummary := ''DISCONNECTED: '' @ err\<rparr>
      else prev\<lparr>dbMode := statusStale, dbLastUpdate := now, dbLastError := err, dbOverallSummary := ''STALE: '' @ err\<rparr>)"

text \<open>The loop of both front ends: each turn scrapes and shows a dashboard.  An element of the list is the
  time of the turn and what the scrape gives.\<close>

fun scrape_loop :: "sorters \<Rightarrow> string \<Rightarrow> MetricsSnapshot option \<Rightarrow> Dashboard \<Rightarrow> (int \<times> (string + MetricsSnapshot \<times> int)) list \<Rightarrow> Dashboard list" where
  "scrape_loop S target previous latest [] = []"
| "scrape_loop S target previous latest ((now, Inl err) # turns) =
     (let d = withScrapeError now latest err in d # scrape_loop S target previous d turns)"
| "scrape_loop S target previous latest ((now, Inr (snap, dur)) # turns) =
     (let d = deriveDashboard S now target previous (Some snap) dur in d # scrape_loop S target (Some snap) d turns)"

definition run_dashboards :: "sorters \<Rightarrow> int \<Rightarrow> string \<Rightarrow> (int \<times> (string + MetricsSnapshot \<times> int)) list \<Rightarrow> Dashboard list" where
  "run_dashboards S now target turns =
     (let d = deriveDashboard S now target None None 0 in d # scrape_loop S target None d turns)"

section \<open>Totals since the start\<close>

definition detailMetricLine :: "string \<Rightarrow> string \<Rightarrow> string" where
  "detailMetricLine lab value = ''  '' @ pad_right 16 lab @ '' '' @ value"

definition total_line :: "MetricsSnapshot \<Rightarrow> string \<Rightarrow> string \<Rightarrow> string list" where
  "total_line s name lab = (case sn_sum s name of None \<Rightarrow> [] | Some tot \<Rightarrow> [detailMetricLine lab (tui_count tot)])"

definition buildTrafficSinceStartMetrics :: "MetricsSnapshot \<Rightarrow> string list" where
  "buildTrafficSinceStartMetrics s = total_line s ''rec53_query_counter'' ''queries total'' @ total_line s ''rec53_response_counter'' ''responses total''"

definition buildCacheSinceStartMetrics :: "MetricsSnapshot \<Rightarrow> string list" where
  "buildCacheSinceStartMetrics s = total_line s ''rec53_cache_lookup_total'' ''lookups total''"

definition buildUpstreamSinceStartMetrics :: "MetricsSnapshot \<Rightarrow> string list" where
  "buildUpstreamSinceStartMetrics s =
     total_line s ''rec53_upstream_failures_total'' ''failures total'' @ total_line s ''rec53_upstream_fallback_total'' ''fallback total''
     @ total_line s ''rec53_upstream_winner_total'' ''winner total''"

definition buildXDPSinceStartMetrics :: "MetricsSnapshot \<Rightarrow> string list" where
  "buildXDPSinceStartMetrics s =
     total_line s ''rec53_xdp_cache_hits_total'' ''hits total'' @ total_line s ''rec53_xdp_cache_misses_total'' ''misses total''
     @ total_line s ''rec53_xdp_pass_total'' ''pass total'' @ total_line s ''rec53_xdp_errors_total'' ''error total''
     @ total_line s ''rec53_xdp_cache_sync_errors_total'' ''sync error total'' @ total_line s ''rec53_xdp_cleanup_deleted_total'' ''cleanup total''"

definition terminal_total :: "sorters \<Rightarrow> (transitionKey \<times> rat) list \<Rightarrow> rat" where
  "terminal_total S values = f_sum (map biTotal (buildTerminalTotalBreakdown S values 4))"

definition buildStateMachineSinceStartMetrics :: "sorters \<Rightarrow> MetricsSnapshot \<Rightarrow> string list" where
  "buildStateMachineSinceStartMetrics S s =
     total_line s ''rec53_state_machine_stage_total'' ''stages total''
     @ (case sumByLabelPair s ''rec53_state_machine_transition_total'' ''from'' ''to'' of
          None \<Rightarrow> []
        | Some values \<Rightarrow>
            if 0 < terminal_total S values then [detailMetricLine ''terminal total'' (tui_count (terminal_total S values))] else [])
     @ total_line s ''rec53_state_machine_failures_total'' ''failures total''"

definition buildStateMachineFailureTotals :: "sorters \<Rightarrow> MetricsSnapshot \<Rightarrow> BreakdownItem list" where
  "buildStateMachineFailureTotals S s =
     (case sumByLabel s ''rec53_state_machine_failures_total'' ''reason'' of None \<Rightarrow> [] | Some values \<Rightarrow> buildTotalBreakdown S values 5)"

section \<open>Lemmas\<close>

lemma entry_less_value: "\<not> entry_less shown b a \<Longrightarrow> snd b \<le> snd a"
  by (auto simp: entry_less_def split: if_splits)

lemma sorted_entries: "sort_slice_ok (entry_less shown) srt \<Longrightarrow> sorted_wrt (\<lambda>a b. snd b \<le> snd a) (srt xs)"
  using sorted_wrt_mono_rel [of "srt xs" "\<lambda>a b. \<not> entry_less shown b a" "\<lambda>a b. snd b \<le> snd a"] entry_less_value [of shown]
  by (auto simp: sort_slice_ok_def)

text \<open>The entries shown are the largest ones.\<close>

lemma top_entries:
  assumes "sort_slice_ok (entry_less shown) srt"
  shows "sorted_wrt (\<lambda>a b. snd b \<le> snd a) (take n (srt xs))" "set (take n (srt xs)) \<subseteq> set xs"
    "length (take n (srt xs)) = min n (length xs)"
    "e \<in> set xs \<Longrightarrow> e \<notin> set (take n (srt xs)) \<Longrightarrow> n \<le> length xs \<and> (\<forall>t\<in>set (take n (srt xs)). snd e \<le> snd t)"
proof -
  have s: "sorted_wrt (\<lambda>a b. snd b \<le> snd a) (take n (srt xs) @ drop n (srt xs))" using sorted_entries [OF assms] by simp
  show "sorted_wrt (\<lambda>a b. snd b \<le> snd a) (take n (srt xs))" using sorted_entries [OF assms] by (rule sorted_wrt_take)
  show "set (take n (srt xs)) \<subseteq> set xs" using set_take_subset [of n "srt xs"] assms by simp
  show "length (take n (srt xs)) = min n (length xs)" using assms by simp
  assume e: "e \<in> set xs" "e \<notin> set (take n (srt xs))"
  then have "e \<in> set (drop n (srt xs))" using sort_slice_set [OF assms, of xs] by (metis UnE append_take_drop_id set_append)
  then show "n \<le> length xs \<and> (\<forall>t\<in>set (take n (srt xs)). snd e \<le> snd t)"
    using s assms unfolding sorted_wrt_append by (metis drop_all empty_iff list.set(1) nat_le_linear sort_slice_length)
qed

lemma distinct_top:
  assumes "sort_slice_ok lt srt" "distinct (map fst xs)"
  shows "distinct (map fst (take n (srt xs)))"
proof -
  have "mset (map fst (srt xs)) = mset (map fst xs)" using sort_slice_mset [OF assms(1)] by simp
  then have "distinct (map fst (srt xs))" using assms(2) by (metis mset_eq_imp_distinct_iff)
  then show ?thesis using distinct_take [of "map fst (srt xs)" n] by (simp only: take_map)
qed

lemma f_sum_ge:
  assumes "\<forall>v\<in>set vs. 0 \<le> v" "m \<in> set vs" "fl m = m"
  shows "m \<le> f_sum vs"
proof -
  have keep: "m \<le> fold (\<lambda>v t. f_add t v) ws acc" if "\<forall>v\<in>set ws. 0 \<le> v" "m \<le> acc" for ws acc
    using that
  proof (induction ws arbitrary: acc)
    case (Cons w ws)
    have "m \<le> f_add acc w" using fl_mono [of m "acc + w"] Cons.prems assms(3) by (simp add: f_add_def)
    with Cons show ?case by simp
  qed simp
  have "m \<le> fold (\<lambda>v t. f_add t v) ws acc" if "\<forall>v\<in>set ws. 0 \<le> v" "m \<in> set ws" "0 \<le> acc" for ws acc
    using that
  proof (induction ws arbitrary: acc)
    case (Cons w ws)
    have nn: "0 \<le> f_add acc w" using Cons.prems by (simp add: f_add_def fl_nonneg)
    show ?case
    proof (cases "m = w")
      case True
      then have "m \<le> f_add acc w" using fl_mono [of m "acc + w"] Cons.prems assms(3) by (simp add: f_add_def)
      with keep Cons.prems show ?thesis by simp
    next
      case False
      then show ?thesis using Cons nn by simp
    qed
  qed simp
  then show ?thesis using assms by (simp add: f_sum_def)
qed

lemma fl_gt_0: "0 < x \<Longrightarrow> 0 < fl x"
  by (simp add: fl_def fl_pos_gt_0)

lemma fl_1 [simp]: "fl 1 = 1"
  using fl_of_int [of 1] by simp

lemma ratio_bounds:
  assumes "(k, v) \<in> set (positive keep delta)" "fl v = v"
  shows "0 < ratio_of v (positive keep delta) \<and> ratio_of v (positive keep delta) \<le> 1"
proof -
  have v: "0 < v" "v \<in> set (map snd (positive keep delta))" using assms(1) by (force simp: positive_def)+
  have "v \<le> f_sum (map snd (positive keep delta))"
    using v assms(2) by (intro f_sum_ge) (auto simp: positive_def less_imp_le)
  with v(1) show ?thesis
    using fl_gt_0 fl_mono [of "v / f_sum (map snd (positive keep delta))" 1] by (simp add: ratio_of_def f_div_def Let_def divide_le_eq)
qed

lemma map_get_member: "distinct (map fst m) \<Longrightarrow> (k, v) \<in> set m \<Longrightarrow> map_get m k = v"
  by (simp add: map_get_def)

text \<open>The stable instance of the three sorting calls.\<close>

definition go_sorters :: sorters where
  "go_sorters = \<lparr>byLabel = go_insertion_sort (entry_less (\<lambda>k. k)), byEdge = go_insertion_sort (entry_less edge_text),
     byText = go_insertion_sort str_less\<rparr>"

lemma entry_sort_ok: "sort_slice_ok (entry_less shown) (go_insertion_sort (entry_less shown))"
proof (rule go_insertion_sort_ok)
  fix a b c :: "'a \<times> rat"
  assume ab: "\<not> entry_less shown b a" and bc: "\<not> entry_less shown c b"
  then have le: "snd b \<le> snd a" "snd c \<le> snd b" by (simp_all add: entry_less_value)
  show "\<not> entry_less shown c a"
  proof (cases "snd c = snd a")
    case True
    with le have "snd b = snd a" "snd c = snd b" by auto
    with ab bc show ?thesis unfolding entry_less_def by (simp; metis str_less_linear str_less_trans)
  next
    case False
    with le show ?thesis by (simp add: entry_less_def)
  qed
qed (auto simp: entry_less_def str_less_asym split: if_splits)

lemma text_sort_ok: "sort_slice_ok str_less (go_insertion_sort str_less)"
  by (rule go_insertion_sort_ok) (use str_less_linear str_less_trans str_less_asym in blast)+

lemma go_sorters_ok: "sorters_ok go_sorters"
  by (simp add: sorters_ok_def go_sorters_def entry_sort_ok text_sort_ok)

text \<open>The edge a path follows: a positive one out of its node, none of whose siblings is larger.\<close>

definition best_edge :: "(transitionKey \<times> rat) list \<Rightarrow> rat \<Rightarrow> TransitionBreakdownItem \<Rightarrow> bool" where
  "best_edge delta dt e \<longleftrightarrow>
     (\<exists>(key, v)\<in>set delta. key = (tiFrom e, tiTo e) \<and> 0 < v \<and> tiRate e = f_div v dt \<and> (\<forall>(k', v')\<in>set delta. fst k' = tiFrom e \<longrightarrow> v' \<le> v))"

fun chained :: "string \<Rightarrow> TransitionBreakdownItem list \<Rightarrow> bool" where
  "chained n [] = True"
| "chained n (e # es) = (tiFrom e = n \<and> chained (tiTo e) es)"

lemma filtered_head:
  assumes "sorters_ok S" "buildFilteredTransitionBreakdown S delta dt 4 (\<lambda>key. fst key = now) = best # others"
  shows "tiFrom best = now \<and> best_edge delta dt best"
proof -
  let ?es = "positive (\<lambda>key. fst key = now) delta"
  have srt: "sort_slice_ok (entry_less edge_text) (byEdge S)" using assms(1) by (simp add: sorters_ok_def)
  obtain e rest where e: "byEdge S ?es = e # rest" and b: "tiFrom best = fst (fst e)" "tiTo best = snd (fst e)" "tiRate best = f_div (snd e) dt"
    using assms(2) by (cases "byEdge S ?es") (auto simp: buildFilteredTransitionBreakdown_def Let_def case_prod_beta' split: if_splits)
  have "e \<in> set ?es" using sort_slice_set [OF srt, of ?es] e by (metis list.set_intros(1))
  then have in_d: "e \<in> set delta" "0 < snd e" "fst (fst e) = now" by (auto simp: positive_def)
  have "snd e' \<le> snd e" if "e' \<in> set delta" "fst (fst e') = now" for e'
  proof (cases "0 < snd e'")
    case True
    then have "e' \<in> set ?es" using that by (cases e') (simp add: positive_def)
    then have "e' \<in> set (e # rest)" using sort_slice_set [OF srt, of ?es] by (simp only: e)
    then show ?thesis using sorted_entries [OF srt, of ?es] by (auto simp: e)
  qed (use in_d in simp)
  then show ?thesis using in_d b by (fastforce simp: best_edge_def intro: bexI [of _ e])
qed

lemma path_loop_edges:
  assumes "sorters_ok S" "now \<in> set visited"
  shows "\<exists>new. spMainEdges (path_loop S delta dt steps now visited path) = spMainEdges path @ new \<and> chained now new \<and> length new \<le> steps
    \<and> distinct (map tiFrom new) \<and> set (map tiFrom new) \<inter> (set visited - {now}) = {} \<and> (\<forall>e\<in>set new. best_edge delta dt e)
    \<and> (\<forall>e\<in>set (butlast new). \<not> isStateMachineTerminalNode (tiTo e))"
  using assms(2)
proof (induction steps arbitrary: now visited path)
  case (Suc steps)
  let ?items = "buildFilteredTransitionBreakdown S delta dt 4 (\<lambda>key. fst key = now)"
  show ?case
  proof (cases ?items)
    case (Cons best others)
    note h = filtered_head [OF assms(1) Cons]
    consider (stop) "others \<noteq> [] \<and> \<not> dominantStateMachineEdge (tiRate best) (tiRate (hd others))"
      | (last) "\<not> (others \<noteq> [] \<and> \<not> dominantStateMachineEdge (tiRate best) (tiRate (hd others)))"
          "isStateMachineTerminalNode (tiTo best) \<or> tiTo best \<in> set visited"
      | (go) "\<not> (others \<noteq> [] \<and> \<not> dominantStateMachineEdge (tiRate best) (tiRate (hd others)))"
          "\<not> isStateMachineTerminalNode (tiTo best)" "tiTo best \<notin> set visited" by blast
    then show ?thesis
    proof cases
      case go
      obtain new where new: "spMainEdges (path_loop S delta dt steps (tiTo best) (tiTo best # visited) (path\<lparr>spMainEdges := spMainEdges path @ [best]\<rparr>))
            = (spMainEdges path @ [best]) @ new"
          "chained (tiTo best) new" "length new \<le> steps" "distinct (map tiFrom new)"
          "set (map tiFrom new) \<inter> (set (tiTo best # visited) - {tiTo best}) = {}" "\<forall>e\<in>set new. best_edge delta dt e"
          "\<forall>e\<in>set (butlast new). \<not> isStateMachineTerminalNode (tiTo e)"
        using Suc.IH [of "tiTo best" "tiTo best # visited" "path\<lparr>spMainEdges := spMainEdges path @ [best]\<rparr>"] by auto
      have "set visited \<inter> set (map tiFrom new) = {}" using new(5) go(3) by auto
      then show ?thesis using go new h Cons Suc.prems by (intro exI [of _ "best # new"]) auto
    qed (use h Cons in \<open>auto intro: exI [of _ "[best]"]\<close>)
  qed simp
qed simp

text \<open>The panels of a dashboard, and that none is ever marked stale.\<close>

definition panels :: "Dashboard \<Rightarrow> TrafficPanel \<times> CachePanel \<times> SnapshotPanel \<times> UpstreamPanel \<times> XDPPanel \<times> StateMachinePanel" where
  "panels d = (dbTraffic d, dbCache d, dbSnapshot d, dbUpstream d, dbXDP d, dbStateMachine d)"

definition panel_statuses :: "Dashboard \<Rightarrow> panelStatus list" where
  "panel_statuses d = [tpStatus (dbTraffic d), cpStatus (dbCache d), npStatus (dbSnapshot d), upStatus (dbUpstream d), xpStatus (dbXDP d), mpStatus (dbStateMachine d)]"

lemmas only_defs = traffic_only_def cache_only_def snapshot_only_def upstream_only_def xdp_only_def machine_only_def

lemma traffic_not_stale: "tpStatus (buildTrafficPanel S prev c dt) \<noteq> statusStale"
  by (simp add: buildTrafficPanel_def Let_def only_defs)

lemma cache_not_stale: "cpStatus (buildCachePanel S prev c dt) \<noteq> statusStale"
  by (simp add: buildCachePanel_def Let_def only_defs)

lemma add_operation_status [simp]: "npStatus (fold add_operation samples panel) = npStatus panel"
  by (induction samples arbitrary: panel) (simp_all add: add_operation_def Let_def)

lemma snapshot_not_stale: "npStatus (buildSnapshotPanel S prev c dt) \<noteq> statusStale"
  by (simp add: buildSnapshotPanel_def Let_def only_defs split: option.splits)

lemma upstream_not_stale: "upStatus (buildUpstreamPanel S prev c dt) \<noteq> statusStale"
  by (simp add: buildUpstreamPanel_def Let_def only_defs)

lemma xdp_not_stale: "xpStatus (buildXDPPanel prev c dt) \<noteq> statusStale"
  by (simp add: buildXDPPanel_def Let_def only_defs split: option.splits)

lemma machine_not_stale: "mpStatus (buildStateMachinePanel S prev c dt) \<noteq> statusStale"
  by (simp add: buildStateMachinePanel_def machine_transitions_def Let_def only_defs split: option.splits)

lemmas not_stale = traffic_not_stale cache_not_stale snapshot_not_stale upstream_not_stale xdp_not_stale machine_not_stale

lemma derived_live:
  "dbLastSuccess (deriveDashboard S now target prev cur dur) \<noteq> None \<and> statusStale \<notin> set (panel_statuses (deriveDashboard S now target prev cur dur))"
  by (cases cur) (simp_all add: deriveDashboard_def Let_def panel_statuses_def all_panels_def only_defs not_stale [symmetric] not_stale)

lemma withScrapeError_live:
  "dbLastSuccess d \<noteq> None \<Longrightarrow>
     dbMode (withScrapeError now d err) = statusStale \<and> dbLastError (withScrapeError now d err) = err \<and> panels (withScrapeError now d err) = panels d
     \<and> panel_statuses (withScrapeError now d err) = panel_statuses d \<and> dbLastSuccess (withScrapeError now d err) \<noteq> None"
  by (auto simp: withScrapeError_def panels_def panel_statuses_def)

section \<open>Properties\<close>

text \<open>
  C32. A breakdown shows the largest rates: its labels are distinct and have positive differences, they
  come in descending order, there are as many as the limit allows, and a positive difference that is
  not shown is not larger than any that is; the rate is the difference over the elapsed time and the
  ratio, for representable values, is above 0 and at most 1.
\<close>

theorem breakdown_shows_largest:
  assumes "sorters_ok S" "distinct (map fst delta)" "0 < dt" "\<forall>(k, v)\<in>set delta. fl v = v"
  shows "(let items = buildBreakdown S delta dt limit in
      distinct (map biLabel items)
    \<and> length items = min limit (length (positive (\<lambda>_. True) delta))
    \<and> sorted_wrt (\<lambda>a b. map_get delta (biLabel b) \<le> map_get delta (biLabel a)) items
    \<and> (\<forall>i\<in>set items. 0 < map_get delta (biLabel i) \<and> biRate i = f_div (map_get delta (biLabel i)) dt \<and> 0 < biRatio i \<and> biRatio i \<le> 1)
    \<and> (\<forall>(k, v)\<in>set delta. 0 < v \<longrightarrow> k \<in> set (map biLabel items) \<or> (\<forall>i\<in>set items. v \<le> map_get delta (biLabel i))))"
proof (cases "delta = [] \<or> limit = 0")
  case True
  then show ?thesis by (auto simp: buildBreakdown_def positive_def)
next
  case False
  let ?es = "positive (\<lambda>_. True) delta" and ?top = "take limit (byLabel S (positive (\<lambda>_. True) delta))"
  define item where "item = (\<lambda>(key, value). \<lparr>biLabel = key, biRate = f_div value dt, biRatio = ratio_of value ?es, biTotal = 0\<rparr>)"
  have srt: "sort_slice_ok (entry_less (\<lambda>k. k)) (byLabel S)" using assms(1) by (simp add: sorters_ok_def)
  have items: "buildBreakdown S delta dt limit = map item ?top" using False assms(3) by (simp add: buildBreakdown_def item_def Let_def)
  have lab: "biLabel (item e) = fst e" for e by (simp add: item_def case_prod_beta')
  have val: "map_get delta (fst e) = snd e \<and> 0 < snd e" if "e \<in> set ?top" for e
    using that top_entries(2) [OF srt, of limit ?es] assms(2) by (cases e) (auto simp: positive_def map_get_member)
  have good: "biRate (item e) = f_div (snd e) dt \<and> 0 < biRatio (item e) \<and> biRatio (item e) \<le> 1" if "e \<in> set ?top" for e
  proof -
    have e: "e \<in> set ?es" using that top_entries(2) [OF srt, of limit ?es] by blast
    then have "fl (snd e) = snd e" using assms(4) by (auto simp: positive_def)
    with ratio_bounds [of "fst e" "snd e"] e show ?thesis by (simp add: item_def case_prod_beta')
  qed
  have d: "distinct (map fst ?es)" using assms(2) distinct_map_filter by (simp add: positive_def)
  have rest: "snd e \<le> snd t" if "e \<in> set ?es" "fst e \<notin> fst ` set ?top" "t \<in> set ?top" for e t
    using top_entries(4) [OF srt that(1), of limit] that by force
  show ?thesis
    unfolding items Let_def
  proof (intro conjI)
    show "distinct (map biLabel (map item ?top))" using distinct_top [OF srt d] by (simp add: lab comp_def)
    show "length (map item ?top) = min limit (length ?es)" using top_entries(3) [OF srt] by simp
    show "sorted_wrt (\<lambda>a b. map_get delta (biLabel b) \<le> map_get delta (biLabel a)) (map item ?top)"
      unfolding sorted_wrt_map lab using sorted_wrt_mono_rel [OF _ top_entries(1) [OF srt]] val by simp
    show "\<forall>i\<in>set (map item ?top). 0 < map_get delta (biLabel i) \<and> biRate i = f_div (map_get delta (biLabel i)) dt \<and> 0 < biRatio i \<and> biRatio i \<le> 1"
      using val good by (simp add: lab)
    show "\<forall>(k, v)\<in>set delta. 0 < v \<longrightarrow> k \<in> set (map biLabel (map item ?top)) \<or> (\<forall>i\<in>set (map item ?top). v \<le> map_get delta (biLabel i))"
      using rest val by (fastforce simp: lab positive_def)
  qed
qed

theorem breakdown_shows_largest_witness:
  "(let items = buildBreakdown go_sorters [(''a'', 1), (''b'', 3), (''c'', -1)] 2 1 in
     map biLabel items = [''b''] \<and> 0 < biRatio (hd items) \<and> biRatio (hd items) \<le> 1)"
  using breakdown_shows_largest [OF go_sorters_ok, of "[(''a'', 1), (''b'', 3), (''c'', -1)]" 2 1]
    fl_of_int [of 1] fl_of_int [of 3] fl_of_int [of "-1"]
  by (simp add: buildBreakdown_def go_sorters_def positive_def entry_less_def Let_def)

text \<open>
  C31. The dominant path is a walk of the machine: it starts at \<open>state_init\<close>, each edge starts where the
  one before it ended, no node is left twice, there are at most twelve edges, none but the last leads to
  an exit, and each of them is the most frequent edge out of its node, with its own rate.
\<close>

theorem dominant_path_walk:
  assumes "sorters_ok S"
  shows "(let edges = spMainEdges (buildStateMachinePath S delta dt) in
      chained ''state_init'' edges \<and> length edges \<le> 12 \<and> distinct (map tiFrom edges) \<and> (\<forall>e\<in>set edges. best_edge delta dt e)
    \<and> (\<forall>e\<in>set (butlast edges). \<not> isStateMachineTerminalNode (tiTo e)))"
  using path_loop_edges [OF assms, of "''state_init''" "[''state_init'']" delta dt 12 empty_path]
  by (auto simp: buildStateMachinePath_def Let_def empty_path_def)

theorem dominant_path_walk_witness:
  "chained ''state_init'' (spMainEdges (buildStateMachinePath go_sorters [((''state_init'', ''cache_lookup''), 2), ((''cache_lookup'', ''success_exit''), 1)] 1))"
  using dominant_path_walk [OF go_sorters_ok, of "[((''state_init'', ''cache_lookup''), 2), ((''cache_lookup'', ''success_exit''), 1)]" 1]
  by (simp add: Let_def)

text \<open>
  The total of the terminal exits is cut at four kinds: when the machine has left once through each of
  its six exits, the line shows 4, whatever the sorting routine does with equal entries.
\<close>

lemma terminal_total_undercounts:
  assumes "sorters_ok S"
  shows "terminal_total S (map (\<lambda>x. ((''return_resp'', x), 1))
      [''success_exit'', ''formerr_exit'', ''servfail_exit'', ''refused_exit'', ''error_exit'', ''max_iterations_exit'']) = 4"
proof -
  let ?es = "map (\<lambda>x. (x, 1 :: rat)) [''success_exit'', ''formerr_exit'', ''servfail_exit'', ''refused_exit'', ''error_exit'', ''max_iterations_exit'']"
  have srt: "sort_slice_ok (entry_less (\<lambda>k. k)) (byLabel S)" using assms by (simp add: sorters_ok_def)
  have sums: "terminal_sums (map (\<lambda>x. ((''return_resp'', x), 1))
      [''success_exit'', ''formerr_exit'', ''servfail_exit'', ''refused_exit'', ''error_exit'', ''max_iterations_exit'']) = ?es"
    by (simp add: terminal_sums_def isStateMachineTerminalNode_def map_add_at_def map_get_def f_add_def)
  have len: "length (take 4 (byLabel S ?es)) = 4" using top_entries(3) [OF srt, of 4 ?es] by simp
  have one: "snd e = 1" if "e \<in> set (take 4 (byLabel S ?es))" for e
    using that top_entries(2) [OF srt, of 4 ?es] by auto
  have "map snd (take 4 (byLabel S ?es)) = replicate 4 1"
    using len one by (intro replicate_eqI) auto
  moreover have "f_sum (replicate 4 1) = 4"
    using fl_of_int [of 2] fl_of_int [of 3] fl_of_int [of 4] by (simp add: f_sum_def f_add_def eval_nat_numeral)
  ultimately show ?thesis
    unfolding terminal_total_def buildTerminalTotalBreakdown_def sums buildTotalBreakdown_def
    by (simp add: positive_def Let_def comp_def case_prod_beta')
qed

lemma terminal_total_undercounts_example:
  "terminal_total go_sorters (map (\<lambda>x. ((''return_resp'', x), 1))
      [''success_exit'', ''formerr_exit'', ''servfail_exit'', ''refused_exit'', ''error_exit'', ''max_iterations_exit'']) = 4"
  using terminal_total_undercounts [OF go_sorters_ok] .

text \<open>
  C34. A failed scrape changes the mode and nothing else: in every run of the front ends, a turn whose scrape
  fails shows mode \<open>STALE\<close>, also before any scrape has succeeded, so the branch of \<open>withScrapeError\<close> for a
  target never reached is dead; the six panels stay those of the turn before, and no panel of any turn has
  status \<open>STALE\<close>, so what the detail pages say of stale panels is never shown.
\<close>

theorem failed_scrape_stale:
  assumes "i < length turns" "snd (turns ! i) = Inl err"
  shows "(let before = run_dashboards S now target turns ! i; after = run_dashboards S now target turns ! Suc i in
      dbMode after = statusStale \<and> dbLastError after = err \<and> panels after = panels before
    \<and> statusStale \<notin> set (panel_statuses after))"
proof -
  have "dbLastSuccess d \<noteq> None \<Longrightarrow> statusStale \<notin> set (panel_statuses d) \<Longrightarrow> i < length turns \<Longrightarrow> snd (turns ! i) = Inl err \<Longrightarrow>
      (let before = (d # scrape_loop S target previous d turns) ! i; after = scrape_loop S target previous d turns ! i in
        dbMode after = statusStale \<and> dbLastError after = err \<and> panels after = panels before
        \<and> statusStale \<notin> set (panel_statuses after))" for previous d
  proof (induction turns arbitrary: previous d i)
    case (Cons t turns)
    obtain tm res where t: "t = (tm, res)" by (cases t)
    show ?case
    proof (cases res)
      case (Inl e)
      with Cons t withScrapeError_live [OF Cons.prems(1), of tm e] show ?thesis by (cases i) (simp_all add: Let_def)
    next
      case (Inr r)
      obtain snap dur where r: "r = (snap, dur)" by (cases r)
      with Cons t Inr derived_live [of S tm target previous "Some snap" dur] show ?thesis by (cases i) (simp_all add: Let_def)
    qed
  qed simp
  moreover have "dbLastSuccess (deriveDashboard S now target None None 0) \<noteq> None"
    "statusStale \<notin> set (panel_statuses (deriveDashboard S now target None None 0))" using derived_live by auto
  ultimately show ?thesis using assms by (simp add: run_dashboards_def Let_def)
qed

theorem failed_scrape_stale_witness:
  "dbMode (run_dashboards go_sorters 0 ''t'' [(1, Inl ''refused'')] ! 1) = statusStale
    \<and> panel_statuses (run_dashboards go_sorters 0 ''t'' [(1, Inl ''refused'')] ! 1) = replicate 6 statusDisconnected"
  using failed_scrape_stale [of 0 "[(1, Inl ''refused'')]" "''refused''" go_sorters 0 "''t''"]
  by (simp add: Let_def run_dashboards_def deriveDashboard_def panels_def panel_statuses_def all_panels_def traffic_only_def cache_only_def
      snapshot_only_def upstream_only_def xdp_only_def machine_only_def numeral_eq_Suc)

end
