(* ===== verification/Tui_Detail.thy ===== *)
theory Tui_Detail
  imports Tui_Dashboard
begin

text \<open>
  The detail views of the dashboard (\<open>src/tui/dashboard.go\<close>): for each panel and each of its subviews the
  model of the page, that is the lines of the current window, the totals since the start, the sentence that
  stands out and the next checks.  The page of a panel that is not live is decided by
  \<open>detailStateOverride\<close> alone.
\<close>

section \<open>Sections\<close>

record detailSection =
  dsTitle :: string
  dsLines :: "string list"

record detailModel =
  dmStatus :: panelStatus
  dmStandout :: string
  dmCurrentWindowMetrics :: "string list"
  dmCurrentSections :: "detailSection list"
  dmSinceStartMetrics :: "string list"
  dmSinceStartSections :: "detailSection list"
  dmNextChecks :: "string list"

definition new_model :: "panelStatus \<Rightarrow> detailModel" where
  "new_model st = \<lparr>dmStatus = st, dmStandout = [], dmCurrentWindowMetrics = [], dmCurrentSections = [], dmSinceStartMetrics = [],
     dmSinceStartSections = [], dmNextChecks = []\<rparr>"

definition fallbackText :: "string \<Rightarrow> string" where
  "fallbackText value = (if value = [] then ''--'' else value)"

definition topBreakdownLabel :: "BreakdownItem list \<Rightarrow> string" where
  "topBreakdownLabel items = (case items of [] \<Rightarrow> [] | i # _ \<Rightarrow> biLabel i)"

definition detailTextSection :: "string \<Rightarrow> string list \<Rightarrow> detailSection" where
  "detailTextSection title ls = \<lparr>dsTitle = title, dsLines = (if ls = [] then [''  no recent samples''] else ls)\<rparr>"

text \<open>A line of three columns: the label, a value and a share.\<close>

definition three_columns :: "nat \<Rightarrow> string \<Rightarrow> string \<Rightarrow> string \<Rightarrow> string" where
  "three_columns width lab value share =
     ''  '' @ pad_right width lab @ '' '' @ pad_left 8 CHR '' '' value @ ''  '' @ pad_left 6 CHR '' '' share"

definition detailRateBreakdownSection :: "string \<Rightarrow> BreakdownItem list \<Rightarrow> detailSection" where
  "detailRateBreakdownSection title items =
     \<lparr>dsTitle = title, dsLines = (if items = [] then [''  no recent samples'']
        else map (\<lambda>item. three_columns 16 (biLabel item) (tui_rate (biRate item)) (tui_percent (biRatio item))) items)\<rparr>"

definition detailTransitionRateSection :: "string \<Rightarrow> TransitionBreakdownItem list \<Rightarrow> detailSection" where
  "detailTransitionRateSection title items =
     \<lparr>dsTitle = title, dsLines = (if items = [] then [''  no recent transition samples'']
        else map (\<lambda>item. three_columns 30 (transitionEdgeLabel (tiFrom item) (tiTo item)) (tui_rate (tiRate item)) (tui_percent (tiRatio item))) items)\<rparr>"

definition detailTransitionTotalSection :: "string \<Rightarrow> TransitionBreakdownItem list \<Rightarrow> detailSection" where
  "detailTransitionTotalSection title items =
     \<lparr>dsTitle = title, dsLines = (if items = [] then [''  no cumulative transition samples'']
        else map (\<lambda>item. three_columns 30 (transitionEdgeLabel (tiFrom item) (tiTo item)) (tui_count (tiTotal item)) (tui_percent (tiRatio item))) items)\<rparr>"

definition detailTotalBreakdownSection :: "string \<Rightarrow> BreakdownItem list \<Rightarrow> detailSection" where
  "detailTotalBreakdownSection title items =
     \<lparr>dsTitle = title, dsLines = (if items = [] then [''  no cumulative samples'']
        else map (\<lambda>item. three_columns 16 (biLabel item) (tui_count (biTotal item)) (tui_percent (biRatio item))) items)\<rparr>"

text \<open>What is computed from the current snapshot is empty while there is none.\<close>

definition since :: "(MetricsSnapshot \<Rightarrow> 'a list) \<Rightarrow> Dashboard \<Rightarrow> 'a list" where
  "since f d = (case dbCurrentSnapshot d of None \<Rightarrow> [] | Some s \<Rightarrow> f s)"

definition total_section :: "sorters \<Rightarrow> MetricsSnapshot \<Rightarrow> string \<Rightarrow> string \<Rightarrow> string \<Rightarrow> nat \<Rightarrow> detailSection list" where
  "total_section S s title name lab limit =
     (case sumByLabel s name lab of None \<Rightarrow> [] | Some values \<Rightarrow> [detailTotalBreakdownSection title (buildTotalBreakdown S values limit)])"

definition buildTrafficSinceStartSections :: "sorters \<Rightarrow> MetricsSnapshot \<Rightarrow> detailSection list" where
  "buildTrafficSinceStartSections S s = total_section S s ''Response codes:'' ''rec53_response_counter'' ''code'' 4"

definition buildCacheSinceStartSections :: "sorters \<Rightarrow> MetricsSnapshot \<Rightarrow> detailSection list" where
  "buildCacheSinceStartSections S s =
     total_section S s ''Lookup results:'' ''rec53_cache_lookup_total'' ''result'' 4
     @ total_section S s ''Lifecycle events:'' ''rec53_cache_lifecycle_total'' ''event'' 4"

definition buildUpstreamSinceStartSections :: "sorters \<Rightarrow> MetricsSnapshot \<Rightarrow> detailSection list" where
  "buildUpstreamSinceStartSections S s =
     total_section S s ''Failure reasons:'' ''rec53_upstream_failures_total'' ''reason'' 4
     @ total_section S s ''Winner paths:'' ''rec53_upstream_winner_total'' ''path'' 3"

definition buildStateMachineSinceStartSections :: "sorters \<Rightarrow> MetricsSnapshot \<Rightarrow> detailSection list" where
  "buildStateMachineSinceStartSections S s =
     total_section S s ''Stage totals:'' ''rec53_state_machine_stage_total'' ''stage'' 5
     @ (case sumByLabelPair s ''rec53_state_machine_transition_total'' ''from'' ''to'' of
          None \<Rightarrow> []
        | Some values \<Rightarrow> [detailTotalBreakdownSection ''Terminal totals:'' (buildTerminalTotalBreakdown S values 4)])
     @ total_section S s ''Failure totals:'' ''rec53_state_machine_failures_total'' ''reason'' 5"

section \<open>Panels that are not live\<close>

definition detailStateOverride :: "panelStatus \<Rightarrow> string \<Rightarrow> string \<Rightarrow> string \<Rightarrow> (string \<times> string list) option" where
  "detailStateOverride status lastError disabledMsg unavailableMsg =
     (case status of
        statusWarming \<Rightarrow> Some (''Only one successful scrape is available, so short-window rates and ratios are not stable yet.'',
          [''Wait one more refresh or press r.'', ''Header time: confirm the live window.''])
      | statusUnavailable \<Rightarrow>
          Some (if unavailableMsg = [] then ''Required metric families for this panel are missing from the current scrape.'' else unavailableMsg,
            [''Verify this target exposes the metric family.'', ''Check raw /metric or -plain output.''])
      | statusDisabled \<Rightarrow>
          Some (if disabledMsg = []
                then ''This panel is intentionally disabled for the current deployment, so there is no live signal to interpret here.'' else disabledMsg,
            [''No action unless this feature should be on.'', ''Check config before treating it as a fault.''])
      | statusDisconnected \<Rightarrow>
          Some (if lastError \<noteq> []
                then ''The target is disconnected from rec53top, so there is no fresh live-state interpretation. Last error: '' @ lastError
                else ''The target has not produced a successful scrape yet, so this panel is not showing live rec53 behavior.'',
            [''Verify target address and metrics reachability.'', ''Press r or use -plain/curl after recovery.''])
      | statusStale \<Rightarrow>
          Some (''This panel is showing stale data because the latest scrape failed, so live interpretation is temporarily frozen.''
                @ (if lastError \<noteq> [] then '' Last error: '' @ lastError else []),
            [''Treat numbers as old until next scrape.'', ''Check scrape connectivity first.''])
      | _ \<Rightarrow> None)"

text \<open>The override, or else what the panel says of itself.\<close>

definition with_override :: "panelStatus \<Rightarrow> string \<Rightarrow> string \<Rightarrow> string \<Rightarrow> detailModel \<Rightarrow> string \<times> string list \<Rightarrow> detailModel" where
  "with_override status lastError disabledMsg unavailableMsg model own =
     (let (standout, nextChecks) = (case detailStateOverride status lastError disabledMsg unavailableMsg of None \<Rightarrow> own | Some o' \<Rightarrow> o')
      in model\<lparr>dmStandout := standout, dmNextChecks := nextChecks\<rparr>)"

section \<open>Traffic, cache and snapshot\<close>

definition buildTrafficDetailModel :: "sorters \<Rightarrow> Dashboard \<Rightarrow> detailModel" where
  "buildTrafficDetailModel S d =
     (let panel = dbTraffic d;
          model = (new_model (tpStatus panel))\<lparr>
            dmCurrentWindowMetrics := [detailMetricLine ''qps'' (tui_number (tpQPS panel)), detailMetricLine ''p99 latency'' (tui_latency (tpP99MS panel)),
              detailMetricLine ''servfail ratio'' (tui_percent (tpServfailRatio panel)), detailMetricLine ''nxdomain ratio'' (tui_percent (tpNXDomainRatio panel)),
              detailMetricLine ''noerror ratio'' (tui_percent (tpNoErrorRatio panel))],
            dmCurrentSections := [detailRateBreakdownSection ''Response mix:'' (tpResponseCodes panel)],
            dmSinceStartMetrics := since buildTrafficSinceStartMetrics d,
            dmSinceStartSections := since (buildTrafficSinceStartSections S) d\<rparr>;
          topLabel = topBreakdownLabel (tpResponseCodes panel)
      in with_override (tpStatus panel) (dbLastError d) [] ''Required traffic metric families are missing from the target scrape.'' model
           (if tpStatus panel = statusDegraded
            then (if fl (5 / 100) \<le> tpServfailRatio panel then ''SERVFAIL '' @ tui_percent (tpServfailRatio panel) @ ''; answer quality is degraded.''
                  else if 1000 \<le> tpP99MS panel then ''p99 '' @ tui_latency (tpP99MS panel) @ ''; tail latency is elevated.''
                  else if topLabel \<noteq> [] then topLabel @ '' leads the response mix; traffic needs a quality check.''
                  else ''Traffic is degraded, but the bucket mix is still split.'',
                  [''4 Upstream: check timeout/bad-rcode.'', ''6 State: check failure clustering.'', ''Logs: inspect SERVFAIL if mix stays split.''])
            else (if topLabel \<noteq> [] then topLabel @ '' leads the response mix.'' else ''Traffic looks healthy, but the window is quiet.'',
                  [''Watch SERVFAIL/p99 before flagging traffic.'', ''2 Cache: compare if latency rises.''])))"

definition cache_lines :: "CachePanel \<Rightarrow> string list" where
  "cache_lines panel =
     [detailMetricLine ''hit ratio'' (tui_percent (cpHitRatio panel)), detailMetricLine ''positive hit'' (tui_rate (cpPositiveHitRate panel)),
      detailMetricLine ''negative hit'' (tui_rate (cpNegativeHitRate panel)), detailMetricLine ''delegation hit'' (tui_rate (cpDelegationRate panel)),
      detailMetricLine ''miss'' (tui_rate (cpMissRate panel))]"

definition cache_life_lines :: "CachePanel \<Rightarrow> string list" where
  "cache_life_lines panel = [detailMetricLine ''entries'' (tui_number (cpEntries panel)), detailMetricLine ''lifecycle'' (cpLifecycle panel)]"

definition buildCacheDetailModel :: "Dashboard \<Rightarrow> detailModel" where
  "buildCacheDetailModel d =
     (let panel = dbCache d;
          model = (new_model (cpStatus panel))\<lparr>
            dmCurrentWindowMetrics := cache_lines panel @ cache_life_lines panel,
            dmSinceStartMetrics := since buildCacheSinceStartMetrics d\<rparr>;
          totalHitRate = f_add (f_add (cpPositiveHitRate panel) (cpNegativeHitRate panel)) (cpDelegationRate panel);
          topLabel = topBreakdownLabel (cpResults panel)
      in with_override (cpStatus panel) (dbLastError d) [] ''Required cache metric families are missing from the target scrape.'' model
           (if cpStatus panel = statusDegraded
            then (if totalHitRate < cpMissRate panel
                  then ''Miss '' @ tui_rate (cpMissRate panel) @ '' is ahead of cache-served traffic; hit ratio '' @ tui_percent (cpHitRatio panel) @ ''.''
                  else ''Hit ratio '' @ tui_percent (cpHitRatio panel) @ ''; miss pressure is visible.'',
                  [''1 Traffic: compare latency/quality.'', ''4 Upstream: misses may force iter.'', ''6 State: check miss-linked failures.''])
            else (if topLabel \<noteq> [] then topLabel @ '' leads the cache mix; lifecycle '' @ cpLifecycle panel @ ''.''
                  else ''Cache looks healthy, but the window is quiet.'',
                  [''Watch miss bursts during traffic shifts.'', ''1 Traffic: compare if latency rises.''])))"

definition buildCacheLookupSubviewModel :: "sorters \<Rightarrow> Dashboard \<Rightarrow> detailModel" where
  "buildCacheLookupSubviewModel S d =
     (let panel = dbCache d
      in (new_model (cpStatus panel))\<lparr>
           dmStandout := ''Cache lookup mix isolates which result classes are currently dominating and how that compares with cumulative lookup totals.'',
           dmCurrentWindowMetrics := cache_lines panel,
           dmCurrentSections := [detailRateBreakdownSection ''Lookup mix:'' (cpResults panel)],
           dmSinceStartMetrics := since (\<lambda>s. total_line s ''rec53_cache_lookup_total'' ''lookups total'') d,
           dmSinceStartSections := since (\<lambda>s. total_section S s ''Lookup results:'' ''rec53_cache_lookup_total'' ''result'' 4) d,
           dmNextChecks := [''Summary: return to cache verdict.'', ''Lifecycle: open if churn stays high.'']\<rparr>)"

definition buildCacheLifecycleSubviewModel :: "sorters \<Rightarrow> Dashboard \<Rightarrow> detailModel" where
  "buildCacheLifecycleSubviewModel S d =
     (let panel = dbCache d
      in (new_model (cpStatus panel))\<lparr>
           dmStandout := ''Cache lifecycle activity shows whether writes, refreshes, or evictions are driving churn behind the summary hit ratio.'',
           dmCurrentWindowMetrics := cache_life_lines panel,
           dmSinceStartSections := since (\<lambda>s. total_section S s ''Lifecycle events:'' ''rec53_cache_lifecycle_total'' ''event'' 4) d,
           dmNextChecks := [''Lookup Mix: compare if misses rise without writes.'', ''Summary: return to cache verdict.'']\<rparr>)"

definition buildSnapshotDetailModel :: "Dashboard \<Rightarrow> detailModel" where
  "buildSnapshotDetailModel d =
     (let panel = dbSnapshot d;
          model = (new_model (npStatus panel))\<lparr>
            dmSinceStartMetrics := [detailMetricLine ''load success'' (tui_number (npLoadSuccess panel)), detailMetricLine ''load failure'' (tui_number (npLoadFailure panel)),
              detailMetricLine ''imported'' (tui_number (npImported panel)), detailMetricLine ''skipped expired'' (tui_number (npSkippedExpired panel)),
              detailMetricLine ''skipped corrupt'' (tui_number (npSkippedCorrupt panel)), detailMetricLine ''saved'' (tui_number (npSaveSuccess panel)),
              detailMetricLine ''duration p99'' (tui_latency (npDurationP99MS panel))]\<rparr>
      in with_override (npStatus panel) (dbLastError d) [] ''Required snapshot metric families are missing from the target scrape.'' model
           (if npStatus panel = statusDegraded \<or> 0 < npLoadFailure panel
            then (''Snapshot failures seen; do not trust restore yet.'', [''Logs: check load/save failures.'', ''Compare imported vs skipped counts.''])
            else (if 0 < npImported panel then ''Snapshot calm; p99 '' @ tui_latency (npDurationP99MS panel) @ ''.''
                  else ''Snapshot metrics are available, but recent activity is light.'',
                  [''Check around restart/shutdown events.'', ''Logs: inspect small import counts.''])))"

section \<open>Upstream\<close>

definition upstream_failure_lines :: "UpstreamPanel \<Rightarrow> string list" where
  "upstream_failure_lines panel =
     [detailMetricLine ''timeout'' (tui_rate (upTimeoutRate panel)), detailMetricLine ''bad rcode'' (tui_rate (upBadRcodeRate panel)),
      detailMetricLine ''fallback'' (tui_rate (upFallbackRate panel))]"

definition winner_line :: "UpstreamPanel \<Rightarrow> string" where
  "winner_line panel = detailMetricLine ''winner'' (fallbackText (upWinner panel) @ '' '' @ tui_rate (upWinnerRate panel))"

definition buildUpstreamDetailModel :: "Dashboard \<Rightarrow> detailModel" where
  "buildUpstreamDetailModel d =
     (let panel = dbUpstream d;
          model = (new_model (upStatus panel))\<lparr>
            dmCurrentWindowMetrics := upstream_failure_lines panel @ [winner_line panel, detailMetricLine ''dominant reason'' (fallbackText (upDominantReason panel))],
            dmSinceStartMetrics := since buildUpstreamSinceStartMetrics d\<rparr>
      in with_override (upStatus panel) (dbLastError d) [] ''Required upstream metric families are missing from the target scrape.'' model
           (if upStatus panel = statusDegraded
            then (if upDominantReason panel \<noteq> [] then upDominantReason panel @ '' leads recent upstream failures.''
                  else if 0 < upFallbackRate panel then ''Fallback '' @ tui_rate (upFallbackRate panel) @ ''; the first upstream path is not stable.''
                  else ''Upstream is degraded, but no single failure dominates yet.'',
                  [''Network: check reachability and RTT.'', ''1 Traffic: compare SERVFAIL/p99.'', ''6 State: check query_upstream failures.''])
            else (if upWinner panel \<noteq> [] then upWinner panel @ '' wins the upstream race most often.''
                  else ''Upstream looks healthy, but the window is quiet.'',
                  [''Watch timeout/fallback growth.'', ''Winner mix: track path shifts.''])))"

definition buildUpstreamFailuresSubviewModel :: "sorters \<Rightarrow> Dashboard \<Rightarrow> detailModel" where
  "buildUpstreamFailuresSubviewModel S d =
     (let panel = dbUpstream d
      in (new_model (upStatus panel))\<lparr>
           dmStandout := ''Upstream failures isolates the recent error mix so timeout, bad-rcode, and fallback pressure are not hidden behind the overall summary.'',
           dmCurrentWindowMetrics := upstream_failure_lines panel @ [detailMetricLine ''dominant reason'' (fallbackText (upDominantReason panel))],
           dmCurrentSections := [detailRateBreakdownSection ''Failure reasons:'' (upFailureReasons panel)],
           dmSinceStartMetrics := since (\<lambda>s. total_line s ''rec53_upstream_failures_total'' ''failures total'' @ total_line s ''rec53_upstream_fallback_total'' ''fallback total'') d,
           dmSinceStartSections := since (\<lambda>s. total_section S s ''Failure reasons:'' ''rec53_upstream_failures_total'' ''reason'' 4) d,
           dmNextChecks := [''Winners: open if no failure dominates.'', ''Summary: confirm upstream is root cause.'']\<rparr>)"

definition buildUpstreamWinnersSubviewModel :: "sorters \<Rightarrow> Dashboard \<Rightarrow> detailModel" where
  "buildUpstreamWinnersSubviewModel S d =
     (let panel = dbUpstream d
      in (new_model (upStatus panel))\<lparr>
           dmStandout := ''Winner paths isolates which upstream path is actually winning, which is useful when failures exist but one route still dominates overall behavior.'',
           dmCurrentWindowMetrics := [winner_line panel],
           dmCurrentSections := [detailRateBreakdownSection ''Winner mix:'' (upWinners panel)],
           dmSinceStartMetrics := since (\<lambda>s. total_line s ''rec53_upstream_winner_total'' ''winner total'') d,
           dmSinceStartSections := since (\<lambda>s. total_section S s ''Winner paths:'' ''rec53_upstream_winner_total'' ''path'' 3) d,
           dmNextChecks := [''Failures: open if churn follows errors.'', ''Summary: compare winner mix with verdict.'']\<rparr>)"

section \<open>The kernel fast path\<close>

definition buildXDPDetailModel :: "Dashboard \<Rightarrow> detailModel" where
  "buildXDPDetailModel d =
     (let panel = dbXDP d;
          model = (new_model (xpStatus panel))\<lparr>
            dmCurrentWindowMetrics := [detailMetricLine ''mode'' (xpMode panel), detailMetricLine ''hit ratio'' (tui_percent (xpHitRatio panel)),
              detailMetricLine ''sync errors'' (tui_rate (xpSyncErrorRate panel)), detailMetricLine ''cleanup'' (tui_rate (xpCleanupRate panel)),
              detailMetricLine ''entries'' (tui_number (xpEntries panel)), detailMetricLine ''pass'' (tui_rate (xpPassRate panel)),
              detailMetricLine ''errors'' (tui_rate (xpErrorRate panel))],
            dmSinceStartMetrics := since buildXDPSinceStartMetrics d\<rparr>
      in with_override (xpStatus panel) (dbLastError d)
           ''XDP is intentionally disabled or unsupported for this deployment, so there is no fast-path activity to diagnose here.''
           ''Required XDP metrics are missing from the target scrape.'' model
           (if xpStatus panel = statusDegraded
            then (''XDP is active, but sync or packet-path errors are non-zero.'', [''2 Cache: compare fast-path hit ratio.'', ''Check sync-error/error counters.''])
            else (''XDP stable; hit '' @ tui_percent (xpHitRatio panel) @ '', pass '' @ tui_rate (xpPassRate panel) @ ''.'',
                  [''Watch sync-error growth.'', ''2 Cache: compare if hit ratio looks low.''])))"

definition buildXDPPacketPathsSubviewModel :: "Dashboard \<Rightarrow> detailModel" where
  "buildXDPPacketPathsSubviewModel d =
     (let panel = dbXDP d
      in (new_model (xpStatus panel))\<lparr>
           dmStandout := ''Packet paths isolates fast-path wins versus pass-through and error pressure, which helps judge whether XDP is paying for itself right now.'',
           dmCurrentWindowMetrics := [detailMetricLine ''hit ratio'' (tui_percent (xpHitRatio panel)), detailMetricLine ''pass'' (tui_rate (xpPassRate panel)),
             detailMetricLine ''errors'' (tui_rate (xpErrorRate panel))],
           dmSinceStartMetrics := since (\<lambda>s. total_line s ''rec53_xdp_cache_hits_total'' ''hits total'' @ total_line s ''rec53_xdp_cache_misses_total'' ''misses total''
             @ total_line s ''rec53_xdp_pass_total'' ''pass total'' @ total_line s ''rec53_xdp_errors_total'' ''error total'') d,
           dmNextChecks := [''Sync/Cleanup: open if correctness drifts.'', ''Summary: compare with cache verdict.'']\<rparr>)"

definition buildXDPSyncCleanupSubviewModel :: "Dashboard \<Rightarrow> detailModel" where
  "buildXDPSyncCleanupSubviewModel d =
     (let panel = dbXDP d
      in (new_model (xpStatus panel))\<lparr>
           dmStandout := ''Sync and cleanup isolates whether XDP maintenance overhead is staying quiet or quietly eroding fast-path confidence.'',
           dmCurrentWindowMetrics := [detailMetricLine ''mode'' (xpMode panel), detailMetricLine ''sync errors'' (tui_rate (xpSyncErrorRate panel)),
             detailMetricLine ''cleanup'' (tui_rate (xpCleanupRate panel)), detailMetricLine ''entries'' (tui_number (xpEntries panel))],
           dmSinceStartMetrics := since (\<lambda>s. total_line s ''rec53_xdp_cache_sync_errors_total'' ''sync error total'' @ total_line s ''rec53_xdp_cleanup_deleted_total'' ''cleanup total'') d,
           dmNextChecks := [''Packet Paths: open if hit ratio stays low.'', ''Summary: return to XDP verdict.'']\<rparr>)"

section \<open>The state machine\<close>

definition stateMachineNextChecks :: "string \<Rightarrow> string \<Rightarrow> string \<Rightarrow> string list" where
  "stateMachineNextChecks topStage topTerminal topFailure =
     [if strings_Contains topFailure ''upstream'' \<or> topStage = ''query_upstream'' \<or> topTerminal = ''servfail_exit''
      then ''4 Upstream: dominant failure is upstream.''
      else if strings_Contains topFailure ''cache'' \<or> strings_Contains topFailure ''glue'' \<or> strings_Contains topStage ''cache'' \<or> strings_Contains topStage ''glue''
      then ''2 Cache: dominant failure is cache/referral.''
      else ''1 Traffic + 4 Upstream: correlate first.'',
      ''Trace: `rec53 --config ./config.yaml --trace-domain example.com --trace-type A`.'']"

definition top_line :: "string \<Rightarrow> string \<Rightarrow> rat \<Rightarrow> string" where
  "top_line lab name value = detailMetricLine lab (fallbackText name @ '' '' @ tui_rate value)"

definition machine_standout :: "StateMachinePanel \<Rightarrow> string" where
  "machine_standout panel =
     (if mpStatus panel = statusDegraded
      then (if mpTopFailure panel \<noteq> [] \<and> mpTopTerminal panel \<noteq> []
            then mpTopFailure panel @ '' is the top recent failure reason and '' @ mpTopTerminal panel @ '' is the exit currently accumulating fastest.''
            else if mpTopFailure panel \<noteq> []
            then mpTopFailure panel @ '' is the top recent state-machine failure while '' @ fallbackText (mpTopStage panel) @ '' remains the busiest stage.''
            else if mpTopTerminal panel \<noteq> []
            then mpTopTerminal panel @ '' is the terminal exit currently growing fastest, so the resolver is ending too many flows there.''
            else fallbackText (mpTopStage panel) @ '' is the busiest stage right now, but the failure mix still needs more samples before one reason clearly dominates.'')
      else (if mpTopTerminal panel = ''success_exit''
            then mpTopTerminal panel @ '' is the leading terminal exit and '' @ fallbackText (mpTopStage panel) @ '' is the hottest recent stage, so the aggregate resolver flow still looks healthy.''
            else if mpTopStage panel \<noteq> []
            then mpTopStage panel @ '' is the hottest recent stage, and no failure reason is currently strong enough to define this window.''
            else ''State-machine metrics are healthy, but the current sample window is too quiet to elevate one stage or terminal exit as the standout signal.''))"

definition buildStateMachineDetailModel :: "sorters \<Rightarrow> Dashboard \<Rightarrow> detailModel" where
  "buildStateMachineDetailModel S d =
     (let panel = dbStateMachine d;
          model = (new_model (mpStatus panel))\<lparr>
            dmCurrentWindowMetrics := [top_line ''top stage'' (mpTopStage panel) (mpTopStageRate panel),
              top_line ''top terminal'' (mpTopTerminal panel) (mpTopTerminalRate panel), top_line ''top failure'' (mpTopFailure panel) (mpTopFailureRate panel)],
            dmCurrentSections := [detailRateBreakdownSection ''Stage mix:'' (mpStages panel), detailRateBreakdownSection ''Terminal exits:'' (mpTerminals panel),
              detailRateBreakdownSection ''Failure reasons:'' (mpFailures panel)],
            dmSinceStartMetrics := since (buildStateMachineSinceStartMetrics S) d,
            dmSinceStartSections := since (buildStateMachineSinceStartSections S) d\<rparr>
      in with_override (mpStatus panel) (dbLastError d) [] ''Required state-machine metric families are missing from the target scrape.'' model
           (machine_standout panel,
            if mpStatus panel = statusDegraded then stateMachineNextChecks (mpTopStage panel) (mpTopTerminal panel) (mpTopFailure panel)
            else [''Watch non-success exits before degrading.'', ''Trace: `rec53 --config ./config.yaml --trace-domain example.com --trace-type A`.'']))"

definition stateMachinePathSummaryLines :: "StateMachinePath \<Rightarrow> string list" where
  "stateMachinePathSummaryLines path =
     (if spSummary path = [] then [''  no dominant live path yet'']
      else (''  '' @ spSummary path)
             # (if spAmbiguous path \<and> spBranchOptions path \<noteq> [] then [''  branch point: '' @ spBranchPoint path] else []))"

definition edge_lines :: "string \<Rightarrow> TransitionBreakdownItem \<Rightarrow> string list" where
  "edge_lines prefix edge = [prefix @ tiFrom edge, prefix @ ''  -> '' @ tiTo edge @ ''  ('' @ tui_rate (tiRate edge) @ '')'']"

definition stateMachinePathGraphLines :: "StateMachinePath \<Rightarrow> string list" where
  "stateMachinePathGraphLines path =
     (if spMainEdges path = [] \<and> spBranchPoint path = [] then [''  no recent live transition samples'']
      else (case spMainEdges path of [] \<Rightarrow> [] | e # es \<Rightarrow> edge_lines ''  '' e @ concat (map (edge_lines ''    '') es))
           @ (if spMainEdges path = [] \<and> spBranchPoint path \<noteq> [] then [''  '' @ spBranchPoint path] else [])
           @ (if spAmbiguous path then [''  branch at '' @ spBranchPoint path] else []))"

definition buildStateMachineFailureContextLines :: "StateMachineFailureContext list \<Rightarrow> StateMachinePath \<Rightarrow> string list" where
  "buildStateMachineFailureContextLines contexts path =
     (if contexts = [] then [''  no current failure reason is standing out'']
      else let pathText = fallbackText (spSummary path)
           in concat (map (\<lambda>context.
                (''  '' @ pad_right 18 (fcReason context) @ '' -> '' @ pad_right 20 (fcExit context) @ '' '' @ tui_rate (fcRate context))
                # (if pathText \<noteq> ''--'' \<and> strings_Contains pathText (fcExit context) then [''  path context: '' @ pathText] else [])) contexts))"

definition buildStateMachinePathGraphSubviewModel :: "Dashboard \<Rightarrow> detailModel" where
  "buildStateMachinePathGraphSubviewModel d =
     (let panel = dbStateMachine d;
          model = (new_model (mpStatus panel))\<lparr>
            dmCurrentWindowMetrics := [top_line ''top stage'' (mpTopStage panel) (mpTopStageRate panel), top_line ''top terminal'' (mpTopTerminal panel) (mpTopTerminalRate panel)],
            dmCurrentSections := [detailTextSection ''Live path graph:'' (stateMachinePathGraphLines (mpDominantPath panel)),
              detailTransitionRateSection ''Branch hotspots:'' (spBranchOptions (mpDominantPath panel)), detailTransitionRateSection ''Terminal exits:'' (mpLiveTerminals panel)],
            dmSinceStartMetrics := since (\<lambda>s. total_line s ''rec53_state_machine_transition_total'' ''transitions total'') d,
            dmSinceStartSections := [detailTransitionTotalSection ''Transition totals:'' (mpSinceStartEdges panel)]\<rparr>
      in with_override (mpStatus panel) (dbLastError d) [] ''Required state-machine transition metrics are missing from the target scrape.'' model
           (''Path Graph shows the real resolver edges taken in the current window, then keeps cumulative transition totals bounded for baseline comparison.'',
            [''Failures: open if path ends badly.'', ''Summary: return to state verdict.'']))"

definition buildStateMachineFailuresSubviewModel :: "sorters \<Rightarrow> Dashboard \<Rightarrow> detailModel" where
  "buildStateMachineFailuresSubviewModel S d =
     (let panel = dbStateMachine d;
          model = (new_model (mpStatus panel))\<lparr>
            dmCurrentWindowMetrics := [top_line ''top failure'' (mpTopFailure panel) (mpTopFailureRate panel),
              top_line ''top terminal'' (mpTopTerminal panel) (mpTopTerminalRate panel), detailMetricLine ''dominant path'' (fallbackText (mpPathSummary panel))],
            dmCurrentSections := [detailRateBreakdownSection ''Failure reasons:'' (mpFailures panel),
              detailTextSection ''Failure context:'' (buildStateMachineFailureContextLines (mpFailureContexts panel) (mpDominantPath panel))],
            dmSinceStartMetrics := since (\<lambda>s. total_line s ''rec53_state_machine_failures_total'' ''failures total'') d,
            dmSinceStartSections := [detailTotalBreakdownSection ''Failure totals:'' (since (buildStateMachineFailureTotals S) d)]\<rparr>
      in with_override (mpStatus panel) (dbLastError d) [] ''Required state-machine failure or transition metrics are missing from the target scrape.'' model
           (''Failures reconciles bounded failure reasons with terminal exits so the path view and the error view tell the same story.'',
            [''Summary: compare failures with top-line exits.'', ''Logs: pivot if failures keep rising.'']))"

end
