(* ===== verification/Tui_App.thy ===== *)
theory Tui_App
  imports Tui_Detail
begin

text \<open>
  The front ends of the dashboard (\<open>src/tui/app.go\<close>, \<open>src/tui/plain.go\<close>, \<open>src/tui/config.go\<close>): the state
  the keys change, the history behind the trend lines and what is drawn.  The widgets of the terminal
  library only show text, so drawing is the function from the state and the dashboard to the texts they
  are given; the clock text depends on the time zone and is an argument.  An index out of range, a panic
  of the program, is \<open>None\<close>.
\<close>

section \<open>Configuration\<close>

record tui_config =
  tcTarget :: string
  tcRefreshInterval :: int
  tcTimeout :: int
  tcPlain :: bool

definition DefaultTarget :: string where "DefaultTarget = ''http://127.0.0.1:9999/metric''"

definition tui_normalized :: "tui_config \<Rightarrow> tui_config" where
  "tui_normalized c =
     (let c = (if tcTarget c = [] then c\<lparr>tcTarget := DefaultTarget\<rparr> else c);
          c = (if tcRefreshInterval c \<le> 0 then c\<lparr>tcRefreshInterval := 2 * 1000000000\<rparr> else c)
      in if tcTimeout c \<le> 0 then c\<lparr>tcTimeout := 1500 * 1000000\<rparr> else c)"

section \<open>The state of the user interface\<close>

datatype detailPanel = detailNone | detailTraffic | detailCache | detailSnapshot | detailUpstream | detailXDP | detailState

datatype detailSubview = subviewSummary | subviewCacheLookup | subviewCacheLifecycle | subviewUpstreamFailures | subviewUpstreamWinners
  | subviewXDPPacketPaths | subviewXDPSyncCleanup | subviewStatePathGraph | subviewStateFailures

type_synonym detailSubviewDef = "detailSubview \<times> string"

definition overviewPanelOrder :: "detailPanel list" where
  "overviewPanelOrder = [detailTraffic, detailCache, detailSnapshot, detailUpstream, detailXDP, detailState]"

record dashboardUI =
  uiHelpShown :: bool
  uiDetailPanel :: detailPanel
  uiFocusPanel :: detailPanel
  uiDetailView :: "detailPanel \<Rightarrow> detailSubview option"
  uiHistory :: "Dashboard list"
  uiMaxHistory :: int
  uiRefresh :: int

definition newDashboardUI :: "int \<Rightarrow> dashboardUI" where
  "newDashboardUI refresh = \<lparr>uiHelpShown = False, uiDetailPanel = detailNone, uiFocusPanel = detailTraffic,
     uiDetailView = [detailCache \<mapsto> subviewSummary, detailUpstream \<mapsto> subviewSummary, detailXDP \<mapsto> subviewSummary],
     uiHistory = [], uiMaxHistory = 16, uiRefresh = refresh\<rparr>"

text \<open>\<open>xs[i]\<close>.\<close>

definition at_index :: "'a list \<Rightarrow> int \<Rightarrow> 'a option" where
  "at_index xs i = (if 0 \<le> i \<and> i < int (length xs) then Some (xs ! nat i) else None)"

fun index_of :: "int \<Rightarrow> ('a \<Rightarrow> bool) \<Rightarrow> 'a list \<Rightarrow> int option" where
  "index_of i P [] = None"
| "index_of i P (x # xs) = (if P x then Some i else index_of (i + 1) P xs)"

definition overviewPanelIndex :: "detailPanel \<Rightarrow> int" where
  "overviewPanelIndex panel = (case index_of 0 (\<lambda>candidate. candidate = panel) overviewPanelOrder of None \<Rightarrow> - 1 | Some i \<Rightarrow> i)"

definition isOverviewPanel :: "detailPanel \<Rightarrow> bool" where
  "isOverviewPanel panel = (0 \<le> overviewPanelIndex panel)"

definition focusedPanel :: "dashboardUI \<Rightarrow> detailPanel" where
  "focusedPanel ui = (if \<not> isOverviewPanel (uiFocusPanel ui) then detailTraffic else uiFocusPanel ui)"

definition resetDetailSubview :: "detailPanel \<Rightarrow> dashboardUI \<Rightarrow> dashboardUI" where
  "resetDetailSubview panel ui = ui\<lparr>uiDetailView := (uiDetailView ui)(panel \<mapsto> subviewSummary)\<rparr>"

definition openFocusedDetail :: "dashboardUI \<Rightarrow> dashboardUI" where
  "openFocusedDetail ui = (let ui = ui\<lparr>uiDetailPanel := focusedPanel ui\<rparr> in resetDetailSubview (uiDetailPanel ui) ui)"

definition openDetail :: "detailPanel \<Rightarrow> dashboardUI \<Rightarrow> dashboardUI" where
  "openDetail panel ui =
     (if \<not> isOverviewPanel panel then ui else resetDetailSubview panel (ui\<lparr>uiFocusPanel := panel, uiDetailPanel := panel\<rparr>))"

definition returnToOverview :: "dashboardUI \<Rightarrow> dashboardUI" where
  "returnToOverview ui = ui\<lparr>uiDetailPanel := detailNone\<rparr>"

definition cycleFocus :: "int \<Rightarrow> dashboardUI \<Rightarrow> dashboardUI option" where
  "cycleFocus step ui =
     (let size = int (length overviewPanelOrder)
      in map_option (\<lambda>p. ui\<lparr>uiFocusPanel := p\<rparr>)
           (at_index overviewPanelOrder ((overviewPanelIndex (focusedPanel ui) + step + size) mod size)))"

definition moveFocus :: "int \<Rightarrow> int \<Rightarrow> dashboardUI \<Rightarrow> (bool \<times> dashboardUI) option" where
  "moveFocus rowDelta colDelta ui =
     (let index = overviewPanelIndex (focusedPanel ui); nextRow = go_div index 2 + rowDelta; nextCol = (index - go_div index 2 * 2) + colDelta
      in if nextRow < 0 \<or> 3 \<le> nextRow \<or> nextCol < 0 \<or> 2 \<le> nextCol then Some (False, ui)
         else map_option (\<lambda>p. (True, ui\<lparr>uiFocusPanel := p\<rparr>)) (at_index overviewPanelOrder (nextRow * 2 + nextCol)))"

definition detailPanelStatus :: "detailPanel \<Rightarrow> Dashboard \<Rightarrow> panelStatus" where
  "detailPanelStatus panel d =
     (case panel of
        detailTraffic \<Rightarrow> tpStatus (dbTraffic d) | detailCache \<Rightarrow> cpStatus (dbCache d) | detailSnapshot \<Rightarrow> npStatus (dbSnapshot d)
      | detailUpstream \<Rightarrow> upStatus (dbUpstream d) | detailXDP \<Rightarrow> xpStatus (dbXDP d) | detailState \<Rightarrow> mpStatus (dbStateMachine d)
      | detailNone \<Rightarrow> statusUnavailable)"

definition detailDrilldownEnabled :: "detailPanel \<Rightarrow> Dashboard \<Rightarrow> bool" where
  "detailDrilldownEnabled panel d =
     (let status = detailPanelStatus panel d
      in if status \<noteq> statusOK \<and> status \<noteq> statusDegraded then False else panel \<in> {detailCache, detailUpstream, detailXDP})"

definition detailSubviewDefs :: "detailPanel \<Rightarrow> Dashboard \<Rightarrow> detailSubviewDef list" where
  "detailSubviewDefs panel d =
     (if \<not> detailDrilldownEnabled panel d then []
      else case panel of
        detailCache \<Rightarrow> [(subviewSummary, ''Summary''), (subviewCacheLookup, ''Lookup Mix''), (subviewCacheLifecycle, ''Lifecycle'')]
      | detailUpstream \<Rightarrow> [(subviewSummary, ''Summary''), (subviewUpstreamFailures, ''Failures''), (subviewUpstreamWinners, ''Winners'')]
      | detailXDP \<Rightarrow> [(subviewSummary, ''Summary''), (subviewXDPPacketPaths, ''Packet Paths''), (subviewXDPSyncCleanup, ''Sync/Cleanup'')]
      | _ \<Rightarrow> [])"

definition currentDetailSubviewDef :: "detailPanel \<Rightarrow> Dashboard \<Rightarrow> dashboardUI \<Rightarrow> detailSubviewDef option" where
  "currentDetailSubviewDef panel d ui =
     (case detailSubviewDefs panel d of
        [] \<Rightarrow> None
      | def0 # defs \<Rightarrow>
          let cur = (case uiDetailView ui panel of None \<Rightarrow> subviewSummary | Some v \<Rightarrow> v)
          in Some (case List.find (\<lambda>def. fst def = cur) (def0 # defs) of None \<Rightarrow> def0 | Some def \<Rightarrow> def))"

definition cycleDetailSubview :: "Dashboard \<Rightarrow> int \<Rightarrow> dashboardUI \<Rightarrow> (bool \<times> dashboardUI) option" where
  "cycleDetailSubview d step ui =
     (let defs = detailSubviewDefs (uiDetailPanel ui) d; size = int (length defs)
      in if length defs \<le> 1 then Some (False, ui)
         else let current = (case currentDetailSubviewDef (uiDetailPanel ui) d ui of None \<Rightarrow> hd defs | Some def \<Rightarrow> def);
                  index = (case index_of 0 (\<lambda>def. fst def = fst current) defs of None \<Rightarrow> 0 | Some i \<Rightarrow> i)
              in map_option (\<lambda>def. (True, ui\<lparr>uiDetailView := (uiDetailView ui)(uiDetailPanel ui \<mapsto> fst def)\<rparr>))
                   (at_index defs ((index + step + size) mod size)))"

definition pushHistory :: "Dashboard \<Rightarrow> dashboardUI \<Rightarrow> dashboardUI" where
  "pushHistory d ui =
     (let ui = ui\<lparr>uiHistory := uiHistory ui @ [d]\<rparr>;
          ui = (if uiMaxHistory ui \<le> 0 then ui\<lparr>uiMaxHistory := 16\<rparr> else ui)
      in if uiMaxHistory ui < int (length (uiHistory ui))
         then ui\<lparr>uiHistory := drop (nat (int (length (uiHistory ui)) - uiMaxHistory ui)) (uiHistory ui)\<rparr>
         else ui)"

section \<open>Keys\<close>

datatype tcell_key = KeyCtrlC | KeyEscape | KeyEnter | KeyUp | KeyDown | KeyLeft | KeyRight | KeyTab | KeyBacktab | KeyOther

datatype key_action = KeyNothing | KeyRefresh | KeyStop

text \<open>A key is handled by its code, and when that does nothing, by its character.  The result says whether it
  was handled and what is asked of the program; every handled key but a refresh or a stop redraws.\<close>

type_synonym key_result = "(bool \<times> key_action \<times> dashboardUI) option"

definition unhandled :: "dashboardUI \<Rightarrow> key_result" where "unhandled ui = Some (False, KeyNothing, ui)"
definition redrawn :: "dashboardUI \<Rightarrow> key_result" where "redrawn ui = Some (True, KeyNothing, ui)"

text \<open>\<open>if cond && f() { ...; return true }\<close> and otherwise what follows.\<close>

definition if_moved :: "bool \<Rightarrow> (bool \<times> dashboardUI) option \<Rightarrow> (dashboardUI \<Rightarrow> key_result) \<Rightarrow> dashboardUI \<Rightarrow> key_result" where
  "if_moved cond attempt next ui =
     (if \<not> cond then next ui
      else case attempt of None \<Rightarrow> None | Some (True, ui) \<Rightarrow> redrawn ui | Some (False, ui) \<Rightarrow> next ui)"

definition on_overview :: "dashboardUI \<Rightarrow> bool" where "on_overview ui = (uiDetailPanel ui = detailNone)"

definition handleRune :: "char \<Rightarrow> Dashboard \<Rightarrow> dashboardUI \<Rightarrow> key_result" where
  "handleRune r latest ui =
     (if r = CHR ''q'' then Some (True, KeyStop, ui)
      else if r = CHR ''r'' then Some (True, KeyRefresh, ui)
      else if r = CHR ''h'' \<or> r = CHR ''?'' then redrawn (ui\<lparr>uiHelpShown := \<not> uiHelpShown ui\<rparr>)
      else if r = CHR ''0'' \<or> r = CHR ''o'' then redrawn (returnToOverview ui)
      else if r = CHR ''1'' then redrawn (openDetail detailTraffic ui)
      else if r = CHR ''2'' then redrawn (openDetail detailCache ui)
      else if r = CHR ''3'' then redrawn (openDetail detailSnapshot ui)
      else if r = CHR ''4'' then redrawn (openDetail detailUpstream ui)
      else if r = CHR ''5'' then redrawn (openDetail detailXDP ui)
      else if r = CHR ''6'' then redrawn (openDetail detailState ui)
      else if r = CHR ''['' then if_moved (\<not> on_overview ui) (cycleDetailSubview latest (- 1) ui) unhandled ui
      else if r = CHR '']'' then if_moved (\<not> on_overview ui) (cycleDetailSubview latest 1 ui) unhandled ui
      else if r = CHR ''j'' then if_moved (on_overview ui) (moveFocus 1 0 ui) unhandled ui
      else if r = CHR ''k'' then if_moved (on_overview ui) (moveFocus (- 1) 0 ui) unhandled ui
      else if r = CHR ''l'' then if_moved (on_overview ui) (moveFocus 0 1 ui) unhandled ui
      else unhandled ui)"

definition handleKey :: "tcell_key \<Rightarrow> char \<Rightarrow> Dashboard \<Rightarrow> dashboardUI \<Rightarrow> key_result" where
  "handleKey key r latest ui =
     (let rest = handleRune r latest;
          sideways = (\<lambda>step next. if_moved (\<not> on_overview ui) (cycleDetailSubview latest step ui) next ui);
          focus = (\<lambda>step ui. if on_overview ui then (case cycleFocus step ui of None \<Rightarrow> None | Some ui \<Rightarrow> redrawn ui) else rest ui)
      in case key of
           KeyCtrlC \<Rightarrow> Some (True, KeyStop, ui)
         | KeyEscape \<Rightarrow> redrawn (returnToOverview ui)
         | KeyEnter \<Rightarrow> if on_overview ui then redrawn (openFocusedDetail ui) else rest ui
         | KeyUp \<Rightarrow> if_moved (on_overview ui) (moveFocus (- 1) 0 ui) rest ui
         | KeyDown \<Rightarrow> if_moved (on_overview ui) (moveFocus 1 0 ui) rest ui
         | KeyLeft \<Rightarrow> sideways (- 1) (\<lambda>ui. if_moved (on_overview ui) (moveFocus 0 (- 1) ui) rest ui)
         | KeyRight \<Rightarrow> sideways 1 (\<lambda>ui. if_moved (on_overview ui) (moveFocus 0 1 ui) rest ui)
         | KeyTab \<Rightarrow> sideways 1 (focus 1)
         | KeyBacktab \<Rightarrow> sideways (- 1) (focus (- 1))
         | KeyOther \<Rightarrow> rest ui)"

text \<open>What the program sees: keys, and the dashboards of the scrapes.\<close>

datatype ui_event = UiKey tcell_key char | UiDashboard Dashboard

fun ui_run :: "ui_event list \<Rightarrow> dashboardUI \<times> Dashboard \<Rightarrow> (dashboardUI \<times> Dashboard) option" where
  "ui_run [] (ui, latest) = Some (ui, latest)"
| "ui_run (UiKey key r # es) (ui, latest) =
     (case handleKey key r latest ui of None \<Rightarrow> None | Some (handled, action, ui) \<Rightarrow> ui_run es (ui, latest))"
| "ui_run (UiDashboard d # es) (ui, latest) = ui_run es (pushHistory d ui, d)"

section \<open>Trends\<close>

text \<open>The bounds of the values, their scale, and the position of a value on it.\<close>

definition spark_min :: "rat list \<Rightarrow> rat" where
  "spark_min values = fold (\<lambda>value m. if value < m then value else m) (tl values) (hd values)"

definition spark_max :: "rat list \<Rightarrow> rat" where
  "spark_max values = fold (\<lambda>value m. if m < value then value else m) (tl values) (hd values)"

definition spark_index :: "rat \<Rightarrow> rat \<Rightarrow> rat \<Rightarrow> int" where
  "spark_index minValue maxValue value =
     (let index = int_of_f (f_add (f_mul (f_div (f_add value (- minValue)) (f_add maxValue (- minValue))) 7) (1 / 2));
          index = (if index < 0 then 0 else index)
      in if 8 \<le> index then 7 else index)"

definition asciiSparkline :: "rat list \<Rightarrow> string" where
  "asciiSparkline values =
     (if values = [] then []
      else if spark_max values = spark_min values then replicate (length values) CHR ''=''
      else map (\<lambda>value. ''._:-=+*#'' ! nat (spark_index (spark_min values) (spark_max values) value)) values)"

definition trendDirection :: "rat list \<Rightarrow> string" where
  "trendDirection values =
     (if length values < 2 then ''warming''
      else let start = hd values; delta = f_add (last values) (- start);
               threshold = (if start = 0 then 0 else if start < 0 then f_mul (- start) (fl (1 / 10)) else f_mul start (fl (1 / 10)));
               threshold = (if threshold < fl (5 / 100) then fl (5 / 100) else threshold)
           in if threshold < delta then ''rising'' else if delta < - threshold then ''cooling'' else ''flat'')"

definition trend_line :: "string \<Rightarrow> rat list \<Rightarrow> string list" where
  "trend_line lab values =
     (if length values < 2 then [] else [''  '' @ pad_right 16 lab @ '' '' @ asciiSparkline values @ ''  '' @ trendDirection values])"

definition renderTrendCues :: "dashboardUI \<Rightarrow> string" where
  "renderTrendCues ui =
     (let cues = (\<lambda>a f b g. let ls = trend_line a (map f (uiHistory ui)) @ trend_line b (map g (uiHistory ui))
            in if ls = [] then []
               else strings_Join (''  recent in-process samples only; use Prometheus/Grafana for long-range history'' # ls) [CHR 0x0A])
      in if length (uiHistory ui) < 2 then []
         else case uiDetailPanel ui of
           detailCache \<Rightarrow> cues ''hit ratio'' (\<lambda>i. cpHitRatio (dbCache i)) ''miss rate'' (\<lambda>i. cpMissRate (dbCache i))
         | detailUpstream \<Rightarrow> cues ''timeout'' (\<lambda>i. upTimeoutRate (dbUpstream i)) ''fallback'' (\<lambda>i. upFallbackRate (dbUpstream i))
         | detailXDP \<Rightarrow> cues ''hit ratio'' (\<lambda>i. xpHitRatio (dbXDP i)) ''sync errors'' (\<lambda>i. xpSyncErrorRate (dbXDP i))
         | _ \<Rightarrow> [])"

section \<open>Drawing\<close>

definition panelTitle :: "detailPanel \<Rightarrow> string" where
  "panelTitle panel =
     (case panel of detailTraffic \<Rightarrow> ''Traffic'' | detailCache \<Rightarrow> ''Cache'' | detailSnapshot \<Rightarrow> ''Snapshot'' | detailUpstream \<Rightarrow> ''Upstream''
      | detailXDP \<Rightarrow> ''XDP'' | detailState \<Rightarrow> ''State Machine'' | detailNone \<Rightarrow> ''Detail'')"

definition statusColor :: "panelStatus \<Rightarrow> string" where
  "statusColor status =
     (case status of statusOK \<Rightarrow> ''green'' | statusDegraded \<Rightarrow> ''yellow'' | statusStale \<Rightarrow> ''yellow'' | statusDisabled \<Rightarrow> ''gray''
      | statusUnavailable \<Rightarrow> ''red'' | statusDisconnected \<Rightarrow> ''red'' | _ \<Rightarrow> ''blue'')"

definition statusLine :: "panelStatus \<Rightarrow> string" where
  "statusLine status = ''status         ['' @ statusColor status @ '']'' @ status_text status @ ''[-]''"

definition detailSectionLines :: "detailSection \<Rightarrow> string list" where
  "detailSectionLines section = dsTitle section # dsLines section"

definition model_block :: "string \<Rightarrow> string list \<Rightarrow> detailSection list \<Rightarrow> string list" where
  "model_block title metrics sections =
     (if metrics = [] \<and> sections = [] then []
      else [[], title] @ metrics @ concat (map (\<lambda>section. [] # detailSectionLines section) sections))"

definition renderDetailModel :: "detailModel \<Rightarrow> string" where
  "renderDetailModel model =
     strings_Join
       ([statusLine (dmStatus model), [], ''Now:'', ''  '' @ fallbackText (dmStandout model)]
        @ model_block ''Window:'' (dmCurrentWindowMetrics model) (dmCurrentSections model)
        @ model_block ''Totals:'' (dmSinceStartMetrics model) (dmSinceStartSections model)
        @ (if dmNextChecks model = [] then [] else [[], ''Next:''] @ map (\<lambda>check. ''- '' @ check) (dmNextChecks model))) [CHR 0x0A]"

text \<open>\<open>Duration.String\<close> from one second on: hours and minutes where they are not zero, the seconds without
  trailing zeros.\<close>

definition duration_seconds :: "nat \<Rightarrow> nat \<Rightarrow> string" where
  "duration_seconds sec nanos =
     nat_digits sec @ (if nanos = 0 then [] else CHR ''.'' # rev (dropWhile (\<lambda>c. c = CHR ''0'') (rev (pad_left 9 CHR ''0'' (nat_digits nanos))))) @ ''s''"

definition duration_String :: "int \<Rightarrow> string" where
  "duration_String d =
     (let s = nat d div 1000000000; sec = duration_seconds (s mod 60) (nat d mod 1000000000); m = s div 60
      in if m = 0 then sec else if m < 60 then nat_digits m @ ''m'' @ sec
         else nat_digits (m div 60) @ ''h'' @ nat_digits (m mod 60) @ ''m'' @ sec)"

definition formatDurationCompact :: "int \<Rightarrow> string" where
  "formatDurationCompact value =
     (if value \<le> 0 then ''--'' else if value < 1000000000 then nat_digits (nat value div 1000000) @ ''ms'' else duration_String value)"

definition renderDetailWithTrendCues :: "dashboardUI \<Rightarrow> string \<Rightarrow> string" where
  "renderDetailWithTrendCues ui body =
     (if renderTrendCues ui = [] then body
      else body @ [CHR 0x0A, CHR 0x0A] @ ''Trend:'' @ [CHR 0x0A] @ renderTrendCues ui)"

text \<open>The page of a panel without tabs; this is also what \<open>renderDetailSubview\<close> shows of a panel it has no
  subviews for, since such a panel has no tabs.\<close>

definition detail_page :: "sorters \<Rightarrow> Dashboard \<Rightarrow> dashboardUI \<Rightarrow> string" where
  "detail_page S d ui =
     (let show_model = (\<lambda>model. renderDetailWithTrendCues ui (renderDetailModel model))
      in case uiDetailPanel ui of
           detailTraffic \<Rightarrow> show_model (buildTrafficDetailModel S d)
         | detailCache \<Rightarrow> show_model (buildCacheDetailModel d)
         | detailSnapshot \<Rightarrow> show_model (buildSnapshotDetailModel d)
         | detailUpstream \<Rightarrow> show_model (buildUpstreamDetailModel d)
         | detailXDP \<Rightarrow> show_model (buildXDPDetailModel d)
         | detailState \<Rightarrow> show_model (buildStateMachineDetailModel S d)
         | detailNone \<Rightarrow> strings_Join [''Use arrows, j/k/l, or Tab to focus an overview panel.'',
             ''Press Enter to open the focused detail view, or use 1-6 as direct shortcuts.'', [], ''1 Traffic'', ''2 Cache'', ''3 Snapshot'',
             ''4 Upstream'', ''5 XDP'', ''6 State Machine''] [CHR 0x0A])"

definition renderDetailSubview :: "sorters \<Rightarrow> Dashboard \<Rightarrow> detailSubview \<Rightarrow> dashboardUI \<Rightarrow> string" where
  "renderDetailSubview S d subview ui =
     (case uiDetailPanel ui of
        detailCache \<Rightarrow> renderDetailModel
          (if subview = subviewCacheLookup then buildCacheLookupSubviewModel S d
           else if subview = subviewCacheLifecycle then buildCacheLifecycleSubviewModel S d else buildCacheDetailModel d)
      | detailUpstream \<Rightarrow> renderDetailModel
          (if subview = subviewUpstreamFailures then buildUpstreamFailuresSubviewModel S d
           else if subview = subviewUpstreamWinners then buildUpstreamWinnersSubviewModel S d else buildUpstreamDetailModel d)
      | detailXDP \<Rightarrow> renderDetailModel
          (if subview = subviewXDPPacketPaths then buildXDPPacketPathsSubviewModel d
           else if subview = subviewXDPSyncCleanup then buildXDPSyncCleanupSubviewModel d else buildXDPDetailModel d)
      | detailState \<Rightarrow> renderDetailModel (buildStateMachineDetailModel S d)
      | _ \<Rightarrow> detail_page S d ui)"

definition renderDetailWithTabs :: "detailSubviewDef list \<Rightarrow> detailSubview \<Rightarrow> string \<Rightarrow> string" where
  "renderDetailWithTabs defs cur body =
     ''Subview: '' @ strings_Join (map (\<lambda>(id, lab). if id = cur then ''[yellow]> '' @ lab @ '' <[-]'' else lab) defs) ''   ''
     @ [CHR 0x0A, CHR 0x0A] @ body"

definition renderDetail :: "sorters \<Rightarrow> Dashboard \<Rightarrow> dashboardUI \<Rightarrow> string" where
  "renderDetail S d ui =
     (let defs = detailSubviewDefs (uiDetailPanel ui) d
      in if 1 < length defs
         then let subview = (case currentDetailSubviewDef (uiDetailPanel ui) d ui of None \<Rightarrow> subviewSummary | Some def \<Rightarrow> fst def)
              in renderDetailWithTabs defs subview (renderDetailWithTrendCues ui (renderDetailSubview S d subview ui))
         else detail_page S d ui)"

definition detailTitle :: "Dashboard \<Rightarrow> dashboardUI \<Rightarrow> string" where
  "detailTitle d ui =
     (if uiDetailPanel ui = detailNone then ''Detail''
      else case currentDetailSubviewDef (uiDetailPanel ui) d ui of
        None \<Rightarrow> panelTitle (uiDetailPanel ui)
      | Some def \<Rightarrow> panelTitle (uiDetailPanel ui) @ '' ['' @ snd def @ '']'')"

definition updateOverviewTitles :: "dashboardUI \<Rightarrow> string list" where
  "updateOverviewTitles ui =
     map (\<lambda>panel. '' '' @ (if panel = focusedPanel ui then ''> '' @ panelTitle panel @ '' <'' else panelTitle panel) @ '' '') overviewPanelOrder"

definition focusLabel :: "dashboardUI \<Rightarrow> string" where "focusLabel ui = panelTitle (focusedPanel ui)"

definition detailFooterText :: "Dashboard \<Rightarrow> dashboardUI \<Rightarrow> string" where
  "detailFooterText d ui =
     (case currentDetailSubviewDef (uiDetailPanel ui) d ui of
        Some def \<Rightarrow>
          if uiHelpShown ui
          then ''[yellow]Keys[-] [yellow]q[-] quit  [yellow]r[-] refresh  [yellow]h/?[-] hide  [yellow]0/esc[-] overview'' @ [CHR 0x0A]
               @ ''[yellow]Detail[-] '' @ panelTitle (uiDetailPanel ui) @ '' / '' @ snd def @ ''  [yellow]Subview[-] tab shift-tab [ ] left right''
          else ''[yellow]q[-] quit  [yellow]r[-] refresh  [yellow]h/?[-] help  [yellow]0/esc[-] overview  [yellow]detail[-] '' @ panelTitle (uiDetailPanel ui)
               @ '' / '' @ snd def @ ''  [yellow]subview[-] tab shift-tab [ ] left right''
      | None \<Rightarrow>
          if uiHelpShown ui
          then ''[yellow]Keys[-] [yellow]q[-] quit  [yellow]r[-] refresh  [yellow]h/?[-] hide  [yellow]0/esc[-] overview'' @ [CHR 0x0A]
               @ ''[yellow]Detail[-] '' @ panelTitle (uiDetailPanel ui)
          else ''[yellow]q[-] quit  [yellow]r[-] refresh  [yellow]h/?[-] help  [yellow]0/esc[-] overview  [yellow]detail[-] '' @ panelTitle (uiDetailPanel ui))"

definition footerText :: "Dashboard \<Rightarrow> dashboardUI \<Rightarrow> string" where
  "footerText d ui =
     (if uiDetailPanel ui \<noteq> detailNone then detailFooterText d ui
      else if uiHelpShown ui
      then ''[yellow]Keys[-] [yellow]q[-] quit  [yellow]r[-] refresh  [yellow]h/?[-] hide  [yellow]enter[-] detail  [yellow]1-6[-] jump  [yellow]0/esc[-] overview''
           @ [CHR 0x0A] @ ''[yellow]Move[-] arrows/jkl/tab  [yellow]Focus[-] '' @ focusLabel ui
           @ ''  [yellow]Status[-] OK DEGRADED DISABLED UNAVAILABLE STALE DISCONNECTED WARMING''
      else ''[yellow]q[-] quit  [yellow]r[-] refresh  [yellow]h/?[-] help  [yellow]enter[-] detail  [yellow]1-6[-] jump  [yellow]0/esc[-] overview  [yellow]move[-] arrows/jkl/tab  [yellow]focus[-] ''
           @ focusLabel ui)"

section \<open>The overview\<close>

definition traffic_view :: "TrafficPanel \<Rightarrow> string list" where
  "traffic_view p = [statusLine (tpStatus p), ''qps            '' @ tui_number (tpQPS p), ''p99            '' @ tui_latency (tpP99MS p),
     ''servfail       '' @ tui_percent (tpServfailRatio p), ''nxdomain       '' @ tui_percent (tpNXDomainRatio p),
     ''noerror        '' @ tui_percent (tpNoErrorRatio p)]"

definition cache_view :: "CachePanel \<Rightarrow> string list" where
  "cache_view p = [statusLine (cpStatus p), ''hit ratio      '' @ tui_percent (cpHitRatio p), ''positive hit   '' @ tui_rate (cpPositiveHitRate p),
     ''negative hit   '' @ tui_rate (cpNegativeHitRate p), ''delegation     '' @ tui_rate (cpDelegationRate p), ''miss           '' @ tui_rate (cpMissRate p),
     ''entries        '' @ tui_number (cpEntries p), ''lifecycle      '' @ cpLifecycle p]"

definition snapshot_view :: "SnapshotPanel \<Rightarrow> string list" where
  "snapshot_view p = [statusLine (npStatus p), ''load success   '' @ tui_number (npLoadSuccess p), ''load failure   '' @ tui_number (npLoadFailure p),
     ''imported       '' @ tui_number (npImported p), ''skip expired   '' @ tui_number (npSkippedExpired p),
     ''skip corrupt   '' @ tui_number (npSkippedCorrupt p), ''saved          '' @ tui_number (npSaveSuccess p),
     ''duration p99   '' @ tui_latency (npDurationP99MS p)]"

definition upstream_view :: "UpstreamPanel \<Rightarrow> string list" where
  "upstream_view p = [statusLine (upStatus p), ''timeout        '' @ tui_rate (upTimeoutRate p), ''bad rcode      '' @ tui_rate (upBadRcodeRate p),
     ''fallback       '' @ tui_rate (upFallbackRate p), ''winner         '' @ upWinner p @ '' '' @ tui_rate (upWinnerRate p),
     ''dominant       '' @ fallbackText (upDominantReason p)]"

definition xdp_view :: "XDPPanel \<Rightarrow> string list" where
  "xdp_view p = [statusLine (xpStatus p), ''mode           '' @ xpMode p, ''hit ratio      '' @ tui_percent (xpHitRatio p),
     ''sync errors    '' @ tui_rate (xpSyncErrorRate p), ''cleanup        '' @ tui_rate (xpCleanupRate p), ''entries        '' @ tui_number (xpEntries p),
     ''pass           '' @ tui_rate (xpPassRate p), ''errors         '' @ tui_rate (xpErrorRate p)]"

definition machine_view :: "StateMachinePanel \<Rightarrow> string list" where
  "machine_view p = [statusLine (mpStatus p), ''top stage      '' @ fallbackText (mpTopStage p) @ '' '' @ tui_rate (mpTopStageRate p),
     ''top terminal   '' @ fallbackText (mpTopTerminal p) @ '' '' @ tui_rate (mpTopTerminalRate p),
     ''top failure    '' @ fallbackText (mpTopFailure p) @ '' '' @ tui_rate (mpTopFailureRate p)]"

definition header_text :: "(int \<Rightarrow> string) \<Rightarrow> Dashboard \<Rightarrow> dashboardUI \<Rightarrow> string" where
  "header_text clock d ui =
     ''[white]rec53top[-] ['' @ statusColor (dbMode d) @ '']'' @ status_text (dbMode d) @ ''[-] target '' @ dbTarget d
     @ ''  refresh '' @ formatDurationCompact (uiRefresh ui) @ ''  scrape '' @ formatDurationCompact (dbScrapeDuration d)
     @ ''  '' @ clock (dbLastUpdate d) @ [CHR 0x0A] @ dbOverallSummary d
     @ (if dbLastError d \<noteq> [] then CHR 0x0A # ''[red]'' @ dbLastError d @ ''[-]'' else [])"

record screen =
  scHeader :: string
  scPanels :: "string list"
  scTitles :: "string list"
  scDetailTitle :: string
  scDetail :: string
  scPage :: string
  scFooter :: string

definition render :: "(int \<Rightarrow> string) \<Rightarrow> sorters \<Rightarrow> Dashboard \<Rightarrow> dashboardUI \<Rightarrow> screen" where
  "render clock S d ui =
     \<lparr>scHeader = header_text clock d ui,
      scPanels = map (\<lambda>ls. strings_Join ls [CHR 0x0A]) [traffic_view (dbTraffic d), cache_view (dbCache d), snapshot_view (dbSnapshot d),
        upstream_view (dbUpstream d), xdp_view (dbXDP d), machine_view (dbStateMachine d)],
      scTitles = updateOverviewTitles ui, scDetailTitle = '' '' @ detailTitle d ui @ '' '', scDetail = renderDetail S d ui,
      scPage = (if uiDetailPanel ui = detailNone then ''overview'' else ''detail''), scFooter = footerText d ui\<rparr>"

section \<open>The plain front end\<close>

definition renderPlainPanel :: "string \<Rightarrow> string list \<Rightarrow> string" where
  "renderPlainPanel title ls = title @ [CHR 0x0A] @ strings_Join ls [CHR 0x0A]"

definition renderPlainDashboard :: "(int \<Rightarrow> string) \<Rightarrow> Dashboard \<Rightarrow> int \<Rightarrow> string" where
  "renderPlainDashboard clock d refresh =
     (let t = dbTraffic d; c = dbCache d; n = dbSnapshot d; u = dbUpstream d; x = dbXDP d; m = dbStateMachine d;
          sections =
            [''rec53top '' @ status_text (dbMode d) @ '' target='' @ dbTarget d @ '' refresh='' @ formatDurationCompact refresh
               @ '' scrape='' @ formatDurationCompact (dbScrapeDuration d) @ '' updated='' @ clock (dbLastUpdate d),
             dbOverallSummary d,
             renderPlainPanel ''Traffic'' [''status='' @ status_text (tpStatus t), ''qps='' @ tui_number (tpQPS t), ''p99='' @ tui_latency (tpP99MS t),
               ''servfail='' @ tui_percent (tpServfailRatio t), ''nxdomain='' @ tui_percent (tpNXDomainRatio t), ''noerror='' @ tui_percent (tpNoErrorRatio t)],
             renderPlainPanel ''Cache'' [''status='' @ status_text (cpStatus c), ''hit_ratio='' @ tui_percent (cpHitRatio c),
               ''positive_hit='' @ tui_rate (cpPositiveHitRate c), ''negative_hit='' @ tui_rate (cpNegativeHitRate c), ''delegation='' @ tui_rate (cpDelegationRate c),
               ''miss='' @ tui_rate (cpMissRate c), ''entries='' @ tui_number (cpEntries c), ''lifecycle='' @ cpLifecycle c],
             renderPlainPanel ''Snapshot'' [''status='' @ status_text (npStatus n), ''load_success='' @ tui_number (npLoadSuccess n),
               ''load_failure='' @ tui_number (npLoadFailure n), ''imported='' @ tui_number (npImported n), ''skip_expired='' @ tui_number (npSkippedExpired n),
               ''skip_corrupt='' @ tui_number (npSkippedCorrupt n), ''saved='' @ tui_number (npSaveSuccess n), ''duration_p99='' @ tui_latency (npDurationP99MS n)],
             renderPlainPanel ''Upstream'' [''status='' @ status_text (upStatus u), ''timeout='' @ tui_rate (upTimeoutRate u), ''bad_rcode='' @ tui_rate (upBadRcodeRate u),
               ''fallback='' @ tui_rate (upFallbackRate u), ''winner='' @ fallbackText (upWinner u) @ '' '' @ tui_rate (upWinnerRate u),
               ''dominant='' @ fallbackText (upDominantReason u)],
             renderPlainPanel ''XDP'' [''status='' @ status_text (xpStatus x), ''mode='' @ xpMode x, ''hit_ratio='' @ tui_percent (xpHitRatio x),
               ''sync_errors='' @ tui_rate (xpSyncErrorRate x), ''cleanup='' @ tui_rate (xpCleanupRate x), ''entries='' @ tui_number (xpEntries x),
               ''pass='' @ tui_rate (xpPassRate x), ''errors='' @ tui_rate (xpErrorRate x)],
             renderPlainPanel ''State Machine'' [''status='' @ status_text (mpStatus m), ''top_stage='' @ fallbackText (mpTopStage m) @ '' '' @ tui_rate (mpTopStageRate m),
               ''top_terminal='' @ fallbackText (mpTopTerminal m) @ '' '' @ tui_rate (mpTopTerminalRate m),
               ''top_failure='' @ fallbackText (mpTopFailure m) @ '' '' @ tui_rate (mpTopFailureRate m)]]
            @ (if dbLastError d \<noteq> [] then [''error='' @ dbLastError d] else [])
            @ [''plain mode uses the overview summary only; use the full-screen TUI for 1-6 detail views'']
      in strings_Join sections [CHR 0x0A, CHR 0x0A] @ [CHR 0x0A, CHR 0x0A])"

section \<open>Lemmas\<close>

lemma panel_index:
  "panel \<noteq> detailNone \<Longrightarrow> 0 \<le> overviewPanelIndex panel \<and> overviewPanelIndex panel < 6
     \<and> overviewPanelOrder ! nat (overviewPanelIndex panel) = panel"
  by (cases panel) (simp_all add: overviewPanelIndex_def overviewPanelOrder_def)

lemma overview_iff [simp]: "isOverviewPanel panel \<longleftrightarrow> panel \<noteq> detailNone"
  by (cases panel) (simp_all add: isOverviewPanel_def overviewPanelIndex_def overviewPanelOrder_def)

lemma order_panels: "0 \<le> i \<Longrightarrow> i < 6 \<Longrightarrow> \<exists>p. at_index overviewPanelOrder i = Some p \<and> p \<noteq> detailNone"
  using nth_mem [of "nat i" overviewPanelOrder] by (force simp: at_index_def overviewPanelOrder_def)

lemma at_index_mod: "0 < length xs \<Longrightarrow> \<exists>x. at_index xs (i mod int (length xs)) = Some x \<and> x \<in> set xs"
  by (simp add: at_index_def nat_less_iff)

lemma focused_panel [simp]: "focusedPanel ui \<noteq> detailNone"
  by (simp add: focusedPanel_def)

text \<open>The subviews a panel can have, and the invariant the keys keep.\<close>

definition subviews_of :: "detailPanel \<Rightarrow> detailSubview set" where
  "subviews_of panel = insert subviewSummary (case panel of
     detailCache \<Rightarrow> {subviewCacheLookup, subviewCacheLifecycle} | detailUpstream \<Rightarrow> {subviewUpstreamFailures, subviewUpstreamWinners}
   | detailXDP \<Rightarrow> {subviewXDPPacketPaths, subviewXDPSyncCleanup} | _ \<Rightarrow> {})"

definition ui_ok :: "dashboardUI \<Rightarrow> bool" where
  "ui_ok ui \<longleftrightarrow> uiFocusPanel ui \<noteq> detailNone \<and> (uiDetailPanel ui \<noteq> detailNone \<longrightarrow> uiFocusPanel ui = uiDetailPanel ui)
     \<and> (\<forall>p v. uiDetailView ui p = Some v \<longrightarrow> v \<in> subviews_of p) \<and> uiMaxHistory ui = 16"

text \<open>A step of the keys: it does not fail, keeps the invariant and leaves the history alone.\<close>

definition ui_kept :: "dashboardUI \<Rightarrow> dashboardUI \<Rightarrow> bool" where
  "ui_kept ui ui' \<longleftrightarrow> ui_ok ui' \<and> uiHistory ui' = uiHistory ui"

lemma subviews_listed: "def \<in> set (detailSubviewDefs panel d) \<Longrightarrow> fst def \<in> subviews_of panel"
  by (cases panel) (auto simp: detailSubviewDefs_def subviews_of_def split: if_splits)

lemma cycleFocus_kept: "ui_ok ui \<Longrightarrow> on_overview ui \<Longrightarrow> \<exists>ui'. cycleFocus step ui = Some ui' \<and> ui_kept ui ui'"
  using order_panels [of "(overviewPanelIndex (focusedPanel ui) + step + 6) mod 6"]
  by (auto simp: cycleFocus_def overviewPanelOrder_def ui_kept_def ui_ok_def on_overview_def Let_def)

lemma moveFocus_kept:
  assumes "ui_ok ui" "on_overview ui"
  shows "\<exists>moved ui'. moveFocus r c ui = Some (moved, ui') \<and> ui_kept ui ui'"
proof -
  let ?row = "go_div (overviewPanelIndex (focusedPanel ui)) 2 + r"
    and ?col = "overviewPanelIndex (focusedPanel ui) - go_div (overviewPanelIndex (focusedPanel ui)) 2 * 2 + c"
  show ?thesis
  proof (cases "?row < 0 \<or> 3 \<le> ?row \<or> ?col < 0 \<or> 2 \<le> ?col")
    case True
    then show ?thesis using assms(1) by (auto simp: moveFocus_def Let_def ui_kept_def)
  next
    case False
    then obtain p where "at_index overviewPanelOrder (?row * 2 + ?col) = Some p" "p \<noteq> detailNone"
      using order_panels [of "?row * 2 + ?col"] by auto
    with False assms show ?thesis by (auto simp: moveFocus_def Let_def ui_kept_def ui_ok_def on_overview_def)
  qed
qed

lemma cycleDetailSubview_kept:
  assumes "ui_ok ui"
  shows "\<exists>moved ui'. cycleDetailSubview d step ui = Some (moved, ui') \<and> ui_kept ui ui'"
proof (cases "length (detailSubviewDefs (uiDetailPanel ui) d) \<le> 1")
  case True
  then show ?thesis using assms by (auto simp: cycleDetailSubview_def ui_kept_def)
next
  case False
  let ?defs = "detailSubviewDefs (uiDetailPanel ui) d"
  have listed: "\<exists>def. at_index ?defs (i mod int (length ?defs)) = Some def \<and> fst def \<in> subviews_of (uiDetailPanel ui)" for i
    using at_index_mod [of ?defs i] False subviews_listed [of _ "uiDetailPanel ui" d] by fastforce
  show ?thesis
  proof -
    obtain i where i: "cycleDetailSubview d step ui =
        map_option (\<lambda>def. (True, ui\<lparr>uiDetailView := (uiDetailView ui)(uiDetailPanel ui \<mapsto> fst def)\<rparr>)) (at_index ?defs (i mod int (length ?defs)))"
      using False by (simp add: cycleDetailSubview_def Let_def)
    show ?thesis using listed [of i] assms unfolding i by (auto simp: ui_kept_def ui_ok_def)
  qed
qed

text \<open>The result of a key is one that keeps the interface in order.\<close>

definition key_kept :: "dashboardUI \<Rightarrow> key_result \<Rightarrow> bool" where
  "key_kept ui res \<longleftrightarrow> (\<exists>h a ui'. res = Some (h, a, ui') \<and> ui_kept ui ui')"

lemma if_moved_kept:
  assumes "cond \<Longrightarrow> \<exists>moved ui'. attempt = Some (moved, ui') \<and> ui_kept ui ui'"
    "\<And>ui'. ui_kept ui ui' \<Longrightarrow> key_kept ui (next ui')" "ui_ok ui"
  shows "key_kept ui (if_moved cond attempt next ui)"
proof (cases cond)
  case True
  then obtain moved ui' where a: "attempt = Some (moved, ui')" "ui_kept ui ui'" using assms(1) by blast
  then show ?thesis using assms(2) True by (cases moved) (auto simp: if_moved_def redrawn_def key_kept_def)
next
  case False
  then show ?thesis using assms(2) [of ui] assms(3) by (simp add: if_moved_def ui_kept_def)
qed

lemma opened_kept:
  "ui_ok ui \<Longrightarrow> ui_kept ui (openDetail panel ui)"
  "ui_ok ui \<Longrightarrow> ui_kept ui (openFocusedDetail ui)"
  "ui_ok ui \<Longrightarrow> ui_kept ui (returnToOverview ui)"
  "ui_ok ui \<Longrightarrow> ui_kept ui (ui\<lparr>uiHelpShown := b\<rparr>)"
  by (auto simp: ui_kept_def ui_ok_def openDetail_def openFocusedDetail_def returnToOverview_def resetDetailSubview_def focusedPanel_def
      subviews_of_def Let_def)

lemma key_keptI:
  "ui_kept ui ui' \<Longrightarrow> key_kept ui (unhandled ui')" "ui_kept ui ui' \<Longrightarrow> key_kept ui (redrawn ui')" "ui_ok ui \<Longrightarrow> key_kept ui (Some (h, a, ui))"
  by (auto simp: unhandled_def redrawn_def key_kept_def ui_kept_def)

lemma key_kept_if: "key_kept ui x \<Longrightarrow> key_kept ui y \<Longrightarrow> key_kept ui (if c then x else y)"
  by simp

lemma ui_kept_ok: "ui_kept ui ui' \<Longrightarrow> ui_ok ui'"
  by (simp add: ui_kept_def)

lemma key_kept_trans: "ui_kept ui ui' \<Longrightarrow> key_kept ui' res \<Longrightarrow> key_kept ui res"
  by (auto simp: key_kept_def ui_kept_def)

lemma rune_move_kept:
  "ui_ok ui \<Longrightarrow> key_kept ui (if_moved (\<not> on_overview ui) (cycleDetailSubview d step ui) unhandled ui)"
  "ui_ok ui \<Longrightarrow> key_kept ui (if_moved (on_overview ui) (moveFocus x y ui) unhandled ui)"
  by (rule if_moved_kept; simp add: cycleDetailSubview_kept moveFocus_kept key_keptI)+

lemma handleRune_kept: "ui_ok ui \<Longrightarrow> key_kept ui (handleRune r latest ui)"
  unfolding handleRune_def by (intro key_kept_if key_keptI opened_kept rune_move_kept; simp add: ui_kept_def)

lemma key_move_kept:
  "ui_ok ui \<Longrightarrow> key_kept ui (if_moved (on_overview ui) (moveFocus x y ui) (handleRune r latest) ui)"
  by (rule if_moved_kept) (simp_all add: moveFocus_kept key_kept_trans [OF _ handleRune_kept [OF ui_kept_ok]])

lemma key_sideways_kept:
  assumes "\<And>ui'. ui_ok ui' \<Longrightarrow> key_kept ui' (next ui')" "ui_ok ui"
  shows "key_kept ui (if_moved (\<not> on_overview ui) (cycleDetailSubview d step ui) next ui)"
  using assms(2) by (intro if_moved_kept) (simp_all add: cycleDetailSubview_kept key_kept_trans [OF _ assms(1) [OF ui_kept_ok]])

lemma key_focus_kept:
  "ui_ok ui \<Longrightarrow> key_kept ui (if on_overview ui then (case cycleFocus step ui of None \<Rightarrow> None | Some ui \<Rightarrow> redrawn ui) else handleRune r latest ui)"
  using cycleFocus_kept [of ui step] handleRune_kept [of ui r latest] key_keptI(2) by auto

lemma handleKey_kept: "ui_ok ui \<Longrightarrow> key_kept ui (handleKey key r latest ui)"
  unfolding handleKey_def Let_def
  by (cases key; simp only: tcell_key.simps;
      intro key_kept_if key_keptI opened_kept handleRune_kept key_sideways_kept key_move_kept key_focus_kept; assumption)

lemma push_history:
  assumes "ui_ok ui" "uiHistory ui = drop (length ds - 16) ds"
  shows "ui_ok (pushHistory d ui) \<and> uiHistory (pushHistory d ui) = drop (length (ds @ [d]) - 16) (ds @ [d])"
proof (cases "16 \<le> length ds")
  case True
  then have "Suc (length ds - 16) = length ds - 15" by simp
  with True assms show ?thesis by (auto simp: pushHistory_def ui_ok_def Let_def)
next
  case False
  with assms show ?thesis by (auto simp: pushHistory_def ui_ok_def Let_def)
qed

text \<open>The dashboards among the events.\<close>

fun dashboards :: "ui_event list \<Rightarrow> Dashboard list" where
  "dashboards [] = []"
| "dashboards (UiKey _ _ # es) = dashboards es"
| "dashboards (UiDashboard d # es) = d # dashboards es"

lemma ui_run_kept:
  assumes "ui_ok ui" "uiHistory ui = drop (length ds - 16) ds" "latest = last ds" "ds \<noteq> []"
  shows "\<exists>ui' latest'. ui_run es (ui, latest) = Some (ui', latest') \<and> ui_ok ui'
    \<and> uiHistory ui' = drop (length (ds @ dashboards es) - 16) (ds @ dashboards es) \<and> latest' = last (ds @ dashboards es)"
  using assms
proof (induction es arbitrary: ui latest ds)
  case (Cons e es)
  show ?case
  proof (cases e)
    case (UiKey key r)
    obtain h a ui' where "handleKey key r latest ui = Some (h, a, ui')" "ui_kept ui ui'"
      using handleKey_kept [OF Cons.prems(1)] unfolding key_kept_def by blast
    with Cons.IH [of ui' ds latest] Cons.prems UiKey show ?thesis by (simp add: ui_kept_def)
  next
    case (UiDashboard d)
    with Cons.IH [of "pushHistory d ui" "ds @ [d]" d] push_history [OF Cons.prems(1,2), of d] show ?thesis by simp
  qed
qed simp

lemma fl_halves: "fl (1 / 2) = 1 / 2" "fl (15 / 2) = 15 / 2"
  by code_simp+

lemma spark_fold_min: "fold (\<lambda>value m. if value < m then value else m) xs (a :: rat) = Min (insert a (set xs))"
proof (induction xs arbitrary: a)
  case (Cons x xs)
  have "Min (insert a (insert x (set xs))) = Min (insert (min a x) (set xs))" by (cases "xs = []") (simp_all add: min.assoc)
  with Cons [of "min a x"] show ?case by (auto simp: min_def not_less)
qed simp

lemma spark_fold_max: "fold (\<lambda>value m. if m < value then value else m) xs (a :: rat) = Max (insert a (set xs))"
proof (induction xs arbitrary: a)
  case (Cons x xs)
  have "Max (insert a (insert x (set xs))) = Max (insert (max a x) (set xs))" by (cases "xs = []") (simp_all add: max.assoc)
  with Cons [of "max a x"] show ?case by (auto simp: max_def not_less)
qed simp

lemma spark_min_max:
  assumes "values \<noteq> []"
  shows "spark_min values = Min (set values)" "spark_max values = Max (set values)"
  using assms by (cases "values"; simp add: spark_min_def spark_max_def spark_fold_min spark_fold_max)+

text \<open>The scaled value before it is cut to an integer.\<close>

definition spark_scaled :: "rat \<Rightarrow> rat \<Rightarrow> rat \<Rightarrow> rat" where
  "spark_scaled lo hi v = f_add (f_mul (f_div (f_add v (- lo)) (f_add hi (- lo))) 7) (1 / 2)"

lemma spark_scaled_mono:
  assumes "lo < hi" "lo \<le> v" "v \<le> v'"
  shows "spark_scaled lo hi v \<le> spark_scaled lo hi v'"
proof -
  have "0 < f_add hi (- lo)" using assms(1) by (simp add: f_add_def fl_gt_0)
  moreover have "f_add v (- lo) \<le> f_add v' (- lo)" using assms(3) by (simp add: f_add_def fl_mono)
  ultimately have "f_div (f_add v (- lo)) (f_add hi (- lo)) \<le> f_div (f_add v' (- lo)) (f_add hi (- lo))"
    by (simp add: f_div_def fl_mono divide_right_mono)
  then have "f_mul (f_div (f_add v (- lo)) (f_add hi (- lo))) 7 \<le> f_mul (f_div (f_add v' (- lo)) (f_add hi (- lo))) 7"
    by (simp add: f_mul_def fl_mono)
  then show ?thesis by (simp add: spark_scaled_def f_add_def fl_mono)
qed

lemma spark_scaled_ends:
  assumes "lo < hi"
  shows "spark_scaled lo hi lo = 1 / 2" "spark_scaled lo hi hi = 15 / 2"
proof -
  have "0 < fl (hi - lo)" using assms by (simp add: fl_gt_0)
  moreover have "fl 7 = 7" using fl_of_int [of 7] by simp
  ultimately show "spark_scaled lo hi lo = 1 / 2" "spark_scaled lo hi hi = 15 / 2"
    by (simp_all add: spark_scaled_def f_add_def f_mul_def f_div_def fl_halves)
qed

lemma spark_index_scaled:
  assumes "lo < hi" "lo \<le> v" "v \<le> hi"
  shows "spark_index lo hi v = \<lfloor>spark_scaled lo hi v\<rfloor> \<and> 0 \<le> spark_index lo hi v \<and> spark_index lo hi v \<le> 7"
proof -
  have b: "1 / 2 \<le> spark_scaled lo hi v" "spark_scaled lo hi v \<le> 15 / 2"
    using spark_scaled_mono [OF assms(1) order_refl assms(2)] spark_scaled_mono [OF assms] spark_scaled_ends [OF assms(1)] by simp_all
  then have "0 \<le> \<lfloor>spark_scaled lo hi v\<rfloor>" "\<lfloor>spark_scaled lo hi v\<rfloor> \<le> 7" by (simp_all add: floor_le_iff)
  with b show ?thesis by (simp add: spark_index_def spark_scaled_def [symmetric] int_of_f_def Let_def)
qed

section \<open>Properties\<close>



text \<open>
  A trend line is to scale: unless all values are equal there is one character for each value, taken from
  the eight of the scale, a larger value never has a lower character, the smallest value shows the lowest
  and the largest value the highest.  Rounding never leaves the scale, so the two guards of the index
  do not act.
\<close>

lemma sparkline_to_scale:
  assumes "a \<in> set values" "b \<in> set values" "a \<noteq> b"
  shows "\<exists>pos. asciiSparkline values = map (\<lambda>v. ''._:-=+*#'' ! pos v) values
    \<and> (\<forall>v\<in>set values. \<forall>v'\<in>set values. v \<le> v' \<longrightarrow> pos v \<le> pos v') \<and> (\<forall>v\<in>set values. pos v < 8)
    \<and> pos (Min (set values)) = 0 \<and> pos (Max (set values)) = 7"
proof -
  let ?lo = "Min (set values)" and ?hi = "Max (set values)"
  have in_range: "v \<in> set values \<Longrightarrow> ?lo \<le> v \<and> v \<le> ?hi" for v by simp
  have ne: "values \<noteq> []" using assms(1) by auto
  have lt: "?lo < ?hi"
  proof (rule ccontr)
    assume "\<not> ?lo < ?hi"
    with in_range [OF assms(1)] in_range [OF assms(2)] have "a = b" by linarith
    with assms(3) show False by simp
  qed
  define pos where "pos = (\<lambda>v. nat (spark_index ?lo ?hi v))"
  have scaled: "spark_index ?lo ?hi v = \<lfloor>spark_scaled ?lo ?hi v\<rfloor>" "pos v < 8" if "?lo \<le> v" "v \<le> ?hi" for v
    using spark_index_scaled [OF lt that] unfolding pos_def by linarith+
  have mono: "pos v \<le> pos v'" if "v \<in> set values" "v' \<in> set values" "v \<le> v'" for v v'
    using that in_range scaled(1) spark_scaled_mono [OF lt, of v v'] by (simp add: pos_def floor_mono nat_mono)
  have seven: "\<lfloor>15 / 2 :: rat\<rfloor> = 7" by (rule floor_unique) simp_all
  have ends: "pos ?lo = 0" "pos ?hi = 7"
    using seven scaled(1) [of ?lo] scaled(1) [of ?hi] lt spark_scaled_ends [OF lt] by (simp_all add: pos_def)
  have "asciiSparkline values = map (\<lambda>v. ''._:-=+*#'' ! pos v) values"
    using ne lt by (simp add: asciiSparkline_def spark_min_max pos_def)
  then show ?thesis using mono ends scaled(2) in_range by blast
qed

lemma sparkline_to_scale_example: "\<exists>c. asciiSparkline [1, 3, 2] = [CHR ''.'', CHR ''#'', c]"
proof -
  have "Min (set [1, 3, 2 :: rat]) = 1" "Max (set [1, 3, 2 :: rat]) = 3" by simp_all
  with sparkline_to_scale [of 1 "[1, 3, 2]" 3] obtain pos :: "rat \<Rightarrow> nat" where
    "asciiSparkline [1, 3, 2] = map (\<lambda>v. ''._:-=+*#'' ! pos v) [1, 3, 2]" "pos 1 = 0" "pos 3 = 7" by auto
  then show ?thesis by simp
qed

end
