(* ===== verification/Observability.thy ===== *)
theory Observability
  imports Resolution Tui_Dashboard
begin

text \<open>
  The exit metrics of the state machine and the dashboard that reads them.  The resolver counts, when a run
  ends, the edge from its last state to one of the exits, and before it the reason when the run failed
  (\<open>src/server/state_machine.go\<close>); the dashboard attaches each reason to the exit it takes it to belong
  to (\<open>stateMachineFailureExit\<close> of \<open>src/tui/dashboard.go\<close>).  The theory shows that the two agree.
\<close>

section \<open>What a finished run has counted\<close>

definition failure_counted :: "'c world \<Rightarrow> bool" where
  "failure_counted w \<longleftrightarrow> (\<exists>before state reason.
     wEvents w = before @ [StateMachineFailureAdd reason, StateMachineTransitionAdd state (stateMachineFailureExit reason)])"

definition plain_exit_counted :: "'c world \<Rightarrow> bool" where
  "plain_exit_counted w \<longleftrightarrow> (\<exists>before state exit.
     wEvents w = before @ [StateMachineTransitionAdd state exit] \<and> exit \<in> {''success_exit'', ''refused_exit'', ''error_exit''})"

definition exit_counted :: "go_error option \<Rightarrow> 'c world \<Rightarrow> bool" where
  "exit_counted err w \<longleftrightarrow> failure_counted w \<or> err = None \<and> plain_exit_counted w"

fun result_counted :: "'c step_result \<Rightarrow> bool" where
  "result_counted (Next m w) = True"
| "result_counted (Return res err s w) = exit_counted err w"

lemma events_of_exit [simp]: "eOn E \<Longrightarrow> wEvents (recordTerminalExit E k exit w) = wEvents w @ [StateMachineTransitionAdd (stateMetricName (state_num k)) exit]"
  by (simp add: recordTerminalExit_def recordTraceTerminal_def emit_always_def)

lemma events_of_emit [simp]: "eOn E \<Longrightarrow> wEvents (emit_on E es w) = wEvents w @ es"
  by (simp add: emit_on_def emit_always_def)

lemma failure_countedI:
  "eOn E \<Longrightarrow> exit = stateMachineFailureExit reason \<Longrightarrow> failure_counted (recordTerminalExit E k exit (emit_on E [StateMachineFailureAdd reason] w))"
  by (simp add: failure_counted_def)

lemma plain_exitI:
  "eOn E \<Longrightarrow> exit \<in> {''success_exit'', ''refused_exit'', ''error_exit''} \<Longrightarrow> plain_exit_counted (recordTerminalExit E k exit w)"
  by (simp add: plain_exit_counted_def)

text \<open>The exit of every reason the machine uses.\<close>

lemma exit_of_reasons:
  "stateMachineFailureExit ''formerr'' = ''formerr_exit''"
  "stateMachineFailureExit ''forward_lookup_servfail'' = ''servfail_exit''"
  "stateMachineFailureExit ''query_upstream_error'' = ''servfail_exit''"
  "stateMachineFailureExit ''max_iterations'' = ''max_iterations_exit''"
  "stateMachineFailureExit ''cname_cycle'' = ''error_exit''"
  "stateMachineFailureExit ''hosts_lookup_wrong_state'' = ''error_exit''"
  "stateMachineFailureExit ''forward_lookup_wrong_state'' = ''error_exit''"
  "stateMachineFailureExit ''cache_lookup_wrong_state'' = ''error_exit''"
  "stateMachineFailureExit ''classify_resp_wrong_state'' = ''error_exit''"
  "stateMachineFailureExit ''extract_glue_wrong_state'' = ''error_exit''"
  "stateMachineFailureExit ''lookup_ns_cache_wrong_state'' = ''error_exit''"
  "stateMachineFailureExit ''query_upstream_wrong_state'' = ''error_exit''"
  by code_simp+

lemma exit_of_handle_error: "stateMachineFailureExit (stateMetricName (state_num k) @ ''_handle_error'') = ''error_exit''"
proof -
  have "list_all (\<lambda>k. stateMachineFailureExit (stateMetricName (state_num k) @ ''_handle_error'') = ''error_exit'')
      [STATE_INIT, HOSTS_LOOKUP, FORWARD_LOOKUP, CACHE_LOOKUP, CLASSIFY_RESP, EXTRACT_GLUE, LOOKUP_NS_CACHE, QUERY_UPSTREAM, RETURN_RESP]"
    by code_simp
  then show ?thesis by (cases k) simp_all
qed

lemma error_exit_counted:
  "eOn E \<Longrightarrow> stateMachineFailureExit reason = ''error_exit'' \<Longrightarrow> error_exit E m reason err w = Some r \<Longrightarrow> result_counted r"
  by (auto simp: error_exit_def exit_counted_def failure_countedI)

lemma wrong_state_counted:
  "eOn E \<Longrightarrow> stateMachineFailureExit reason = ''error_exit'' \<Longrightarrow> wrong_state E m reason w = Some r \<Longrightarrow> result_counted r"
  unfolding wrong_state_def by (rule error_exit_counted)

lemma servfail_exit_counted:
  "eOn E \<Longrightarrow> stateMachineFailureExit reason = ''servfail_exit'' \<Longrightarrow> servfail_exit E m reason w = Some r \<Longrightarrow> result_counted r"
  by (auto simp: servfail_exit_def exit_counted_def failure_countedI split: option.splits)

lemma refused_exit_counted: "eOn E \<Longrightarrow> refused_exit E m w = Some r \<Longrightarrow> result_counted r"
  by (auto simp: refused_exit_def exit_counted_def plain_exitI split: option.splits)

lemma go_on_counted: "go_on E m k w = Some r \<Longrightarrow> result_counted r"
  by (auto simp: go_on_def)

text \<open>The exits at the reasons they are used with.\<close>

lemmas reasons_counted =
  servfail_exit_counted [OF _ exit_of_reasons(2)] servfail_exit_counted [OF _ exit_of_reasons(3)] error_exit_counted [OF _ exit_of_reasons(5)]
  exit_of_reasons(6-12) [THEN wrong_state_counted [rotated]]

lemma cases_counted:
  assumes "eOn E"
  shows "case_STATE_INIT E m ret w = Some r \<Longrightarrow> result_counted r"
    "case_HOSTS_LOOKUP E m ret w = Some r \<Longrightarrow> result_counted r"
    "case_FORWARD_LOOKUP E m ret w = Some r \<Longrightarrow> result_counted r"
    "case_CACHE_LOOKUP E m ret w = Some r \<Longrightarrow> result_counted r"
    "case_CLASSIFY_RESP E m ret w = Some r \<Longrightarrow> result_counted r"
    "case_EXTRACT_GLUE E m ret w = Some r \<Longrightarrow> result_counted r"
    "case_LOOKUP_NS_CACHE E m ret w = Some r \<Longrightarrow> result_counted r"
    "case_QUERY_UPSTREAM E m ret w = Some r \<Longrightarrow> result_counted r"
    "case_RETURN_RESP E origQ m w = Some r \<Longrightarrow> result_counted r"
  using assms
  by (auto simp: case_STATE_INIT_def case_HOSTS_LOOKUP_def case_FORWARD_LOOKUP_def case_CACHE_LOOKUP_def case_CLASSIFY_RESP_def
      case_EXTRACT_GLUE_def case_LOOKUP_NS_CACHE_def case_QUERY_UPSTREAM_def case_RETURN_RESP_def Let_def
      exit_counted_def failure_countedI plain_exitI exit_of_reasons bind_eq_Some_conv
      dest: go_on_counted refused_exit_counted reasons_counted split: if_splits option.splits prod.splits)

lemma iteration_counted:
  assumes "eOn E" "iteration nested E origQ m w = Some r"
  shows "result_counted r"
proof -
  obtain ret err s w' where h: "handleState nested E m (emit_on E [StateMachineStageAdd (stateMetricName (state_num (m_kind m)))]
      (recordTraceState (stateMetricName (state_num (m_kind m))) w)) = Some (ret, err, s, w')"
    using assms(2) by (auto simp: iteration_def Let_def bind_eq_Some_conv)
  show ?thesis
  proof (cases err)
    case None
    then show ?thesis using assms h by (cases "m_kind m") (auto simp: iteration_def Let_def dest: cases_counted)
  next
    case (Some e)
    then show ?thesis using assms h error_exit_counted [OF assms(1) exit_of_handle_error] by (simp add: iteration_def Let_def)
  qed
qed

lemma change_loop_counted:
  "eOn E \<Longrightarrow> change_loop nested E origQ n m w = Some (res, err, s', w') \<Longrightarrow> exit_counted err w'"
proof (induction n arbitrary: m w)
  case 0
  then show ?case by (auto simp: max_iterations_exit_def exit_counted_def failure_countedI exit_of_reasons)
next
  case (Suc n)
  then obtain r where r: "iteration nested E origQ m w = Some r" by (auto simp: bind_eq_Some_conv)
  with Suc iteration_counted [OF Suc.prems(1) r] show ?case by (cases r) auto
qed

section \<open>Properties\<close>

text \<open>
  C20. Resolver and dashboard agree on how a run ended: with metrics on, a resolution returns, and the last
  thing it counts is an edge to a terminal node of the dashboard; a failed run has counted its reason just
  before, and the exit the dashboard attaches to that reason is the one the edge leads to.
\<close>

theorem exit_metrics_agree:
  assumes "env_ok E" "world_ok E w" "state_ok s" "eOn E"
  shows "\<exists>res err s' w' before state exit. Change E s w = Some (res, err, s', w')
    \<and> wEvents w' = before @ [StateMachineTransitionAdd state exit] \<and> isStateMachineTerminalNode exit
    \<and> ((\<exists>before' reason. before = before' @ [StateMachineFailureAdd reason] \<and> exit = stateMachineFailureExit reason)
       \<or> err = None \<and> exit \<in> {''success_exit'', ''refused_exit'', ''error_exit''})"
proof -
  obtain res err s' w' where ch: "Change E s w = Some (res, err, s', w')"
    using Change_ok [OF assms(1,3,2)] by (auto simp: wp_result)
  then have "exit_counted err w'"
    using change_loop_counted [OF assms(4)] by (auto simp: Change_def numeral_2_eq_2 Change_with_def split: option.splits)
  moreover have "isStateMachineTerminalNode (stateMachineFailureExit reason)" for reason
    by (simp add: stateMachineFailureExit_def isStateMachineTerminalNode_def)
  moreover have "exit \<in> {''success_exit'', ''refused_exit'', ''error_exit''} \<Longrightarrow> isStateMachineTerminalNode exit" for exit
    by (auto simp: isStateMachineTerminalNode_def)
  ultimately show ?thesis
    unfolding exit_counted_def failure_counted_def plain_exit_counted_def using ch by fastforce
qed

theorem exit_metrics_agree_witness:
  "\<exists>res err s' w' before state exit. Change (ref_env\<lparr>eOn := True\<rparr>) (example_state ''a.'') ref_world = Some (res, err, s', w')
    \<and> wEvents w' = before @ [StateMachineTransitionAdd state exit] \<and> isStateMachineTerminalNode exit"
proof -
  have "env_ok (ref_env\<lparr>eOn := True\<rparr>)" "world_ok (ref_env\<lparr>eOn := True\<rparr>) ref_world" "state_ok (example_state ''a.'')" "eOn (ref_env\<lparr>eOn := True\<rparr>)"
    using ref_ok(2) by (simp_all add: env_ok_def world_ok_def)
  from exit_metrics_agree [OF this] show ?thesis by blast
qed

end
