(* ===== verification/Background.thy ===== *)
theory Background
  imports Go_Format Hot_Zone Xdp_Sync
begin

text \<open>
  What runs beside the requests: the reading of \<open>/proc/stat\<close> behind the CPU sampler
  (\<open>readCPUStat\<close> of \<open>src/server/hot_zone_protection.go\<close>), the two ticker loops over the maps of the
  kernel (\<open>src/server/xdp_metrics.go\<close>) and the guard around the map update (\<open>src/server/xdp_sync.go\<close>).
\<close>

section \<open>The CPU counters\<close>

text \<open>\<open>fmt.Sscanf(s, "%d", &v)\<close> for an unsigned 64-bit \<open>v\<close>: the digits at the front, which must fit.\<close>

definition sscanf_u64 :: "string \<Rightarrow> u64 option" where
  "sscanf_u64 s =
     (let tok = takeWhile is_digit (dropWhile is_space s)
      in if tok = [] \<or> 2 ^ 64 \<le> digits_val tok then None else Some (of_nat (digits_val tok)))"

fun scan_values :: "string list \<Rightarrow> u64 list option" where
  "scan_values [] = Some []"
| "scan_values (f # fs) =
     (case sscanf_u64 f of None \<Rightarrow> None | Some v \<Rightarrow> map_option ((#) v) (scan_values fs))"

text \<open>The argument is the content of the file, \<open>None\<close> when it cannot be read; the array of values is zero
  where the line has fewer fields.\<close>

definition readCPUStat :: "string option \<Rightarrow> (u64 \<times> u64) option" where
  "readCPUStat file =
     (case file of
        None \<Rightarrow> None
      | Some content \<Rightarrow>
          let fields = strings_Fields (takeWhile (\<lambda>c. c \<noteq> CHR 0x0A) content)
          in if length fields < 5 \<or> hd fields \<noteq> ''cpu'' then None
             else case scan_values (take 8 (tl fields)) of
               None \<Rightarrow> None
             | Some scanned \<Rightarrow>
                 let values = scanned @ replicate (8 - length scanned) 0
                 in Some (fold (+) scanned 0, values ! 3 + values ! 4))"

section \<open>The loops over the maps of the kernel\<close>

text \<open>How a call of the map ends; \<open>eBpfOk\<close> of the environment says whether the guarded update gave no error.\<close>

datatype bpf_call = BpfReturns "string option" | BpfPanics string

fun safeBPFMapUpdate :: "bpf_call \<Rightarrow> string option" where
  "safeBPFMapUpdate (BpfReturns err) = err"
| "safeBPFMapUpdate (BpfPanics r) = Some (''bpf map update panic: '' @ r)"

text \<open>A loop runs its body once for each tick before the context is cancelled; a tick is what the kernel
  answers then.  The results are the values published.\<close>

definition startXDPMetricsLoop :: "bool \<Rightarrow> (u32 \<Rightarrow> u64 list option) list \<Rightarrow> (rat \<times> rat \<times> rat \<times> rat) list" where
  "startXDPMetricsLoop mapped ticks = (if \<not> mapped then [] else map collectXDPStats ticks)"

record cleanup_tick =
  ctClock :: "u64 option"
  ctEntries :: "(dnsCacheCacheKey \<times> dnsCacheCacheValue) list"
  ctDelOk :: "dnsCacheCacheKey \<Rightarrow> bool"

definition startXDPCleanupLoop :: "bool \<Rightarrow> bool \<Rightarrow> cleanup_tick list \<Rightarrow> (nat \<times> dnsCacheCacheKey list \<times> metric_event list) list" where
  "startXDPCleanupLoop mapped on ticks =
     (if \<not> mapped then [] else map (\<lambda>t. cleanupExpiredBPFEntries on (ctClock t) (ctEntries t) (ctDelOk t)) ticks)"

section \<open>Lemmas\<close>

lemma digit_not_space: "is_digit c \<Longrightarrow> \<not> is_space c"
  by (auto simp: is_digit_def is_space_def)

lemma digit_not_newline: "is_digit c \<Longrightarrow> c \<noteq> CHR 0x0A"
  by (auto simp: is_digit_def)

lemma dropWhile_digits [simp]: "dropWhile is_space (nat_digits n) = nat_digits n"
  using nat_digits_digits [of "hd (nat_digits n)" n] digit_not_space
  by (cases "nat_digits n") (auto simp: nat_digits_not_Nil [symmetric] simp del: nat_digits_not_Nil)

lemma sscanf_digits: "n < 2 ^ 64 \<Longrightarrow> sscanf_u64 (nat_digits n) = Some (of_nat n)"
  using nat_digits_digits [of _ n] by (simp add: sscanf_u64_def Let_def takeWhile_eq_all_conv [THEN iffD2])

lemma scan_values_digits: "\<forall>n\<in>set ns. n < 2 ^ 64 \<Longrightarrow> scan_values (map nat_digits ns) = Some (map of_nat ns)"
  by (induction ns) (simp_all add: sscanf_digits)

text \<open>The fields of a line that is a list of words, each after at least one blank.\<close>

lemma fields_word:
  assumes "\<forall>c\<in>set w. \<not> is_space c" "w \<noteq> []" "rest = [] \<or> is_space (hd rest)"
  shows "strings_Fields (w @ rest) = w # strings_Fields rest"
proof -
  have "dropWhile is_space (w @ rest) = w @ rest" using assms(1,2) by (cases w) auto
  moreover have "takeWhile (\<lambda>c. \<not> is_space c) (w @ rest) = w" "dropWhile (\<lambda>c. \<not> is_space c) (w @ rest) = rest"
    using assms(1,3) by (cases rest; simp add: takeWhile_append dropWhile_append)+
  ultimately show ?thesis using assms(2) by (subst strings_Fields.simps) (simp add: Let_def)
qed

lemma fields_blank [simp]: "strings_Fields (CHR '' '' # s) = strings_Fields s"
  by (subst (1 2) strings_Fields.simps) (simp add: is_space_def)

lemma fields_empty [simp]: "strings_Fields [] = []"
  by (subst strings_Fields.simps) simp

definition stat_words :: "nat list \<Rightarrow> string" where
  "stat_words ns = concat (map (\<lambda>n. CHR '' '' # nat_digits n) ns)"

lemma fields_stat_words: "strings_Fields (stat_words ns) = map nat_digits ns"
proof (induction ns)
  case (Cons n ns)
  have "stat_words ns = [] \<or> is_space (hd (stat_words ns))" by (cases ns) (simp_all add: stat_words_def is_space_def)
  with Cons fields_word [of "nat_digits n" "stat_words ns"] show ?case
    using nat_digits_digits digit_not_space by (fastforce simp: stat_words_def)
qed (simp add: stat_words_def)

lemma fold_plus_words: "fold (+) (map of_nat ns) (a :: u64) = a + of_nat (sum_list ns)"
  by (induction ns arbitrary: a) (simp_all add: algebra_simps)

text \<open>
  Reading what the kernel prints gives the sum of its first eight counters and the sum of the fourth and the
  fifth, modulo \<open>2 ^ 64\<close>.
\<close>

lemma readCPUStat_exact:
  assumes "5 \<le> length ns" "\<forall>n\<in>set ns. n < 2 ^ 64"
  shows "readCPUStat (Some (''cpu '' @ stat_words ns @ CHR 0x0A # rest)) = Some (of_nat (sum_list (take 8 ns)), of_nat (ns ! 3 + ns ! 4))"
proof -
  have nl: "\<forall>c\<in>set (''cpu '' @ stat_words ns). c \<noteq> CHR 0x0A"
    using digit_not_newline by (auto simp: stat_words_def dest: nat_digits_digits)
  then have line: "takeWhile (\<lambda>c. c \<noteq> CHR 0x0A) ((''cpu '' @ stat_words ns) @ CHR 0x0A # rest) = ''cpu '' @ stat_words ns"
    by (subst takeWhile_append2) auto
  have fs: "strings_Fields (''cpu '' @ stat_words ns) = ''cpu'' # map nat_digits ns"
    using fields_word [of "''cpu''" "'' '' @ stat_words ns"] by (simp add: fields_stat_words is_space_def)
  have sv: "scan_values (map nat_digits (take 8 ns)) = Some (map of_nat (take 8 ns))"
    using assms(2) by (intro scan_values_digits) (meson in_set_takeD)
  show ?thesis
    using line fs sv assms(1) by (simp add: readCPUStat_def take_map nth_append fold_plus_words)
qed

lemma cleanup_loop_keeps_live:
  assumes "(n, ks, evs) \<in> set (startXDPCleanupLoop mapped on ticks)" "k \<in> set ks"
  shows "\<exists>t\<in>set ticks. \<exists>now v. ctClock t = Some now \<and> (k, v) \<in> set (ctEntries t) \<and> bv_ExpireTs v \<le> now"
proof -
  obtain t where t: "t \<in> set ticks" "(n, ks, evs) = cleanupExpiredBPFEntries on (ctClock t) (ctEntries t) (ctDelOk t)"
    using assms(1) by (auto simp: startXDPCleanupLoop_def split: if_splits)
  then show ?thesis using assms(2)
    by (intro bexI [of _ t]) (auto simp: cleanupExpiredBPFEntries_def collect_expired_spec Let_def split: option.splits)
qed

end
