(* ===== verification/Metric_Registry.thy ===== *)
theory Metric_Registry
  imports Metrics Tui_Dashboard
begin

text \<open>
  The metric families of the resolver (\<open>src/monitor/var.go\<close>), their registration and the calls the methods of
  \<open>Metric\<close> make on them (\<open>src/monitor/metric.go\<close>).  The families belong to the Prometheus client; what the
  code relies on is that registering a second family of the same name panics, and so does asking a family
  for a child with another number of label values than it has labels.
\<close>

section \<open>Families\<close>

datatype metric_kind = CounterKind | GaugeKind | HistogramKind "rat list"

record metric_family =
  mfName :: string
  mfKind :: metric_kind
  mfLabels :: "string list"

definition counter_vec :: "string \<Rightarrow> string list \<Rightarrow> metric_family" where
  "counter_vec name labs = \<lparr>mfName = name, mfKind = CounterKind, mfLabels = labs\<rparr>"

definition gauge_vec :: "string \<Rightarrow> string list \<Rightarrow> metric_family" where
  "gauge_vec name labs = \<lparr>mfName = name, mfKind = GaugeKind, mfLabels = labs\<rparr>"

definition histogram_vec :: "string \<Rightarrow> rat list \<Rightarrow> string list \<Rightarrow> metric_family" where
  "histogram_vec name buckets labs = \<lparr>mfName = name, mfKind = HistogramKind buckets, mfLabels = labs\<rparr>"

definition query_families :: "metric_family list" where
  "query_families =
     [counter_vec ''rec53_query_counter'' [''stage'', ''type''], counter_vec ''rec53_response_counter'' [''stage'', ''type'', ''code''],
      histogram_vec ''rec53_latency'' [10, 50, 200, 1000, 3000] [''stage'', ''type'', ''code'']]"

definition ip_families :: "metric_family list" where
  "ip_families =
     [gauge_vec ''rec53_ipv2_p50_latency_ms'' [''ip''], gauge_vec ''rec53_ipv2_p95_latency_ms'' [''ip''], gauge_vec ''rec53_ipv2_p99_latency_ms'' [''ip'']]"

definition xdp_counter_families :: "metric_family list" where
  "xdp_counter_families =
     [gauge_vec ''rec53_xdp_status'' [], gauge_vec ''rec53_xdp_cache_hits_total'' [], gauge_vec ''rec53_xdp_cache_misses_total'' [],
      gauge_vec ''rec53_xdp_pass_total'' [], gauge_vec ''rec53_xdp_errors_total'' []]"

definition cache_families :: "metric_family list" where
  "cache_families =
     [counter_vec ''rec53_cache_lookup_total'' [''result''], gauge_vec ''rec53_cache_entries'' [], counter_vec ''rec53_cache_lifecycle_total'' [''event'']]"

definition snapshot_families :: "metric_family list" where
  "snapshot_families =
     [counter_vec ''rec53_snapshot_operations_total'' [''operation'', ''result''], counter_vec ''rec53_snapshot_entries_total'' [''operation'', ''result''],
      histogram_vec ''rec53_snapshot_duration_ms'' [1, 5, 10, 50, 100, 250, 500, 1000, 5000] [''operation'', ''result'']]"

definition upstream_families :: "metric_family list" where
  "upstream_families =
     [counter_vec ''rec53_upstream_failures_total'' [''reason'', ''rcode''], counter_vec ''rec53_upstream_fallback_total'' [''result''],
      counter_vec ''rec53_upstream_winner_total'' [''path''], counter_vec ''rec53_upstream_gate_events_total'' [''action'', ''path''],
      gauge_vec ''rec53_upstream_gate_inflight'' [], gauge_vec ''rec53_upstream_gate_limit'' []]"

definition xdp_sync_families :: "metric_family list" where
  "xdp_sync_families =
     [counter_vec ''rec53_xdp_cache_sync_errors_total'' [''reason''], counter_vec ''rec53_xdp_cleanup_deleted_total'' [], gauge_vec ''rec53_xdp_entries'' []]"

definition machine_families :: "metric_family list" where
  "machine_families =
     [counter_vec ''rec53_state_machine_stage_total'' [''stage''], counter_vec ''rec53_state_machine_failures_total'' [''reason''],
      counter_vec ''rec53_state_machine_transition_total'' [''from'', ''to'']]"

definition protection_families :: "metric_family list" where
  "protection_families =
     [counter_vec ''rec53_expensive_request_limit_total'' [''action'', ''path''], counter_vec ''rec53_hot_zone_protection_events_total'' [''event''],
      gauge_vec ''rec53_hot_zone_observe_mode'' [], gauge_vec ''rec53_hot_zone_protected'' [], gauge_vec ''rec53_hot_zone_avg_expensive_concurrency'' [],
      gauge_vec ''rec53_hot_zone_baseline_concurrency'' [], gauge_vec ''rec53_hot_zone_candidate_streak'' []]"

text \<open>\<open>Register\<close>: the families in the order they are registered.\<close>

definition registered_families :: "metric_family list" where
  "registered_families = query_families @ ip_families @ xdp_counter_families @ cache_families @ snapshot_families @ upstream_families
     @ xdp_sync_families @ machine_families @ protection_families"

text \<open>Registering one family after the other: \<open>None\<close> is the panic on a second family of a name.\<close>

fun must_register :: "metric_family list \<Rightarrow> metric_family list \<Rightarrow> metric_family list option" where
  "must_register [] reg = Some reg"
| "must_register (f # fs) reg = (if mfName f \<in> set (map mfName reg) then None else must_register fs (reg @ [f]))"

definition Register :: "metric_family list \<Rightarrow> metric_family list option" where
  "Register reg = must_register registered_families reg"

section \<open>Calls\<close>

datatype metric_call = IncBy "rat" | SetTo rat | ObserveOne

definition inc1 :: "string \<Rightarrow> string list \<Rightarrow> string \<times> string list \<times> metric_call" where
  "inc1 name values = (name, values, IncBy 1)"

text \<open>What each method of \<open>Metric\<close> asks of the client: the family, the label values and the operation.  The
  observed durations are not part of the events.\<close>

fun metric_calls :: "metric_event \<Rightarrow> (string \<times> string list \<times> metric_call) list" where
  "metric_calls (InCounterAdd stage qtype) = [inc1 ''rec53_query_counter'' [stage, qtype]]"
| "metric_calls (OutCounterAdd stage qtype code) = [inc1 ''rec53_response_counter'' [stage, qtype, code]]"
| "metric_calls (LatencyHistogramObserve stage qtype code) = [(''rec53_latency'', [stage, qtype, code], ObserveOne)]"
| "metric_calls (CacheLookupAdd result) = [inc1 ''rec53_cache_lookup_total'' [result]]"
| "metric_calls (CacheEntriesSet entries) = [(''rec53_cache_entries'', [], SetTo (f_of_int entries))]"
| "metric_calls (CacheLifecycleAdd event delta) = [(''rec53_cache_lifecycle_total'', [event], IncBy (f_of_int delta))]"
| "metric_calls (IPQualityV2GaugeSet ip p50 p95 p99) =
     [(''rec53_ipv2_p50_latency_ms'', [ip], SetTo (f_of_int p50)), (''rec53_ipv2_p95_latency_ms'', [ip], SetTo (f_of_int p95)),
      (''rec53_ipv2_p99_latency_ms'', [ip], SetTo (f_of_int p99))]"
| "metric_calls (SnapshotOperationAdd operation result) = [inc1 ''rec53_snapshot_operations_total'' [operation, result]]"
| "metric_calls (SnapshotEntriesAdd operation result n) = [(''rec53_snapshot_entries_total'', [operation, result], IncBy (f_of_int n))]"
| "metric_calls (SnapshotDurationObserve operation result) = [(''rec53_snapshot_duration_ms'', [operation, result], ObserveOne)]"
| "metric_calls (UpstreamFailureAdd reason rcode) = [inc1 ''rec53_upstream_failures_total'' [reason, rcode]]"
| "metric_calls (UpstreamFallbackAdd result) = [inc1 ''rec53_upstream_fallback_total'' [result]]"
| "metric_calls (UpstreamWinnerAdd path) = [inc1 ''rec53_upstream_winner_total'' [path]]"
| "metric_calls (UpstreamGateEventAdd action path) = [inc1 ''rec53_upstream_gate_events_total'' [action, path]]"
| "metric_calls (UpstreamGateInFlightSet value) = [(''rec53_upstream_gate_inflight'', [], SetTo (f_of_int value))]"
| "metric_calls (UpstreamGateLimitSet value) = [(''rec53_upstream_gate_limit'', [], SetTo (f_of_int value))]"
| "metric_calls (XDPSyncErrorAdd reason) = [inc1 ''rec53_xdp_cache_sync_errors_total'' [reason]]"
| "metric_calls (XDPCleanupDeletedAdd n) = [(''rec53_xdp_cleanup_deleted_total'', [], IncBy (f_of_int n))]"
| "metric_calls (XDPEntriesSet n) = [(''rec53_xdp_entries'', [], SetTo (f_of_int n))]"
| "metric_calls (StateMachineStageAdd stage) = [inc1 ''rec53_state_machine_stage_total'' [stage]]"
| "metric_calls (StateMachineFailureAdd reason) = [inc1 ''rec53_state_machine_failures_total'' [reason]]"
| "metric_calls (StateMachineTransitionAdd frm to) = [inc1 ''rec53_state_machine_transition_total'' [frm, to]]"
| "metric_calls (ExpensiveRequestLimitAdd action path) = [inc1 ''rec53_expensive_request_limit_total'' [action, path]]"
| "metric_calls (HotZoneEventAdd event) = [inc1 ''rec53_hot_zone_protection_events_total'' [event]]"
| "metric_calls (HotZoneObserveModeSet b) = [(''rec53_hot_zone_observe_mode'', [], SetTo (if b then 1 else 0))]"
| "metric_calls (HotZoneProtectedSet b) = [(''rec53_hot_zone_protected'', [], SetTo (if b then 1 else 0))]"
| "metric_calls (HotZoneAvgExpensiveConcurrencySet value) = [(''rec53_hot_zone_avg_expensive_concurrency'', [], SetTo value)]"
| "metric_calls (HotZoneBaselineConcurrencySet value) = [(''rec53_hot_zone_baseline_concurrency'', [], SetTo value)]"
| "metric_calls (HotZoneCandidateStreakSet n) = [(''rec53_hot_zone_candidate_streak'', [], SetTo (f_of_int n))]"

text \<open>The kind of family an operation is one of.\<close>

fun call_fits :: "metric_call \<Rightarrow> metric_kind \<Rightarrow> bool" where
  "call_fits (IncBy _) k = (k = CounterKind)"
| "call_fits (SetTo _) k = (k = GaugeKind)"
| "call_fits ObserveOne k = (\<exists>bs. k = HistogramKind bs)"

section \<open>Lemmas\<close>

lemmas family_defs = registered_families_def query_families_def ip_families_def xdp_counter_families_def cache_families_def snapshot_families_def
  upstream_families_def xdp_sync_families_def machine_families_def protection_families_def counter_vec_def gauge_vec_def histogram_vec_def

lemma must_register_distinct:
  "distinct (map mfName reg) \<Longrightarrow>
     must_register fs reg = (if distinct (map mfName (reg @ fs)) then Some (reg @ fs) else None)"
  by (induction fs arbitrary: reg) auto

lemma registered_names:
  "map mfName registered_families =
     [''rec53_query_counter'', ''rec53_response_counter'', ''rec53_latency'', ''rec53_ipv2_p50_latency_ms'',
      ''rec53_ipv2_p95_latency_ms'', ''rec53_ipv2_p99_latency_ms'', ''rec53_xdp_status'', ''rec53_xdp_cache_hits_total'',
      ''rec53_xdp_cache_misses_total'', ''rec53_xdp_pass_total'', ''rec53_xdp_errors_total'', ''rec53_cache_lookup_total'',
      ''rec53_cache_entries'', ''rec53_cache_lifecycle_total'', ''rec53_snapshot_operations_total'', ''rec53_snapshot_entries_total'',
      ''rec53_snapshot_duration_ms'', ''rec53_upstream_failures_total'', ''rec53_upstream_fallback_total'',
      ''rec53_upstream_winner_total'', ''rec53_upstream_gate_events_total'', ''rec53_upstream_gate_inflight'',
      ''rec53_upstream_gate_limit'', ''rec53_xdp_cache_sync_errors_total'', ''rec53_xdp_cleanup_deleted_total'', ''rec53_xdp_entries'',
      ''rec53_state_machine_stage_total'', ''rec53_state_machine_failures_total'', ''rec53_state_machine_transition_total'',
      ''rec53_expensive_request_limit_total'', ''rec53_hot_zone_protection_events_total'', ''rec53_hot_zone_observe_mode'',
      ''rec53_hot_zone_protected'', ''rec53_hot_zone_avg_expensive_concurrency'', ''rec53_hot_zone_baseline_concurrency'',
      ''rec53_hot_zone_candidate_streak'']"
  by (simp add: family_defs)

lemma families_distinct: "distinct (map mfName registered_families)"
  unfolding registered_names by simp

text \<open>The family of a name.\<close>

definition family_of :: "string \<Rightarrow> metric_family option" where
  "family_of name = List.find (\<lambda>f. mfName f = name) registered_families"

lemma family_of_unique:
  assumes "family_of name = Some f" "P f"
  shows "\<exists>!f. f \<in> set registered_families \<and> mfName f = name \<and> P f"
proof -
  have "f \<in> set registered_families" "mfName f = name" using assms(1) by (auto simp: family_of_def find_Some_iff)
  with assms(2) show ?thesis using families_distinct by (metis distinct_map inj_on_def)
qed

definition call_ok :: "string \<times> string list \<times> metric_call \<Rightarrow> bool" where
  "call_ok c = (case c of (name, values, call) \<Rightarrow>
     (case family_of name of None \<Rightarrow> False | Some f \<Rightarrow> length values = length (mfLabels f) \<and> call_fits call (mfKind f)))"

lemma calls_ok: "list_all call_ok (metric_calls ev)"
  by (cases ev) (simp_all add: inc1_def call_ok_def family_of_def family_defs)

text \<open>Two scrapes that agree on the registered families.\<close>

definition agree :: "MetricsSnapshot \<Rightarrow> MetricsSnapshot \<Rightarrow> bool" where
  "agree s s' \<longleftrightarrow> snAt s = snAt s' \<and> (\<forall>name\<in>set (map mfName registered_families).
     snCounters s name = snCounters s' name \<and> snGauges s name = snGauges s' name \<and> snHistograms s name = snHistograms s' name)"

lemma agree_maps:
  assumes "agree s s'" "name \<in> set (map mfName registered_families)"
  shows "snCounters s name = snCounters s' name" "snGauges s name = snGauges s' name" "snHistograms s name = snHistograms s' name"
  using assms unfolding agree_def by blast+

lemma agree_reads:
  assumes "agree s s'" "name \<in> set (map mfName registered_families)"
  shows "sn_sum s name = sn_sum s' name" "sumByLabel s name lab = sumByLabel s' name lab" "sumByLabelPair s name l r = sumByLabelPair s' name l r"
    "histogramBuckets s name = histogramBuckets s' name" "gaugeValue s name = gaugeValue s' name" "hasMetric s name = hasMetric s' name"
    "samples_of (snCounters s) name = samples_of (snCounters s') name" "snCounters s name = snCounters s' name"
  by (simp_all only: agree_maps [OF assms] sn_sum_def sumByLabel_def sumByLabelPair_def histogramBuckets_def gaugeValue_def hasMetric_def aggregateSamples_def samples_of_def)

text \<open>The families the dashboard reads.\<close>

definition reads :: "string list" where
  "reads =
     [''rec53_query_counter'', ''rec53_response_counter'', ''rec53_latency'', ''rec53_cache_lookup_total'', ''rec53_cache_entries'',
      ''rec53_cache_lifecycle_total'', ''rec53_snapshot_operations_total'', ''rec53_snapshot_entries_total'', ''rec53_snapshot_duration_ms'',
      ''rec53_upstream_failures_total'', ''rec53_upstream_fallback_total'', ''rec53_upstream_winner_total'', ''rec53_xdp_status'',
      ''rec53_xdp_entries'', ''rec53_xdp_cache_hits_total'', ''rec53_xdp_cache_misses_total'', ''rec53_xdp_pass_total'', ''rec53_xdp_errors_total'',
      ''rec53_xdp_cache_sync_errors_total'', ''rec53_xdp_cleanup_deleted_total'', ''rec53_state_machine_stage_total'',
      ''rec53_state_machine_failures_total'', ''rec53_state_machine_transition_total'']"

lemma reads_registered: "list_all (\<lambda>name. name \<in> set (map mfName registered_families)) reads"
  unfolding registered_names reads_def by simp

lemma agree_on_reads:
  assumes "agree s s'"
  shows "list_all (\<lambda>name. sn_sum s name = sn_sum s' name) reads" "list_all (\<lambda>name. \<forall>lab. sumByLabel s name lab = sumByLabel s' name lab) reads"
    "list_all (\<lambda>name. \<forall>l r. sumByLabelPair s name l r = sumByLabelPair s' name l r) reads"
    "list_all (\<lambda>name. histogramBuckets s name = histogramBuckets s' name) reads" "list_all (\<lambda>name. gaugeValue s name = gaugeValue s' name) reads"
    "list_all (\<lambda>name. hasMetric s name = hasMetric s' name) reads"
    "list_all (\<lambda>name. samples_of (snCounters s) name = samples_of (snCounters s') name) reads" "list_all (\<lambda>name. snCounters s name = snCounters s' name) reads"
  using agree_reads [OF assms] reads_registered unfolding list_all_iff by blast+

lemmas same_reads = agree_on_reads [unfolded reads_def list.pred_inject]

lemma traffic_agree:
  assumes c: "agree c c'" and p: "agree p p'"
  shows "buildTrafficPanel S (Some p) c dt = buildTrafficPanel S (Some p') c' dt"
  by (simp add: buildTrafficPanel_def Let_def label_delta_def sum_rate_def gauge_delta_def same_reads [OF c] same_reads [OF p]
      cong: option.case_cong if_cong)

lemma cache_agree:
  assumes c: "agree c c'" and p: "agree p p'"
  shows "buildCachePanel S (Some p) c dt = buildCachePanel S (Some p') c' dt"
  by (simp add: buildCachePanel_def Let_def label_delta_def sum_rate_def gauge_delta_def same_reads [OF c] same_reads [OF p]
      cong: option.case_cong if_cong)

lemma snapshot_agree:
  assumes c: "agree c c'" and p: "agree p p'"
  shows "buildSnapshotPanel S (Some p) c dt = buildSnapshotPanel S (Some p') c' dt"
  by (simp add: buildSnapshotPanel_def Let_def label_delta_def sum_rate_def gauge_delta_def same_reads [OF c] same_reads [OF p]
      cong: option.case_cong if_cong)

lemma upstream_agree:
  assumes c: "agree c c'" and p: "agree p p'"
  shows "buildUpstreamPanel S (Some p) c dt = buildUpstreamPanel S (Some p') c' dt"
  by (simp add: buildUpstreamPanel_def Let_def label_delta_def sum_rate_def gauge_delta_def same_reads [OF c] same_reads [OF p]
      cong: option.case_cong if_cong)

lemma xdp_agree:
  assumes c: "agree c c'" and p: "agree p p'"
  shows "buildXDPPanel (Some p) c dt = buildXDPPanel (Some p') c' dt"
  by (simp add: buildXDPPanel_def Let_def label_delta_def sum_rate_def gauge_delta_def same_reads [OF c] same_reads [OF p]
      cong: option.case_cong if_cong)

lemma machine_agree:
  assumes c: "agree c c'" and p: "agree p p'"
  shows "buildStateMachinePanel S (Some p) c dt = buildStateMachinePanel S (Some p') c' dt"
  by (simp add: buildStateMachinePanel_def machine_transitions_def Let_def label_delta_def sum_rate_def gauge_delta_def same_reads [OF c] same_reads [OF p]
      cong: option.case_cong if_cong)

lemmas panels_agree = traffic_agree cache_agree snapshot_agree upstream_agree xdp_agree machine_agree

lemma panels_derive:
  "panels (deriveDashboard S now target prev (Some c) dur) =
     (let dt = scrape_gap prev c in (buildTrafficPanel S prev c dt, buildCachePanel S prev c dt, buildSnapshotPanel S prev c dt,
        buildUpstreamPanel S prev c dt, buildXDPPanel prev c dt, buildStateMachinePanel S prev c dt))"
  by (simp add: deriveDashboard_def panels_def Let_def)

section \<open>Properties\<close>

text \<open>
  C28. Metrics never panic: registering the families succeeds on an empty registry, and every call a method
  makes is on exactly one registered family, with as many label values as that family has labels and an
  operation of its kind.
\<close>

theorem metric_calls_registered:
  "Register [] = Some registered_families
    \<and> (\<forall>(name, values, call)\<in>set (metric_calls ev).
        \<exists>!f. f \<in> set registered_families \<and> mfName f = name \<and> length values = length (mfLabels f) \<and> call_fits call (mfKind f))"
proof -
  have "\<exists>!f. f \<in> set registered_families \<and> mfName f = name \<and> length values = length (mfLabels f) \<and> call_fits call (mfKind f)"
    if "(name, values, call) \<in> set (metric_calls ev)" for name "values" call
  proof -
    have "call_ok (name, values, call)" using calls_ok [of ev] that by (auto simp: list_all_iff)
    then obtain f where "family_of name = Some f" "length values = length (mfLabels f) \<and> call_fits call (mfKind f)"
      by (auto simp: call_ok_def split: option.splits)
    then show ?thesis by (rule family_of_unique)
  qed
  moreover have "Register [] = Some registered_families"
    using must_register_distinct [of "[]" registered_families] families_distinct by (simp add: Register_def)
  ultimately show ?thesis by blast
qed

theorem metric_calls_registered_witness:
  "\<exists>!f. f \<in> set registered_families \<and> mfName f = ''rec53_cache_lookup_total'' \<and> length [''miss''] = length (mfLabels f)
     \<and> call_fits (IncBy 1) (mfKind f)"
proof -
  have "(''rec53_cache_lookup_total'', [''miss''], IncBy 1) \<in> set (metric_calls (CacheLookupAdd ''miss''))" by (simp add: inc1_def)
  with metric_calls_registered [of "CacheLookupAdd ''miss''"] show ?thesis by blast
qed

text \<open>
  C35. The dashboard reads only what the resolver exports: two scrapes at the same time that agree on the
  registered families lead to the same panels, whatever else the target exports.
\<close>

theorem dashboard_reads_registered:
  assumes "agree c c'" "agree p p'"
  shows "panels (deriveDashboard S now target (Some p) (Some c) dur) = panels (deriveDashboard S now target (Some p') (Some c') dur)"
proof -
  have at: "snAt c = snAt c'" "snAt p = snAt p'" using assms unfolding agree_def by blast+
  have gap: "scrape_gap (Some p) c = scrape_gap (Some p') c'" unfolding scrape_gap_def option.case at by (rule refl)
  show ?thesis unfolding panels_derive gap panels_agree [OF assms] by (rule refl)
qed

definition empty_scrape :: MetricsSnapshot where
  "empty_scrape = \<lparr>snAt = 0, snGauges = Map.empty, snCounters = Map.empty, snHistograms = Map.empty\<rparr>"

theorem dashboard_reads_registered_witness:
  "panels (deriveDashboard go_sorters 0 ''t'' (Some empty_scrape) (Some (empty_scrape\<lparr>snGauges := [''go_goroutines'' \<mapsto> []]\<rparr>)) 0)
     = panels (deriveDashboard go_sorters 0 ''t'' (Some empty_scrape) (Some empty_scrape) 0)"
proof -
  have no: "''go_goroutines'' \<notin> set (map mfName registered_families)" unfolding registered_names by simp
  have "agree s s" for s by (simp add: agree_def)
  moreover have "agree (empty_scrape\<lparr>snGauges := [''go_goroutines'' \<mapsto> []]\<rparr>) empty_scrape"
    unfolding agree_def
  proof (intro conjI ballI)
    fix name
    assume "name \<in> set (map mfName registered_families)"
    with no have "name \<noteq> ''go_goroutines''" by metis
    then show "snGauges (empty_scrape\<lparr>snGauges := [''go_goroutines'' \<mapsto> []]\<rparr>) name = snGauges empty_scrape name"
      by (simp only: MetricsSnapshot.simps empty_scrape_def fun_upd_apply if_False)
  qed simp_all
  ultimately show ?thesis by (intro dashboard_reads_registered)
qed

end
