(* ===== verification/Spec2Isabelle.thy ===== *)
theory Spec2Isabelle
  imports Config Dnsperf Tui_App Observability Background Metric_Registry
begin

text \<open>
  A verification development of rec53, a recursive DNS resolver written in Go, and of the two programs
  that come with it, the dashboard \<open>rec53top\<close> and the load generator \<open>dnsperf\<close>.

  \<^bold>\<open>The program.\<close>  \<open>src/cmd/rec53.go\<close> reads the configuration, validates it and starts a server
  (\<open>src/server/server.go\<close>).  \<open>ServeDNS\<close> gives each request to the resolution state machine
  (\<open>src/server/state_machine.go\<close>), whose states check the request, look into the static records, ask the
  upstreams of a forwarding zone, look into the cache, classify a response, follow aliases, collect the
  addresses of name servers and query them.  The queries to name servers run as a race of the two best
  addresses (\<open>src/server/state_query_upstream.go\<close>), chosen by a pool that scores addresses
  (\<open>src/server/ip_pool.go\<close>, \<open>src/server/ip_pool_quality_v2.go\<close>) and admitted by a global gate
  (\<open>src/server/upstream_concurrency_gate.go\<close>).  A limiter (\<open>src/server/expensive_request_limiter.go\<close>) bounds what
  one client may have running, together with a controller that protects hot zones
  (\<open>src/server/hot_zone_protection.go\<close>).  The cache is mirrored into a map of the kernel for a fast path, saved to
  a file at shutdown and warmed up at start.  Package \<open>monitor\<close> counts what happens, \<open>src/tui\<close> shows it.

  \<^bold>\<open>State.\<close>  What a request can change is the record \<open>world\<close> of theory \<open>World\<close>: cache, pool, gate, limiter, the
  holder of the request, its trace, the calls on the kernel map and the metric events.  What the program
  cannot determine, that is the answers of the network, clocks, the order the scheduler picks, random
  identifiers, is the record \<open>env\<close> of functions indexed by the number of such steps so far (\<open>wTick\<close>); a theorem for
  every environment is a theorem for every network and every schedule.  Operations pass the state explicitly
  and return it.  A panic is \<open>None\<close>, an error a value.

  \<^bold>\<open>Code that is not in the repository.\<close>  The dns package is the record \<open>dnslib\<close> (\<open>Dns_Message\<close>), go-cache the
  record of \<open>World\<close>, each with its documented behaviour as named laws; \<open>Dns_Reference\<close> and \<open>World\<close> give instances
  that keep the laws.  \<open>sort.Slice\<close> is an argument that sorts in some order of equal elements
  (\<open>sort_slice_ok\<close>).  The YAML parser, the eBPF library, the terminal library and the Prometheus client
  are inputs.  What the program uses of the language and its standard library is modelled: words of the
  widths of the source, truncating division, strings, \<open>net.ParseIP\<close>, \<open>net.SplitHostPort\<close>, base64, formatting, and
  \<open>float64\<close> as rationals rounded to 53 bits after every operation (\<open>Go_Float\<close>; exponents are unbounded, so overflow to
  infinity and NaN do not arise).

  \<^bold>\<open>Theories.\<close>
  \<^item> \<open>Go_Prelude\<close>, \<open>Go_Float\<close>, \<open>Go_Net\<close>, \<open>Go_IP\<close>, \<open>Go_Base64\<close>, \<open>Go_Format\<close>: the language and its library.
  \<^item> \<open>Contracts\<close>: the locales \<open>slot_gate\<close> (a counter of slots given out) and \<open>rate_log\<close> (a log that is silent for an
    interval and counts what it kept back), interpreted on the gate, the limiter and the hot-zone log.
  \<^item> \<open>Upstream_Gate\<close>, \<open>IP_Quality\<close>, \<open>IP_Pool\<close>, \<open>Hot_Zone\<close>, \<open>Expensive_Limiter\<close>, \<open>Zone_Util\<close>, \<open>Resolution_Trace\<close>: the
    components below a resolution.  The gate counts its holders under every interleaving, the ring buffer
    of latencies is the list of the last 64, the selected address has a minimal score, a controller refuses only
    what it has confirmed.
  \<^item> \<open>Dns_Message\<close>, \<open>Dns_Reference\<close>, \<open>Metrics\<close>, \<open>World\<close>: messages, events and the state of the program.
  \<^item> \<open>Dns_Cache\<close>, \<open>Xdp_Sync\<close>, \<open>Xdp_Loader\<close>, \<open>Snapshot\<close>, \<open>Warmup\<close>, \<open>Hosts_Forward\<close>: cache, its copies and what it is
    filled from.  The snapshot and the cache give back what was stored; a value for the kernel is well formed.
  \<^item> \<open>Handlers\<close>, \<open>Query_Upstream\<close>, \<open>State_Machine\<close>, \<open>Resolution\<close>: the states, the loop and its properties.  Locale
    \<open>state_handler\<close> is what the loop relies on: a handler returns one of its codes, keeps the invariant of the
    world and the identity of the request; every state is an interpretation of it, the upstream state one
    inside \<open>ns_resolver\<close>, the contract of a nested resolution, which the loop itself fulfils.  A resolution
    returns, with exactly one of reply and error, and gives back its slots.
  \<^item> \<open>Runtime_State\<close>, \<open>Server\<close>, \<open>Config\<close>: the phases under every interleaving, requests from the wire to the
    reply, start and shutdown, and from the configuration file to the answer of a client.
  \<^item> \<open>Background\<close>: the reading of the CPU counters and the ticker loops over the kernel maps.
  \<^item> \<open>Metric_Registry\<close>: the metric families; no call on them can panic, and the dashboard reads no others.
  \<^item> \<open>Tui_Metrics\<close>, \<open>Tui_Dashboard\<close>, \<open>Tui_Detail\<close>, \<open>Tui_App\<close>: the dashboard from a scrape to the texts it shows and the
    keys it handles.  \<open>Observability\<close> joins both ends: the exit the dashboard attaches to a failure is the one the
    resolver took.
  \<^item> \<open>Dnsperf\<close>: the load generator; whatever its goroutines do, the run ends with every query recorded.

  \<^bold>\<open>Bounds.\<close>  The loop of a resolution has the 50 iterations of \<open>MaxIterations\<close>, and its model recurses on them.
  A resolution may start another one to find the address of a name server, which may not start a third:
  \<open>Change\<close> is \<open>Change_level 2\<close>, and \<open>nested_runs_bounded\<close> shows that allowing more levels changes nothing.  Other loops recurse
  on their data or have a termination proof; no definition has fuel.

  \<^bold>\<open>What is simplified.\<close>  The goroutines that look up name servers in parallel run one after the other, in any
  order; a racer that has lost ends later, which \<open>wPending\<close> counts.  Operations that hold a mutex for their
  whole body are atomic; where the source releases it in between, as \<open>SetRuntimeServingPhase\<close> does, the steps are
  separate.  Messages are values, since the cache copies them on both ways.  Log lines are left out, except
  where the rate of logging is the point.

  \<^bold>\<open>Not modelled.\<close>  The generated BPF bindings (\<open>src/server/dnscache_bpfeb.go\<close>, \<open>src/server/dnscache_bpfel.go\<close>) and the
  C program of the fast path; the set-up of the logger and of the profiling server
  (\<open>src/monitor/log.go\<close>, \<open>src/monitor/pprof.go\<close>); the diagnostics printed on a signal; the layout of the widgets
  in \<open>src/tui/app.go\<close>; the progress lines and timers of \<open>src/tools/dnsperf/main.go\<close>; the flags of
  \<open>src/cmd/rec53top/main.go\<close>; and the helpers of the end-to-end tests.  They are input and output without a
  result the program uses, generated, or test code.
\<close>

end
